(* ===== verification/Prelude.thy ===== *)
theory Prelude
  imports Main "HOL-Library.Word"
begin

text \<open>
  The vocabulary every component shares: Go errors and panics as values, the monad in
  which the handlers are written, and the two calculi the proofs use.

  A Go function that talks to the outside is a function from a state to a triple: the
  outcome, the log of the calls it made (oldest first), and the new state. The outcome is
  \<open>Ok v\<close> for a return with a nil error, \<open>Err e\<close> for a return with a non-nil error, and
  \<open>Abort a\<close> when the goroutine panics, hits a fatal runtime error or blocks forever.
\<close>

named_theorems go_defs \<open>definitions of the monad's operations\<close>
named_theorems wp_rules \<open>weakest-precondition equations of the operations\<close>
named_theorems emit_rules \<open>introduction rules for the log predicate\<close>

subsection \<open>Errors and aborts\<close>

text \<open>
  \<open>ErrNotExist\<close>, \<open>ErrExist\<close>, \<open>ErrPermission\<close> and \<open>ErrInvalid\<close> are the sentinels of
  package os, \<open>ENOTDIR\<close> the one of package syscall, \<open>EOF\<close> the one of package io.
  \<open>New m\<close> is errors.New(m), \<open>Errorf f as\<close> is fmt.Errorf(f, as...) kept unformatted (two
  of them are equal when the format and the arguments are), and \<open>Ext\<close> is an error made by
  a library. An argument \<open>FWrap e\<close> is one printed with the verb \<open>%w\<close>.
\<close>

datatype go_error =
    ErrNotExist | ErrExist | ErrPermission | ErrInvalid | ENOTDIR | EOF
  | New string
  | Errorf string "fmt_arg list"
  | Ext string
and fmt_arg = FStr string | FInt int | FErr "go_error option" | FWrap go_error

text \<open>errors.Is: the error itself, or one it wraps.\<close>

fun errors_Is :: "go_error \<Rightarrow> go_error \<Rightarrow> bool"
  and wraps_Is :: "fmt_arg list \<Rightarrow> go_error \<Rightarrow> bool" where
  "errors_Is e t = (e = t \<or> (case e of Errorf f as \<Rightarrow> wraps_Is as t | _ \<Rightarrow> False))"
| "wraps_Is [] t = False"
| "wraps_Is (a # as) t = ((case a of FWrap e \<Rightarrow> errors_Is e t | _ \<Rightarrow> False) \<or> wraps_Is as t)"

declare errors_Is.simps [simp del] wraps_Is.simps [simp del]

text \<open>
  \<open>FatalUnlock\<close> is the unrecoverable "sync: Unlock of unlocked RWMutex", \<open>Blocked\<close> a lock
  operation that never returns.
\<close>

datatype abort = NilDeref | SliceBounds | MakeSlice | FatalUnlock | Blocked

datatype 'a result = Ok 'a | Err go_error | Abort abort

definition result_of_sum :: "go_error + 'a \<Rightarrow> 'a result" where
  "result_of_sum r = (case r of Inl e \<Rightarrow> Err e | Inr x \<Rightarrow> Ok x)"

lemma result_of_sum_simps [simp]:
  "result_of_sum (Inl e) = Err e" "result_of_sum (Inr x) = Ok x"
  by (simp_all add: result_of_sum_def)

lemma result_of_sum_eq [simp]:
  "result_of_sum r = Ok x \<longleftrightarrow> r = Inr x"
  "result_of_sum r = Err e \<longleftrightarrow> r = Inl e"
  "result_of_sum r \<noteq> Abort a"
  by (cases r; simp)+

subsection \<open>The monad\<close>

type_synonym ('s, 'e, 'a) go = "'s \<Rightarrow> 'a result \<times> 'e list \<times> 's"

definition ret :: "'a \<Rightarrow> ('s, 'e, 'a) go" where
  [go_defs]: "ret x = (\<lambda>s. (Ok x, [], s))"

definition fail :: "go_error \<Rightarrow> ('s, 'e, 'a) go" where
  [go_defs]: "fail e = (\<lambda>s. (Err e, [], s))"

definition abort :: "abort \<Rightarrow> ('s, 'e, 'a) go" where
  [go_defs]: "abort a = (\<lambda>s. (Abort a, [], s))"

text \<open>\<open>x, err := m(); if err != nil { return err }; f(x)\<close>\<close>

definition bnd :: "('s, 'e, 'a) go \<Rightarrow> ('a \<Rightarrow> ('s, 'e, 'b) go) \<Rightarrow> ('s, 'e, 'b) go" where
  [go_defs]: "bnd m f = (\<lambda>s. case m s of
      (Ok x, l, s') \<Rightarrow> (case f x s' of (r, l', s'') \<Rightarrow> (r, l @ l', s''))
    | (Err e, l, s') \<Rightarrow> (Err e, l, s')
    | (Abort a, l, s') \<Rightarrow> (Abort a, l, s'))"

text \<open>\<open>x, err := m()\<close> where the code looks at \<open>err\<close> itself: the error is a value.\<close>

definition try_go :: "('s, 'e, 'a) go \<Rightarrow> ('s, 'e, go_error + 'a) go" where
  [go_defs]: "try_go m = (\<lambda>s. case m s of
      (Ok x, l, s') \<Rightarrow> (Ok (Inr x), l, s')
    | (Err e, l, s') \<Rightarrow> (Ok (Inl e), l, s')
    | (Abort a, l, s') \<Rightarrow> (Abort a, l, s'))"

text \<open>\<open>x, err := m(); if err != nil { return wrap(err) }\<close>\<close>

definition map_err :: "(go_error \<Rightarrow> go_error) \<Rightarrow> ('s, 'e, 'a) go \<Rightarrow> ('s, 'e, 'a) go" where
  [go_defs]: "map_err g m = (\<lambda>s. case m s of
      (Ok x, l, s') \<Rightarrow> (Ok x, l, s')
    | (Err e, l, s') \<Rightarrow> (Err (g e), l, s')
    | (Abort a, l, s') \<Rightarrow> (Abort a, l, s'))"

definition of_result :: "'a result \<Rightarrow> ('s, 'e, 'a) go" where
  [go_defs]: "of_result r = (\<lambda>s. (r, [], s))"

definition get_st :: "('s, 'e, 's) go" where
  [go_defs]: "get_st = (\<lambda>s. (Ok s, [], s))"

definition modify_st :: "('s \<Rightarrow> 's) \<Rightarrow> ('s, 'e, unit) go" where
  [go_defs]: "modify_st f = (\<lambda>s. (Ok (), [], f s))"

text \<open>
  \<open>defer d\<close> around a body: the deferred call runs after a return and after a panic, not
  after a fatal runtime error and not when the body never returns.
\<close>

definition with_defer :: "('s, 'e, unit) go \<Rightarrow> ('s, 'e, 'a) go \<Rightarrow> ('s, 'e, 'a) go" where
  [go_defs]: "with_defer d m = (\<lambda>s. case m s of (r, l, s') \<Rightarrow>
     if r = Abort FatalUnlock \<or> r = Abort Blocked then (r, l, s')
     else (case d s' of
         (Abort a, l', s'') \<Rightarrow> (Abort a, l @ l', s'')
       | (_, l', s'') \<Rightarrow> (r, l @ l', s'')))"

text \<open>A computation on the world, seen as one on a pair of the world and a local state.\<close>

definition on_world :: "('w, 'e, 'a) go \<Rightarrow> ('w \<times> 'h, 'e, 'a) go" where
  [go_defs]: "on_world m = (\<lambda>(w, h). case m w of (r, l, w') \<Rightarrow> (r, l, (w', h)))"

lemma ret_apply: "ret x s = (Ok x, [], s)"
  and fail_apply: "fail e s = (Err e, [], s)"
  and abort_apply: "abort a s = (Abort a, [], s)"
  by (simp_all add: go_defs)

lemma bnd_ret [simp]: "bnd (ret x) f = f x"
  by (simp add: go_defs)

lemma bnd_fail [simp]: "bnd (fail e) f = fail e"
  by (simp add: go_defs)

lemma bnd_abort [simp]: "bnd (abort a) f = abort a"
  by (simp add: go_defs)

lemma bnd_assoc: "bnd (bnd m f) g = bnd m (\<lambda>x. bnd (f x) g)"
  by (rule ext) (simp add: go_defs split: prod.splits result.splits)

lemma of_result_simps [simp]:
  "of_result (Ok x) = ret x" "of_result (Err e) = fail e" "of_result (Abort a) = abort a"
  by (simp_all add: go_defs)

subsection \<open>Weakest preconditions\<close>

text \<open>
  \<open>wp m Q s\<close>: the run of \<open>m\<close> from \<open>s\<close> ends with an outcome, a log and a state that
  satisfy \<open>Q\<close>. The equations push a postcondition backwards through a handler.
\<close>

definition wp :: "('s, 'e, 'a) go \<Rightarrow> ('a result \<Rightarrow> 'e list \<Rightarrow> 's \<Rightarrow> bool) \<Rightarrow> 's \<Rightarrow> bool" where
  "wp m Q s = (case m s of (r, l, s') \<Rightarrow> Q r l s')"

lemma wp_run: "wp m Q s \<longleftrightarrow> (\<forall>r l s'. m s = (r, l, s') \<longrightarrow> Q r l s')"
  by (cases "m s") (simp add: wp_def)

lemma wpI: "(\<And>r l s'. m s = (r, l, s') \<Longrightarrow> Q r l s') \<Longrightarrow> wp m Q s"
  by (simp add: wp_run)

lemma wpD: "wp m Q s \<Longrightarrow> m s = (r, l, s') \<Longrightarrow> Q r l s'"
  by (simp add: wp_run)

lemma wp_eqD: "wp m (\<lambda>r' l' s'. r' = r \<and> l' = l \<and> s' = t) s \<Longrightarrow> m s = (r, l, t)"
  by (cases "m s") (simp add: wp_def)

lemma wp_mono: "wp m Q s \<Longrightarrow> (\<And>r l s'. Q r l s' \<Longrightarrow> Q' r l s') \<Longrightarrow> wp m Q' s"
  by (auto simp: wp_run)

lemma wp_conj: "wp m (\<lambda>r l s'. Q r l s' \<and> Q' r l s') s \<longleftrightarrow> wp m Q s \<and> wp m Q' s"
  by (auto simp: wp_run)

lemma wp_ret [wp_rules]: "wp (ret x) Q s = Q (Ok x) [] s"
  by (simp add: wp_def go_defs)

lemma wp_fail [wp_rules]: "wp (fail e) Q s = Q (Err e) [] s"
  by (simp add: wp_def go_defs)

lemma wp_abort [wp_rules]: "wp (abort a) Q s = Q (Abort a) [] s"
  by (simp add: wp_def go_defs)

lemma wp_of_result [wp_rules]: "wp (of_result r) Q s = Q r [] s"
  by (simp add: wp_def go_defs)

lemma wp_get_st [wp_rules]: "wp get_st Q s = Q (Ok s) [] s"
  by (simp add: wp_def go_defs)

lemma wp_modify_st [wp_rules]: "wp (modify_st f) Q s = Q (Ok ()) [] (f s)"
  by (simp add: wp_def go_defs)

lemma wp_bnd [wp_rules]:
  "wp (bnd m f) Q s = wp m (\<lambda>r l s'. case r of
      Ok x \<Rightarrow> wp (f x) (\<lambda>r' l'. Q r' (l @ l')) s'
    | Err e \<Rightarrow> Q (Err e) l s'
    | Abort a \<Rightarrow> Q (Abort a) l s') s"
  by (simp add: wp_def go_defs split: prod.splits result.splits)

lemma wp_try_go [wp_rules]:
  "wp (try_go m) Q s = wp m (\<lambda>r l s'. case r of
      Ok x \<Rightarrow> Q (Ok (Inr x)) l s'
    | Err e \<Rightarrow> Q (Ok (Inl e)) l s'
    | Abort a \<Rightarrow> Q (Abort a) l s') s"
  by (simp add: wp_def go_defs split: prod.splits result.splits)

lemma wp_map_err [wp_rules]:
  "wp (map_err g m) Q s = wp m (\<lambda>r l s'. case r of
      Ok x \<Rightarrow> Q (Ok x) l s'
    | Err e \<Rightarrow> Q (Err (g e)) l s'
    | Abort a \<Rightarrow> Q (Abort a) l s') s"
  by (simp add: wp_def go_defs split: prod.splits result.splits)

lemma wp_with_defer [wp_rules]:
  "wp (with_defer d m) Q s = wp m (\<lambda>r l s'.
     if r = Abort FatalUnlock \<or> r = Abort Blocked then Q r l s'
     else wp d (\<lambda>r' l' s''. case r' of Abort a \<Rightarrow> Q (Abort a) (l @ l') s''
                                   | _ \<Rightarrow> Q r (l @ l') s'') s') s"
  by (simp add: wp_def go_defs split: prod.splits result.splits)

lemma wp_on_world [wp_rules]:
  "wp (on_world m) Q (w, h) = wp m (\<lambda>r l w'. Q r l (w', h)) w"
  by (simp add: wp_def go_defs split: prod.splits)

lemma wp_if [wp_rules]:
  "wp (if b then m else m') Q s = (if b then wp m Q s else wp m' Q s)"
  by simp

text \<open>The case splits that evaluating a call leaves.\<close>

lemmas rpc_splits = prod.split option.split sum.split result.split

subsection \<open>The log of a run\<close>

text \<open>Every event a computation can log, from any state, satisfies \<open>P\<close>.\<close>

definition emits :: "('e \<Rightarrow> bool) \<Rightarrow> ('s, 'e, 'a) go \<Rightarrow> bool" where
  "emits P m = (\<forall>s. wp m (\<lambda>r l s'. list_all P l) s)"

lemma emitsI: "(\<And>s r l s'. m s = (r, l, s') \<Longrightarrow> list_all P l) \<Longrightarrow> emits P m"
  by (auto simp: emits_def wp_run)

lemma emitsD: "emits P m \<Longrightarrow> m s = (r, l, s') \<Longrightarrow> e \<in> set l \<Longrightarrow> P e"
  by (auto simp: emits_def wp_run list_all_iff)

lemma emits_mono: "emits P m \<Longrightarrow> (\<And>e. P e \<Longrightarrow> P' e) \<Longrightarrow> emits P' m"
  by (force simp: emits_def wp_run list_all_iff)

lemma emits_pure [emit_rules]:
  "emits P (ret x)" "emits P (fail e)" "emits P (abort a)" "emits P (of_result r)"
  "emits P get_st" "emits P (modify_st f)"
  by (simp_all add: emits_def wp_rules)

lemma emits_bnd_dep:
  assumes "emits P m" "\<And>x s l s'. m s = (Ok x, l, s') \<Longrightarrow> emits P (f x)"
  shows "emits P (bnd m f)"
proof (rule emitsI)
  fix s r l s' assume run: "bnd m f s = (r, l, s')"
  obtain r1 l1 s1 where m: "m s = (r1, l1, s1)" by (cases "m s") auto
  have l1: "list_all P l1" using assms(1) m by (auto simp: emits_def wp_run)
  show "list_all P l"
  proof (cases r1)
    case (Ok x)
    obtain r2 l2 s2 where f: "f x s1 = (r2, l2, s2)" by (cases "f x s1") auto
    have "list_all P l2" using assms(2)[of s x l1 s1] m Ok f by (auto simp: emits_def wp_run)
    with run m Ok f l1 show ?thesis by (auto simp: go_defs)
  qed (use run m l1 in \<open>auto simp: go_defs\<close>)
qed

lemma emits_bnd [emit_rules]:
  "emits P m \<Longrightarrow> (\<And>x. emits P (f x)) \<Longrightarrow> emits P (bnd m f)"
  by (rule emits_bnd_dep) auto

lemma emits_try_go [emit_rules]: "emits P m \<Longrightarrow> emits P (try_go m)"
  by (auto simp: emits_def wp_def go_defs split: prod.splits result.splits)

lemma emits_map_err [emit_rules]: "emits P m \<Longrightarrow> emits P (map_err g m)"
  by (auto simp: emits_def wp_def go_defs split: prod.splits result.splits)

lemma emits_on_world [emit_rules]: "emits P m \<Longrightarrow> emits P (on_world m)"
  by (auto simp: emits_def wp_def go_defs split: prod.splits)

lemma emits_with_defer [emit_rules]:
  "emits P d \<Longrightarrow> emits P m \<Longrightarrow> emits P (with_defer d m)"
  by (auto simp: emits_def wp_def go_defs split: prod.splits result.splits) blast+

lemma emits_if [emit_rules]:
  "(b \<Longrightarrow> emits P m) \<Longrightarrow> (\<not> b \<Longrightarrow> emits P m') \<Longrightarrow> emits P (if b then m else m')"
  by simp

lemma emits_case_option [emit_rules]:
  "(x = None \<Longrightarrow> emits P m) \<Longrightarrow> (\<And>y. x = Some y \<Longrightarrow> emits P (g y)) \<Longrightarrow>
   emits P (case x of None \<Rightarrow> m | Some y \<Rightarrow> g y)"
  by (cases x) simp_all

lemma emits_case_sum [emit_rules]:
  "(\<And>y. emits P (f y)) \<Longrightarrow> (\<And>y. emits P (g y)) \<Longrightarrow> emits P (case x of Inl y \<Rightarrow> f y | Inr y \<Rightarrow> g y)"
  by (cases x) simp_all

lemma emits_case_prod [emit_rules]:
  "(\<And>a b. emits P (f a b)) \<Longrightarrow> emits P (case x of (a, b) \<Rightarrow> f a b)"
  by (cases x) simp_all

lemma emits_case_list [emit_rules]:
  "emits P m \<Longrightarrow> (\<And>y ys. emits P (g y ys)) \<Longrightarrow> emits P (case x of [] \<Rightarrow> m | y # ys \<Rightarrow> g y ys)"
  by (cases x) simp_all

end
