(* ===== verification/Go_Lib.thy ===== *)
theory Go_Lib
  imports Prelude
begin

text \<open>
  What the program uses of Go's standard library: byte strings (package strings), slash
  paths (package path, and package path/filepath, which agrees with it on Unix), decimal
  integers (strconv), slices of bytes, and 64-bit integer arithmetic. A Go string is a
  sequence of bytes, and so is an Isabelle \<open>string\<close>.
\<close>

subsection \<open>Package strings\<close>

definition TrimPrefix :: "string \<Rightarrow> string \<Rightarrow> string" where
  "TrimPrefix s p = (if take (length p) s = p then drop (length p) s else s)"

definition HasSuffix :: "string \<Rightarrow> string \<Rightarrow> bool" where
  "HasSuffix s suf = (length suf \<le> length s \<and> drop (length s - length suf) s = suf)"

definition TrimSuffix :: "string \<Rightarrow> string \<Rightarrow> string" where
  "TrimSuffix s suf = (if HasSuffix s suf then take (length s - length suf) s else s)"

text \<open>strings.SplitN(s, sep, 2) for a separator of one byte: at the first separator.\<close>

definition SplitN2 :: "string \<Rightarrow> char \<Rightarrow> string list" where
  "SplitN2 s c = (case dropWhile ((\<noteq>) c) s of
       [] \<Rightarrow> [s]
     | _ # r \<Rightarrow> [takeWhile ((\<noteq>) c) s, r])"

lemma TrimPrefix_slash [simp]: "TrimPrefix (CHR ''/'' # s) ''/'' = s"
  by (simp add: TrimPrefix_def)

lemma HasSuffix_append [simp]: "HasSuffix (s @ suf) suf"
  by (simp add: HasSuffix_def)

lemma HasSuffix_iff: "HasSuffix s suf \<longleftrightarrow> (\<exists>p. s = p @ suf)"
  by (metis HasSuffix_append HasSuffix_def append_take_drop_id)

lemma TrimSuffix_append [simp]: "TrimSuffix (s @ suf) suf = s"
  by (simp add: TrimSuffix_def)

lemma TrimSuffix_id: "\<not> HasSuffix s suf \<Longrightarrow> TrimSuffix s suf = s"
  by (simp add: TrimSuffix_def)

lemma SplitN2_no_sep:
  assumes "c \<notin> set s"
  shows "SplitN2 s c = [s]"
proof -
  have "dropWhile ((\<noteq>) c) s = []" using assms by auto
  then show ?thesis unfolding SplitN2_def by (simp only: list.case)
qed

lemma SplitN2_sep: "c \<notin> set a \<Longrightarrow> SplitN2 (a @ c # b) c = [a, b]"
proof -
  assume c: "c \<notin> set a"
  then have "dropWhile ((\<noteq>) c) (a @ c # b) = c # b"
    by (subst dropWhile_append2) auto
  moreover have "takeWhile ((\<noteq>) c) (a @ c # b) = a"
    using c by (subst takeWhile_append2) auto
  ultimately show ?thesis unfolding SplitN2_def by (simp only: list.case)
qed

lemma SplitN2_cases:
  obtains "c \<notin> set s" "SplitN2 s c = [s]"
  | a b where "c \<notin> set a" "s = a @ c # b" "SplitN2 s c = [a, b]"
proof (cases "c \<in> set s")
  case True
  then obtain a b where "s = a @ c # b" "c \<notin> set a" by (meson split_list_first)
  then show ?thesis using that(2) by (simp add: SplitN2_sep)
next
  case False
  then show ?thesis using that(1) by (simp add: SplitN2_no_sep)
qed

subsection \<open>Package path\<close>

text \<open>The components between slashes, the empty ones included.\<close>

fun slash_split :: "string \<Rightarrow> string list" where
  "slash_split [] = [[]]"
| "slash_split (c # s) =
     (if c = CHR ''/'' then [] # slash_split s
      else (case slash_split s of x # xs \<Rightarrow> (c # x) # xs | [] \<Rightarrow> [[c]]))"

fun slash_join :: "string list \<Rightarrow> string" where
  "slash_join [] = []"
| "slash_join [x] = x"
| "slash_join (x # y # ys) = x @ CHR ''/'' # slash_join (y # ys)"

text \<open>path.Clean's loop; the stack holds the kept components, the last one first.\<close>

fun clean_loop :: "bool \<Rightarrow> string list \<Rightarrow> string list \<Rightarrow> string list" where
  "clean_loop rooted st [] = rev st"
| "clean_loop rooted st (c # cs) =
     (if c = [] \<or> c = ''.'' then clean_loop rooted st cs
      else if c = ''..'' then
        (case st of
           [] \<Rightarrow> clean_loop rooted (if rooted then [] else [''..'']) cs
         | x # xs \<Rightarrow> clean_loop rooted (if x = ''..'' then ''..'' # st else xs) cs)
      else clean_loop rooted (c # st) cs)"

definition path_Clean :: "string \<Rightarrow> string" where
  "path_Clean p =
     (let rooted = (take 1 p = ''/'');
          out = slash_join (clean_loop rooted [] (slash_split p))
      in if rooted then CHR ''/'' # out else if out = [] then ''.'' else out)"

definition path_Join :: "string list \<Rightarrow> string" where
  "path_Join elems =
     (case filter (\<lambda>e. e \<noteq> []) elems of [] \<Rightarrow> [] | es \<Rightarrow> path_Clean (slash_join es))"

lemma slash_split_nonempty [simp]: "slash_split s \<noteq> []"
  by (induction s) (auto split: list.splits)

lemma slash_split_single: "CHR ''/'' \<notin> set s \<Longrightarrow> slash_split s = [s]"
  by (induction s) auto

lemma slash_split_append:
  "CHR ''/'' \<notin> set a \<Longrightarrow> slash_split (a @ CHR ''/'' # b) = a # slash_split b"
  by (induction a) auto

lemma slash_split_last:
  "CHR ''/'' \<notin> set x \<Longrightarrow> slash_split (d @ CHR ''/'' # x) = slash_split d @ [x]"
  by (induction d) (auto simp: slash_split_single split: list.splits)

lemma slash_join_snoc: "slash_join (xs @ [x]) = (if xs = [] then x else slash_join xs @ CHR ''/'' # x)"
  by (induction xs rule: slash_join.induct) auto

text \<open>A name that Clean keeps: a component that is not empty and not one of the dots.\<close>

definition plain_name :: "string \<Rightarrow> bool" where
  "plain_name x \<longleftrightarrow> x \<notin> {[], ''.'', ''..''} \<and> CHR ''/'' \<notin> set x"

lemma clean_loop_snoc:
  "plain_name x \<Longrightarrow> clean_loop rooted st (cs @ [x]) = clean_loop rooted st cs @ [x]"
  by (induction rooted st cs rule: clean_loop.induct) (auto simp: plain_name_def split: list.split)

lemma path_Clean_name:
  assumes "plain_name x"
  shows "\<exists>p. path_Clean (d @ CHR ''/'' # x) = p @ x \<and> (p = [] \<or> last p = CHR ''/'')"
proof -
  let ?r = "take 1 (d @ CHR ''/'' # x) = ''/''"
  let ?cs = "clean_loop ?r [] (slash_split d)"
  have c: "clean_loop ?r [] (slash_split (d @ CHR ''/'' # x)) = ?cs @ [x]"
    using assms by (simp add: slash_split_last clean_loop_snoc plain_name_def del: slash_split.simps)
  have x: "x \<noteq> []" using assms by (simp add: plain_name_def)
  obtain p where p: "slash_join (?cs @ [x]) = p @ x" "p = [] \<or> last p = CHR ''/''"
    by (cases "?cs = []") (auto simp: slash_join_snoc)
  show ?thesis
  proof (cases ?r)
    case True
    then show ?thesis using c p by (intro exI [of _ "CHR ''/'' # p"]) (auto simp: path_Clean_def Let_def)
  next
    case False
    then show ?thesis using c p x by (intro exI [of _ p]) (auto simp: path_Clean_def Let_def)
  qed
qed

text \<open>Joining a plain name to anything gives a path whose last component is that name.\<close>

lemma path_Join_name:
  assumes "plain_name x"
  obtains p where "path_Join [d, x] = p @ x" "p = [] \<or> last p = CHR ''/''"
proof (cases "d = []")
  case True
  have "slash_split x = [x]" using assms by (simp add: plain_name_def slash_split_single)
  then have "path_Join [d, x] = x"
    using assms True
    by (cases x) (auto simp: path_Join_def path_Clean_def plain_name_def Let_def)
  then show ?thesis using that [of "[]"] by simp
next
  case False
  then have "path_Join [d, x] = path_Clean (d @ CHR ''/'' # x)"
    using assms by (simp add: path_Join_def plain_name_def)
  then show ?thesis using path_Clean_name [OF assms, of d] that by auto
qed

lemma path_Join_inj:
  assumes "plain_name x" "plain_name y" "path_Join [d, x] = path_Join [d', y]"
  shows "x = y"
proof -
  have last_name: "rev (takeWhile (\<lambda>c. c \<noteq> CHR ''/'') (rev (p @ z))) = z"
    if "CHR ''/'' \<notin> set z" "p = [] \<or> last p = CHR ''/''" for p z :: string
  proof -
    have z: "takeWhile (\<lambda>c. c \<noteq> CHR ''/'') (rev z) = rev z"
      using that(1) by (subst takeWhile_eq_all_conv) (simp only: set_rev, blast)
    show ?thesis using that(2) by (cases p rule: rev_cases) (simp_all add: takeWhile_tail z)
  qed
  obtain p where p: "path_Join [d, x] = p @ x" "p = [] \<or> last p = CHR ''/''"
    by (rule path_Join_name [OF assms(1)])
  obtain q where q: "path_Join [d', y] = q @ y" "q = [] \<or> last q = CHR ''/''"
    by (rule path_Join_name [OF assms(2)])
  have "CHR ''/'' \<notin> set x" "CHR ''/'' \<notin> set y" using assms by (simp_all add: plain_name_def)
  then show ?thesis
    using assms(3) p(1) q(1) last_name [OF _ p(2)] last_name [OF _ q(2)] by metis
qed

subsection \<open>Decimal integers\<close>

definition digit :: "nat \<Rightarrow> char" where
  "digit n = char_of (48 + n)"

fun dec_nat :: "nat \<Rightarrow> string" where
  "dec_nat n = (if n < 10 then [digit n] else dec_nat (n div 10) @ [digit (n mod 10)])"

declare dec_nat.simps [simp del]

definition FormatInt :: "int \<Rightarrow> string" where
  "FormatInt i = (if i < 0 then CHR ''-'' # dec_nat (nat (- i)) else dec_nat (nat i))"

definition dec_value :: "string \<Rightarrow> nat" where
  "dec_value s = foldl (\<lambda>v c. 10 * v + (of_char c - 48)) 0 s"

lemma dec_value_dec_nat: "dec_value (dec_nat n) = n"
proof (induction n rule: dec_nat.induct)
  case (1 n)
  have digit_val: "d < 10 \<Longrightarrow> (of_char (digit d) :: nat) = 48 + d" for d
    by (simp add: digit_def)
  show ?case
  proof (cases "n < 10")
    case True
    then show ?thesis
      by (subst dec_nat.simps) (simp add: dec_value_def digit_val)
  next
    case False
    then have "dec_value (dec_nat (n div 10)) = n div 10" using 1 by simp
    then show ?thesis using False
      by (subst dec_nat.simps) (simp add: dec_value_def digit_val)
  qed
qed

subsection \<open>Bytes and slices\<close>

type_synonym byte = "8 word"

text \<open>
  \<open>s[low:]\<close> and \<open>s[:high]\<close> panic outside the bounds. For \<open>s[:high]\<close> Go allows the capacity,
  which the model does not keep: the model panics beyond the length, and the properties
  of the file handler show that the code never goes there.
\<close>

definition slice_from :: "'a list \<Rightarrow> int \<Rightarrow> 'a list result" where
  "slice_from s low =
     (if 0 \<le> low \<and> low \<le> int (length s) then Ok (drop (nat low) s) else Abort SliceBounds)"

definition slice_to :: "'a list \<Rightarrow> int \<Rightarrow> 'a list result" where
  "slice_to s high =
     (if 0 \<le> high \<and> high \<le> int (length s) then Ok (take (nat high) s) else Abort SliceBounds)"

text \<open>make([]byte, n) panics for a negative length and for one above what the runtime allocates.\<close>

definition make_bytes :: "int \<Rightarrow> int \<Rightarrow> byte list result" where
  "make_bytes max_alloc n =
     (if 0 \<le> n \<and> n \<le> max_alloc then Ok (replicate (nat n) 0) else Abort MakeSlice)"

text \<open>copy(dst, src): the number of elements copied and the new contents of dst.\<close>

definition go_copy :: "'a list \<Rightarrow> 'a list \<Rightarrow> nat \<times> 'a list" where
  "go_copy dst src =
     (let n = min (length dst) (length src) in (n, take n src @ drop n dst))"

lemma go_copy_fst [simp]: "fst (go_copy dst src) = min (length dst) (length src)"
  by (simp add: go_copy_def Let_def)

lemma go_copy_length [simp]: "length (snd (go_copy dst src)) = length dst"
  by (simp add: go_copy_def Let_def)

lemma go_copy_fits: "length src \<le> length dst \<Longrightarrow> snd (go_copy dst src) = src @ drop (length src) dst"
  by (simp add: go_copy_def Let_def)

subsection \<open>64-bit integers\<close>

text \<open>An int64 is kept as an \<open>int\<close>; \<open>int64 i\<close> is the value left after wrap-around.\<close>

definition int64 :: "int \<Rightarrow> int" where
  "int64 i = sint (word_of_int i :: 64 word)"

text \<open>The conversion int64(u) of an unsigned 64-bit value.\<close>

definition int64_of_u64 :: "64 word \<Rightarrow> int" where
  "int64_of_u64 u = sint u"

lemma int64_id: "- (2 ^ 63) \<le> i \<Longrightarrow> i < 2 ^ 63 \<Longrightarrow> int64 i = i"
  unfolding int64_def by (subst sint_sbintrunc') (simp add: signed_take_bit_int_eq_self_iff)

lemma int64_wraps:
  assumes "2 ^ 63 \<le> i" "i < 2 ^ 64"
  shows "int64 i = i - 2 ^ 64"
proof -
  have "(i - 2 ^ 64) mod 2 ^ 64 = i mod 2 ^ 64"
    using minus_mod_self2 by blast
  then have "(word_of_int (i - 2 ^ 64) :: 64 word) = word_of_int i"
    by (simp only: word_of_int_eq_iff take_bit_eq_mod len_num1 len_bit0 mult_1_right) simp
  then have "int64 i = int64 (i - 2 ^ 64)"
    by (simp only: int64_def)
  also have "\<dots> = i - 2 ^ 64" using assms by (intro int64_id) simp_all
  finally show ?thesis .
qed

lemma int64_of_u64_small:
  assumes "uint u < 2 ^ 63"
  shows "int64_of_u64 u = uint u"
proof -
  have "- (2 ^ 63) \<le> uint u" by (rule order_trans [OF _ uint_ge_0]) simp
  with assms show ?thesis
    by (simp add: int64_of_u64_def sint_uint signed_take_bit_int_eq_self_iff)
qed

end
