(* ===== verification/Externals.thy ===== *)
theory Externals
  imports Go_Lib
begin

text \<open>
  The boundary of the program. The CS3 gateway, the HTTP data gateway, the context and
  metadata packages and the reva helpers are not part of this repository: they are fields
  of the records below, and the model takes a value \<open>X\<close> of type \<open>('w, 'c) env\<close> as an
  argument. \<open>'w\<close> is the state of everything outside the process and \<open>'c\<close> the type of
  contexts. The messages are records with the fields the code reads or writes; a message
  pointer that may be nil is an \<open>option\<close>, and the generated getters return the zero value
  for nil. Every call is logged as an \<open>event\<close> with its context, request and response.
\<close>

subsection \<open>Messages\<close>

text \<open>\<open>CODE_OTHER 0\<close> is CODE_INVALID, the zero value.\<close>

datatype rpc_code =
  CODE_OK | CODE_NOT_FOUND | CODE_ALREADY_EXISTS | CODE_PERMISSION_DENIED | CODE_OTHER nat

record status =
  StatusCode :: rpc_code
  StatusMessage :: string

definition GetCode :: "status option \<Rightarrow> rpc_code" where
  "GetCode st = (case st of None \<Rightarrow> CODE_OTHER 0 | Some s \<Rightarrow> StatusCode s)"

definition GetMessage :: "status option \<Rightarrow> string" where
  "GetMessage st = (case st of None \<Rightarrow> [] | Some s \<Rightarrow> StatusMessage s)"

lemma GetCode_simps [simp]: "GetCode None = CODE_OTHER 0" "GetCode (Some s) = StatusCode s"
  by (simp_all add: GetCode_def)

text \<open>\<open>res.Status\<close> used as a struct: a nil status panics.\<close>

definition deref :: "'a option \<Rightarrow> ('s, 'e, 'a) go" where
  "deref p = (case p of None \<Rightarrow> abort NilDeref | Some x \<Rightarrow> ret x)"

lemma deref_simps [simp]: "deref None = abort NilDeref" "deref (Some x) = ret x"
  by (simp_all add: deref_def)

datatype userid = UserId string

record user =
  UserIdOf :: "userid option"

record resource_id =
  StorageId :: string
  OpaqueId :: string
  SpaceId :: string

record reference =
  RefResourceId :: resource_id
  RefPath :: string

record storage_space =
  SpaceOpaqueId :: string
  SpaceName :: string
  SpaceMtime :: "64 word option"

datatype resource_type = RESOURCE_TYPE_FILE | RESOURCE_TYPE_CONTAINER | RESOURCE_TYPE_OTHER nat

record resource_info =
  InfoName :: string
  InfoPath :: string
  InfoSize :: "64 word"
  InfoType :: resource_type
  InfoMtime :: "64 word option"

datatype space_filter = FilterSpaceType string | FilterOwner "userid option"

record list_spaces_req =
  FieldMaskPaths :: "string list"
  Filters :: "space_filter list"

record list_spaces_res =
  SpacesStatus :: "status option"
  StorageSpaces :: "storage_space list"

record stat_res =
  StatStatus :: "status option"
  StatInfo :: "resource_info option"

record list_container_res =
  ListStatus :: "status option"
  ListInfos :: "resource_info list"

record transfer_protocol =
  Protocol :: string
  Endpoint :: string
  TransferToken :: string

record transfer_res =
  TransferStatus :: "status option"
  Protocols :: "transfer_protocol list"

text \<open>Opaque is a map from keys to a decoder name and a value.\<close>

record upload_req =
  UploadRef :: reference
  UploadOpaque :: "(string \<times> string \<times> string) list"
  IfMatch :: "string option"

record auth_req =
  AuthType :: string
  ClientId :: string
  ClientSecret :: string

record auth_res =
  AuthStatus :: "status option"
  AuthUser :: "user option"
  AuthToken :: string

record http_request =
  HttpMethod :: string
  HttpURL :: string
  HttpHeader :: "(string \<times> string) list"
  HttpBody :: "byte list"
  HttpContentLength :: int

text \<open>
  Reading the body yields \<open>HttpResBody\<close> and then the end or an error; \<open>HttpETag\<close> is
  Header.Get("ETag").
\<close>

record http_response =
  HttpStatusCode :: int
  HttpETag :: string
  HttpResBody :: "byte list"
  HttpResBodyErr :: "go_error option"

datatype public_key = PublicKey "byte list"

text \<open>An ssh.Signer is known by its public key.\<close>

datatype signer = Signer public_key

subsection \<open>Events\<close>

datatype 'c event =
    EvNext "go_error option"
  | EvAuthenticate 'c auth_req "go_error + auth_res"
  | EvListStorageSpaces 'c list_spaces_req "go_error + list_spaces_res"
  | EvStat 'c reference "go_error + stat_res"
  | EvListContainer 'c reference "go_error + list_container_res"
  | EvCreateContainer 'c reference "go_error + status option"
  | EvTouchFile 'c reference "go_error + status option"
  | EvMove 'c "reference \<times> reference" "go_error + status option"
  | EvDelete 'c reference "go_error + status option"
  | EvInitiateFileDownload 'c reference "go_error + transfer_res"
  | EvInitiateFileUpload 'c upload_req "go_error + transfer_res"
  | EvHttp http_request "go_error + http_response"

text \<open>The context a gateway call carries, and the references it names.\<close>

fun ev_ctx :: "'c event \<Rightarrow> 'c option" where
  "ev_ctx (EvNext _) = None"
| "ev_ctx (EvAuthenticate c _ _) = Some c"
| "ev_ctx (EvListStorageSpaces c _ _) = Some c"
| "ev_ctx (EvStat c _ _) = Some c"
| "ev_ctx (EvListContainer c _ _) = Some c"
| "ev_ctx (EvCreateContainer c _ _) = Some c"
| "ev_ctx (EvTouchFile c _ _) = Some c"
| "ev_ctx (EvMove c _ _) = Some c"
| "ev_ctx (EvDelete c _ _) = Some c"
| "ev_ctx (EvInitiateFileDownload c _ _) = Some c"
| "ev_ctx (EvInitiateFileUpload c _ _) = Some c"
| "ev_ctx (EvHttp _ _) = None"

fun ev_refs :: "'c event \<Rightarrow> reference list" where
  "ev_refs (EvStat _ r _) = [r]"
| "ev_refs (EvListContainer _ r _) = [r]"
| "ev_refs (EvCreateContainer _ r _) = [r]"
| "ev_refs (EvTouchFile _ r _) = [r]"
| "ev_refs (EvMove _ (r, r') _) = [r, r']"
| "ev_refs (EvDelete _ r _) = [r]"
| "ev_refs (EvInitiateFileDownload _ r _) = [r]"
| "ev_refs (EvInitiateFileUpload _ q _) = [UploadRef q]"
| "ev_refs _ = []"

text \<open>The calls that can change what is stored.\<close>

fun ev_mutates :: "'c event \<Rightarrow> bool" where
  "ev_mutates (EvCreateContainer _ _ _) = True"
| "ev_mutates (EvTouchFile _ _ _) = True"
| "ev_mutates (EvMove _ _ _) = True"
| "ev_mutates (EvDelete _ _ _) = True"
| "ev_mutates (EvInitiateFileUpload _ _ _) = True"
| "ev_mutates (EvHttp q _) = (HttpMethod q \<noteq> ''GET'')"
| "ev_mutates _ = False"

subsection \<open>The libraries\<close>

type_synonym ('w, 'c, 'q, 'r) rpc = "'c \<Rightarrow> 'q \<Rightarrow> 'w \<Rightarrow> (go_error + 'r) \<times> 'w"

text \<open>
  The gateway client behind pool.Selector. \<open>gw_Next\<close> is Selector.Next; the client it
  returns is a connection to the gateway, and the model does not tell connections apart.
\<close>

record ('w, 'c) gateway =
  gw_Next :: "'w \<Rightarrow> go_error option \<times> 'w"
  gw_Authenticate :: "('w, 'c, auth_req, auth_res) rpc"
  gw_ListStorageSpaces :: "('w, 'c, list_spaces_req, list_spaces_res) rpc"
  gw_Stat :: "('w, 'c, reference, stat_res) rpc"
  gw_ListContainer :: "('w, 'c, reference, list_container_res) rpc"
  gw_CreateContainer :: "('w, 'c, reference, status option) rpc"
  gw_TouchFile :: "('w, 'c, reference, status option) rpc"
  gw_Move :: "('w, 'c, reference \<times> reference, status option) rpc"
  gw_Delete :: "('w, 'c, reference, status option) rpc"
  gw_InitiateFileDownload :: "('w, 'c, reference, transfer_res) rpc"
  gw_InitiateFileUpload :: "('w, 'c, upload_req, transfer_res) rpc"

text \<open>net/http: whether a request can be built for a method and an URL, and Client.Do.\<close>

record 'w httplib =
  http_NewRequest :: "string \<Rightarrow> string \<Rightarrow> go_error option"
  http_Do :: "http_request \<Rightarrow> 'w \<Rightarrow> (go_error + http_response) \<times> 'w"

text \<open>context, google.golang.org/grpc/metadata and reva's pkg/ctx.\<close>

record 'c ctxlib =
  Background :: 'c
  ContextSetUser :: "'c \<Rightarrow> user \<Rightarrow> 'c"
  ContextGetUser :: "'c \<Rightarrow> user option"
  ContextSetToken :: "'c \<Rightarrow> string \<Rightarrow> 'c"
  ContextGetToken :: "'c \<Rightarrow> string option"
  AppendToOutgoingContext :: "'c \<Rightarrow> string \<Rightarrow> string \<Rightarrow> 'c"
  FromOutgoingContext :: "'c \<Rightarrow> (string \<Rightarrow> string list) option"
  TokenHeader :: string

text \<open>reva's storagespace.ParseID, utils.MakeRelativePath and the shares-space constants.\<close>

record revalib =
  ParseID :: "string \<Rightarrow> go_error + resource_id"
  MakeRelativePath :: "string \<Rightarrow> string"
  ShareStorageSpaceID :: string
  ShareStorageProviderID :: string

text \<open>
  golang.org/x/crypto/ssh.ParseAuthorizedKey and ParsePrivateKey, and gliderlabs/ssh.KeysEqual.
\<close>

record sshlib =
  ParsePrivateKey :: "byte list \<Rightarrow> go_error + signer"
  ParseAuthorizedKey :: "byte list \<Rightarrow> go_error + public_key"
  KeysEqual :: "public_key \<Rightarrow> public_key \<Rightarrow> bool"

text \<open>github.com/pkg/sftp: the open flags that Request.Pflags decodes from the flag word.\<close>

record open_flags =
  PfRead :: bool
  PfWrite :: bool
  PfAppend :: bool
  PfCreat :: bool
  PfTrunc :: bool
  PfExcl :: bool

record sftplib =
  newFileOpenFlags :: "32 word \<Rightarrow> open_flags"

text \<open>\<open>E_max_alloc\<close> is the largest slice the Go runtime allocates.\<close>

record ('w, 'c) env =
  E_gw :: "('w, 'c) gateway"
  E_http :: "'w httplib"
  E_ctx :: "'c ctxlib"
  E_reva :: revalib
  E_ssh :: sshlib
  E_sftp :: sftplib
  E_max_alloc :: int

subsection \<open>Calls\<close>

definition rpc_call ::
    "('w, 'c, 'q, 'r) rpc \<Rightarrow> ('c \<Rightarrow> 'q \<Rightarrow> go_error + 'r \<Rightarrow> 'c event) \<Rightarrow> 'c \<Rightarrow> 'q \<Rightarrow> ('w, 'c event, 'r) go" where
  "rpc_call f ev c q = (\<lambda>w. case f c q w of (resp, w') \<Rightarrow> (result_of_sum resp, [ev c q resp], w'))"

definition call_Next :: "('w, 'c) env \<Rightarrow> ('w, 'c event, unit) go" where
  "call_Next X = (\<lambda>w. case gw_Next (E_gw X) w of
      (None, w') \<Rightarrow> (Ok (), [EvNext None], w')
    | (Some e, w') \<Rightarrow> (Err e, [EvNext (Some e)], w'))"

definition call_Do :: "('w, 'c) env \<Rightarrow> http_request \<Rightarrow> ('w, 'c event, http_response) go" where
  "call_Do X q = (\<lambda>w. case http_Do (E_http X) q w of
      (resp, w') \<Rightarrow> (result_of_sum resp, [EvHttp q resp], w'))"

text \<open>http.NewRequest(method, url, body): an error, or a request with no header.\<close>

definition NewRequest :: "('w, 'c) env \<Rightarrow> string \<Rightarrow> string \<Rightarrow> byte list \<Rightarrow> http_request result" where
  "NewRequest X meth url body = (case http_NewRequest (E_http X) meth url of
      Some e \<Rightarrow> Err e
    | None \<Rightarrow> Ok \<lparr>HttpMethod = meth, HttpURL = url, HttpHeader = [], HttpBody = body,
                 HttpContentLength = int (length body)\<rparr>)"

definition add_header :: "string \<Rightarrow> string \<Rightarrow> http_request \<Rightarrow> http_request" where
  "add_header k v q = q\<lparr>HttpHeader := HttpHeader q @ [(k, v)]\<rparr>"

text \<open>
  io.ReadAll on a response's body: the bytes read and the error; it panics when the body is
  larger than the runtime can hold.
\<close>

definition ReadAll :: "('w, 'c) env \<Rightarrow> http_response \<Rightarrow> (byte list \<times> go_error option) result" where
  "ReadAll X resp =
     (if int (length (HttpResBody resp)) \<le> E_max_alloc X
      then Ok (HttpResBody resp, HttpResBodyErr resp) else Abort MakeSlice)"

lemma add_header_simps [simp]:
  "HttpMethod (add_header k v q) = HttpMethod q"
  "HttpURL (add_header k v q) = HttpURL q"
  "HttpBody (add_header k v q) = HttpBody q"
  "HttpContentLength (add_header k v q) = HttpContentLength q"
  "HttpHeader (add_header k v q) = HttpHeader q @ [(k, v)]"
  by (simp_all add: add_header_def)

lemma NewRequest_Ok [simp]:
  "NewRequest X m u b = Ok q \<longleftrightarrow> http_NewRequest (E_http X) m u = None \<and>
     q = \<lparr>HttpMethod = m, HttpURL = u, HttpHeader = [], HttpBody = b,
          HttpContentLength = int (length b)\<rparr>"
  by (auto simp: NewRequest_def split: option.splits)

lemma NewRequest_no_abort [simp]: "NewRequest X m u b \<noteq> Abort a"
  by (simp add: NewRequest_def split: option.splits)

lemma wp_rpc_call [wp_rules]:
  "wp (rpc_call f ev c q) Q w =
     (case f c q w of (resp, w') \<Rightarrow> Q (result_of_sum resp) [ev c q resp] w')"
  by (simp add: wp_def rpc_call_def split: prod.splits)

lemma wp_call_Next [wp_rules]:
  "wp (call_Next X) Q w = (case gw_Next (E_gw X) w of
      (None, w') \<Rightarrow> Q (Ok ()) [EvNext None] w'
    | (Some e, w') \<Rightarrow> Q (Err e) [EvNext (Some e)] w')"
  by (simp add: wp_def call_Next_def split: prod.splits option.splits)

lemma wp_call_Do [wp_rules]:
  "wp (call_Do X q) Q w = (case http_Do (E_http X) q w of
      (resp, w') \<Rightarrow> Q (result_of_sum resp) [EvHttp q resp] w')"
  by (simp add: wp_def call_Do_def split: prod.splits)

lemma emits_rpc_call [emit_rules]:
  "(\<And>resp. P (ev c q resp)) \<Longrightarrow> emits P (rpc_call f ev c q)"
  by (auto simp: emits_def wp_rules split: prod.splits)

lemma emits_call_Next [emit_rules]: "(\<And>e. P (EvNext e)) \<Longrightarrow> emits P (call_Next X)"
  by (auto simp: emits_def wp_rules split: prod.splits option.splits)

lemma emits_call_Do [emit_rules]: "(\<And>resp. P (EvHttp q resp)) \<Longrightarrow> emits P (call_Do X q)"
  by (auto simp: emits_def wp_rules split: prod.splits)

lemma emits_deref [emit_rules]: "emits P (deref p)"
  by (cases p) (simp_all add: emit_rules)

lemma emits_case_code [emit_rules]:
  "emits P a \<Longrightarrow> emits P b \<Longrightarrow> emits P c \<Longrightarrow> emits P d \<Longrightarrow> (\<And>n. emits P (e n)) \<Longrightarrow>
   emits P (case x of CODE_OK \<Rightarrow> a | CODE_NOT_FOUND \<Rightarrow> b | CODE_ALREADY_EXISTS \<Rightarrow> c
            | CODE_PERMISSION_DENIED \<Rightarrow> d | CODE_OTHER n \<Rightarrow> e n)"
  by (cases x) simp_all

end
