(* ===== verification/Keygen.thy ===== *)
theory Keygen
  imports Externals
begin

text \<open>
  pkg/keygen/keygen.go: generating an SSH key pair. The cryptographic libraries are a
  parameter: what the generators draw from the random source is part of it.
\<close>

record key_pair =
  KP_PrivateKey :: "byte list"
  KP_PublicKey :: "byte list"

text \<open>KeyType is a string type with two named values.\<close>

definition KeyTypeEd25519 :: string where "KeyTypeEd25519 = ''ed25519''"
definition KeyTypeRSA :: string where "KeyTypeRSA = ''rsa''"

text \<open>\<open>'k\<close> are the private keys and \<open>'p\<close> the public keys of the crypto packages.\<close>

record ('k, 'p) cryptolib =
  ed25519_GenerateKey :: "go_error + 'p \<times> 'k"
  rsa_GenerateKey :: "nat \<Rightarrow> go_error + 'k"
  rsa_PublicKey :: "'k \<Rightarrow> 'p"
  ssh_NewPublicKey :: "'p \<Rightarrow> go_error + public_key"
  MarshalPKCS8PrivateKey :: "'k \<Rightarrow> go_error + byte list"
  pem_EncodeToMemory :: "string \<Rightarrow> byte list \<Rightarrow> byte list"
  MarshalAuthorizedKey :: "public_key \<Rightarrow> byte list"

text \<open>The switch over the key type: the private key and its public key.\<close>

definition generate_keys :: "('k, 'p) cryptolib \<Rightarrow> string \<Rightarrow> ('k \<times> public_key) result" where
  "generate_keys K keyType =
     (if keyType = KeyTypeEd25519 then
        (case ed25519_GenerateKey K of
           Inl err \<Rightarrow> Err err
         | Inr (pub, priv) \<Rightarrow>
             (case ssh_NewPublicKey K pub of Inl err \<Rightarrow> Err err | Inr publicKey \<Rightarrow> Ok (priv, publicKey)))
      else if keyType = KeyTypeRSA then
        (case rsa_GenerateKey K 4096 of
           Inl err \<Rightarrow> Err err
         | Inr priv \<Rightarrow>
             (case ssh_NewPublicKey K (rsa_PublicKey K priv) of
                Inl err \<Rightarrow> Err err | Inr publicKey \<Rightarrow> Ok (priv, publicKey)))
      else Err (New ''unsupported key type''))"

definition GenerateSSHKeyPair :: "('k, 'p) cryptolib \<Rightarrow> string \<Rightarrow> key_pair result" where
  "GenerateSSHKeyPair K keyType = (case generate_keys K keyType of
      Err err \<Rightarrow> Err err
    | Abort a \<Rightarrow> Abort a
    | Ok (privateKey, publicKey) \<Rightarrow>
        (case MarshalPKCS8PrivateKey K privateKey of
           Inl err \<Rightarrow> Err err
         | Inr privateKeyBytes \<Rightarrow>
             Ok \<lparr>KP_PrivateKey = pem_EncodeToMemory K ''PRIVATE KEY'' privateKeyBytes,
                 KP_PublicKey = MarshalAuthorizedKey K publicKey\<rparr>))"

text \<open>
  What the formats promise: a PKCS #8 key in a PEM block "PRIVATE KEY" parses to the signer
  of that key, and an authorized-keys line parses to the key it was made of. \<open>pub_of\<close> is the
  public key that belongs to a private key; both generators give matching pairs.
\<close>

definition key_formats :: "sshlib \<Rightarrow> ('k, 'p) cryptolib \<Rightarrow> ('k \<Rightarrow> public_key) \<Rightarrow> bool" where
  "key_formats S K pub_of \<longleftrightarrow>
     (\<forall>priv der. MarshalPKCS8PrivateKey K priv = Inr der \<longrightarrow>
        ParsePrivateKey S (pem_EncodeToMemory K ''PRIVATE KEY'' der) = Inr (Signer (pub_of priv))) \<and>
     (\<forall>k. ParseAuthorizedKey S (MarshalAuthorizedKey K k) = Inr k) \<and>
     (\<forall>pub priv k. ed25519_GenerateKey K = Inr (pub, priv) \<longrightarrow> ssh_NewPublicKey K pub = Inr k \<longrightarrow> pub_of priv = k) \<and>
     (\<forall>priv k. ssh_NewPublicKey K (rsa_PublicKey K priv) = Inr k \<longrightarrow> pub_of priv = k)"

lemma generate_keys_match:
  assumes "key_formats S K pub_of" "generate_keys K t = Ok (priv, k)"
  shows "pub_of priv = k"
  using assms by (auto simp: generate_keys_def key_formats_def split: if_splits sum.splits prod.splits)

lemma generate_keys_no_abort: "generate_keys K t \<noteq> Abort a"
  by (simp add: generate_keys_def split: sum.split prod.split)

lemma generated_pair:
  assumes "key_formats S K pub_of" "GenerateSSHKeyPair K keyType = Ok kp"
  shows "keyType \<in> {KeyTypeEd25519, KeyTypeRSA} \<and>
     (\<exists>k. ParsePrivateKey S (KP_PrivateKey kp) = Inr (Signer k) \<and> ParseAuthorizedKey S (KP_PublicKey kp) = Inr k)"
proof -
  obtain priv k der where g: "generate_keys K keyType = Ok (priv, k)" and d: "MarshalPKCS8PrivateKey K priv = Inr der"
    and kp: "kp = \<lparr>KP_PrivateKey = pem_EncodeToMemory K ''PRIVATE KEY'' der, KP_PublicKey = MarshalAuthorizedKey K k\<rparr>"
    using assms(2) by (auto simp: GenerateSSHKeyPair_def split: result.splits sum.splits prod.splits)
  have "keyType \<in> {KeyTypeEd25519, KeyTypeRSA}"
    using g by (auto simp: generate_keys_def split: if_splits)
  moreover have "pub_of priv = k" using generate_keys_match [OF assms(1) g] .
  ultimately show ?thesis
    using assms(1) d kp by (auto simp: key_formats_def)
qed

text \<open>
  C27: a generated key pair belongs together, and nothing else is generated. For either key
  type, when a pair is returned its private-key file parses as the signer of exactly the key
  that its public-key file parses as (given what the file formats promise, \<open>key_formats\<close>). The
  call fails with the error of the first library call that fails: of the generator of
  the type asked for (4096 bits for RSA), of making the SSH public key, or of marshalling
  the private key; when none fails it returns a pair. Any other key type is refused.
\<close>

theorem key_pair_matches:
  assumes "key_formats S K pub_of"
  shows "(\<forall>kp. GenerateSSHKeyPair K keyType = Ok kp \<longrightarrow> keyType \<in> {KeyTypeEd25519, KeyTypeRSA} \<and>
       (\<exists>k. ParsePrivateKey S (KP_PrivateKey kp) = Inr (Signer k) \<and> ParseAuthorizedKey S (KP_PublicKey kp) = Inr k)) \<and>
     (keyType \<notin> {KeyTypeEd25519, KeyTypeRSA} \<longrightarrow> (\<exists>e. GenerateSSHKeyPair K keyType = Err e)) \<and>
     (keyType = KeyTypeEd25519 \<longrightarrow> (case ed25519_GenerateKey K of
        Inl e \<Rightarrow> GenerateSSHKeyPair K keyType = Err e
      | Inr (pub, priv) \<Rightarrow> (case (ssh_NewPublicKey K pub, MarshalPKCS8PrivateKey K priv) of
          (Inl e, _) \<Rightarrow> GenerateSSHKeyPair K keyType = Err e
        | (Inr _, Inl e) \<Rightarrow> GenerateSSHKeyPair K keyType = Err e
        | (Inr _, Inr _) \<Rightarrow> (\<exists>kp. GenerateSSHKeyPair K keyType = Ok kp)))) \<and>
     (keyType = KeyTypeRSA \<longrightarrow> (case rsa_GenerateKey K 4096 of
        Inl e \<Rightarrow> GenerateSSHKeyPair K keyType = Err e
      | Inr priv \<Rightarrow> (case (ssh_NewPublicKey K (rsa_PublicKey K priv), MarshalPKCS8PrivateKey K priv) of
          (Inl e, _) \<Rightarrow> GenerateSSHKeyPair K keyType = Err e
        | (Inr _, Inl e) \<Rightarrow> GenerateSSHKeyPair K keyType = Err e
        | (Inr _, Inr _) \<Rightarrow> (\<exists>kp. GenerateSSHKeyPair K keyType = Ok kp))))"
proof (intro conjI)
  show "\<forall>kp. GenerateSSHKeyPair K keyType = Ok kp \<longrightarrow> keyType \<in> {KeyTypeEd25519, KeyTypeRSA} \<and>
       (\<exists>k. ParsePrivateKey S (KP_PrivateKey kp) = Inr (Signer k) \<and> ParseAuthorizedKey S (KP_PublicKey kp) = Inr k)"
    using generated_pair [OF assms] by blast
qed (auto simp: GenerateSSHKeyPair_def generate_keys_def KeyTypeEd25519_def KeyTypeRSA_def split: sum.split prod.split)

text \<open>Sample libraries whose keys are numbers.\<close>

definition sample_crypto :: "(nat, nat) cryptolib" where
  "sample_crypto = \<lparr>ed25519_GenerateKey = Inr (7, 7), rsa_GenerateKey = (\<lambda>bits. Inr 9), rsa_PublicKey = (\<lambda>k. k),
     ssh_NewPublicKey = (\<lambda>p. Inr (PublicKey [of_nat p])), MarshalPKCS8PrivateKey = (\<lambda>k. Inr [of_nat k]),
     pem_EncodeToMemory = (\<lambda>t b. 0 # b), MarshalAuthorizedKey = (\<lambda>k. case k of PublicKey b \<Rightarrow> 1 # b)\<rparr>"

definition sample_ssh :: sshlib where
  "sample_ssh = \<lparr>ParsePrivateKey = (\<lambda>b. case b of x # k \<Rightarrow> if x = 0 then Inr (Signer (PublicKey k)) else Inl (Ext ''no key'')
       | [] \<Rightarrow> Inl (Ext ''no key'')),
     ParseAuthorizedKey = (\<lambda>b. case b of x # k \<Rightarrow> if x = 1 then Inr (PublicKey k) else Inl (Ext ''no key'')
       | [] \<Rightarrow> Inl (Ext ''no key'')),
     KeysEqual = (=)\<rparr>"

lemma sample_key_formats: "key_formats sample_ssh sample_crypto (\<lambda>k. PublicKey [of_nat k])"
  by (auto simp: key_formats_def sample_ssh_def sample_crypto_def split: public_key.split)

theorem key_pair_matches_witness:
  "\<exists>k. ParsePrivateKey sample_ssh [0, 9] = Inr (Signer k) \<and> ParseAuthorizedKey sample_ssh [1, 9] = Inr k"
proof -
  have "GenerateSSHKeyPair sample_crypto KeyTypeRSA = Ok \<lparr>KP_PrivateKey = [0, 9], KP_PublicKey = [1, 9]\<rparr>"
    by (simp add: GenerateSSHKeyPair_def generate_keys_def sample_crypto_def KeyTypeRSA_def KeyTypeEd25519_def)
  with key_pair_matches [OF sample_key_formats, of KeyTypeRSA] show ?thesis by fastforce
qed

end
