(* ===== verification/Config.thy ===== *)
theory Config
  imports Go_Lib
begin

text \<open>
  pkg/config: the configuration of the service, its defaults (defaults/defaultconfig.go) and
  how it is read and validated (parser/parse.go). OpenCloud's shared configuration package
  is a parameter: the record \<open>oclib\<close>.
\<close>

subsection \<open>Data\<close>

record log_config =
  Level :: string
  Pretty :: bool
  Color :: bool
  File :: string

record tracing_config =
  Enabled :: bool
  Type :: string
  TrEndpoint :: string
  Collector :: string

record token_manager =
  JWTSecret :: string

text \<open>shared.Reva; only its address is read here.\<close>

record reva_config =
  Address :: string

record service_config =
  Name :: string

record debug_config =
  Addr :: string
  Token :: string
  Pprof :: bool
  Zpages :: bool

record status_config =
  Version :: string
  VersionString :: string
  Product :: string
  ProductName :: string
  ProductVersion :: string
  Edition :: string

text \<open>The fields of shared.Commons the code reads.\<close>

record commons =
  CommonsLog :: "log_config option"
  CommonsTracing :: "tracing_config option"
  CommonsReva :: "reva_config option"
  CommonsTokenManager :: "token_manager option"
  CommonsMachineAuthAPIKey :: string

text \<open>Config without the context of the process; a pointer field is an \<open>option\<close>.\<close>

record config =
  Commons :: "commons option"
  Service :: service_config
  Tracing :: "tracing_config option"
  Log :: "log_config option"
  Debug :: debug_config
  SFTPAddress :: string
  HostPrivateKeyPath :: string
  TokenManager :: "token_manager option"
  Reva :: "reva_config option"
  SkipUserGroupsInToken :: bool
  Insecure :: bool
  Timeout :: int
  MachineAuthAPIKey :: string
  Status :: status_config
  AllowPropfindDepthInfinity :: bool
  GatewaySelector :: string

text \<open>
  OpenCloud's packages: base paths, versions, the shared defaults, and the three readers of
  ParseConfig, which work on the configuration they are given. \<open>ReadCommons\<close> is
  ocparse.ParseConfig on a fresh shared configuration, with the commons it leaves there.
\<close>

record oclib =
  BaseDataPath :: string
  BaseConfigPath :: string
  Legacy :: string
  LegacyString :: string
  GetString :: string
  DefaultRevaConfig :: "reva_config option"
  CopyOrZeroValue :: "reva_config option \<Rightarrow> reva_config option"
  ReadCommons :: "go_error + commons option"
  BindSourcesToStructs :: "string \<Rightarrow> config \<Rightarrow> go_error option \<times> config"
  EnvDecode :: "config \<Rightarrow> go_error option \<times> config"
  ErrNoTargetFieldsAreSet :: go_error
  MissingJWTTokenError :: "string \<Rightarrow> go_error"
  MissingMachineAuthApiKeyError :: "string \<Rightarrow> go_error"

text \<open>Tracing.Convert, to the record of OpenCloud's tracing package.\<close>

record oc_tracing =
  OcEnabled :: bool
  OcType :: string
  OcEndpoint :: string
  OcCollector :: string

definition Convert :: "tracing_config \<Rightarrow> oc_tracing" where
  "Convert t = \<lparr>OcEnabled = Enabled t, OcType = Type t, OcEndpoint = TrEndpoint t, OcCollector = Collector t\<rparr>"

subsection \<open>Defaults\<close>

definition zero_config :: config where
  "zero_config = \<lparr>Commons = None, Service = \<lparr>Name = []\<rparr>, Tracing = None, Log = None,
     Debug = \<lparr>Addr = [], Token = [], Pprof = False, Zpages = False\<rparr>,
     SFTPAddress = [], HostPrivateKeyPath = [], TokenManager = None, Reva = None,
     SkipUserGroupsInToken = False, Insecure = False, Timeout = 0, MachineAuthAPIKey = [],
     Status = \<lparr>Version = [], VersionString = [], Product = [], ProductName = [],
               ProductVersion = [], Edition = []\<rparr>,
     AllowPropfindDepthInfinity = False, GatewaySelector = []\<rparr>"

definition DefaultConfig :: "oclib \<Rightarrow> config" where
  "DefaultConfig L = zero_config
     \<lparr>Service := \<lparr>Name = ''sftp''\<rparr>,
      SFTPAddress := ''127.0.1:2222'',
      HostPrivateKeyPath := path_Join [BaseDataPath L, ''sftp'', ''id_rsa''],
      Reva := DefaultRevaConfig L,
      MachineAuthAPIKey := [],
      Status := \<lparr>Version = Legacy L, VersionString = LegacyString L, Product = ''OpenCloud'',
                 ProductName = ''OpenCloud'', ProductVersion = GetString L, Edition = []\<rparr>\<rparr>"

text \<open>The five blocks of EnsureDefaults, in order. A pointer to a zero struct is \<open>Some\<close> of it.\<close>

definition ensure_log :: "config \<Rightarrow> config" where
  "ensure_log cfg = (case Log cfg of
      Some _ \<Rightarrow> cfg
    | None \<Rightarrow> (case Commons cfg of
        Some c \<Rightarrow> (case CommonsLog c of
            Some lg \<Rightarrow> cfg\<lparr>Log := Some \<lparr>Level = Level lg, Pretty = Pretty lg, Color = Color lg, File = File lg\<rparr>\<rparr>
          | None \<Rightarrow> cfg\<lparr>Log := Some \<lparr>Level = [], Pretty = False, Color = False, File = []\<rparr>\<rparr>)
      | None \<Rightarrow> cfg\<lparr>Log := Some \<lparr>Level = [], Pretty = False, Color = False, File = []\<rparr>\<rparr>))"

definition ensure_tracing :: "config \<Rightarrow> config" where
  "ensure_tracing cfg = (case Tracing cfg of
      Some _ \<Rightarrow> cfg
    | None \<Rightarrow> (case Commons cfg of
        Some c \<Rightarrow> (case CommonsTracing c of
            Some t \<Rightarrow> cfg\<lparr>Tracing := Some \<lparr>Enabled = Enabled t, Type = Type t,
                                TrEndpoint = TrEndpoint t, Collector = Collector t\<rparr>\<rparr>
          | None \<Rightarrow> cfg\<lparr>Tracing := Some \<lparr>Enabled = False, Type = [], TrEndpoint = [], Collector = []\<rparr>\<rparr>)
      | None \<Rightarrow> cfg\<lparr>Tracing := Some \<lparr>Enabled = False, Type = [], TrEndpoint = [], Collector = []\<rparr>\<rparr>))"

definition ensure_reva :: "oclib \<Rightarrow> config \<Rightarrow> config" where
  "ensure_reva L cfg = (case (Reva cfg, Commons cfg) of
      (None, Some c) \<Rightarrow> cfg\<lparr>Reva := CopyOrZeroValue L (CommonsReva c)\<rparr>
    | _ \<Rightarrow> cfg)"

definition ensure_token_manager :: "config \<Rightarrow> config" where
  "ensure_token_manager cfg = (case TokenManager cfg of
      Some _ \<Rightarrow> cfg
    | None \<Rightarrow> (case Commons cfg of
        Some c \<Rightarrow> (case CommonsTokenManager c of
            Some t \<Rightarrow> cfg\<lparr>TokenManager := Some \<lparr>JWTSecret = JWTSecret t\<rparr>\<rparr>
          | None \<Rightarrow> cfg\<lparr>TokenManager := Some \<lparr>JWTSecret = []\<rparr>\<rparr>)
      | None \<Rightarrow> cfg\<lparr>TokenManager := Some \<lparr>JWTSecret = []\<rparr>\<rparr>))"

definition ensure_api_key :: "config \<Rightarrow> config" where
  "ensure_api_key cfg = (case Commons cfg of
      Some c \<Rightarrow>
        if MachineAuthAPIKey cfg = [] \<and> CommonsMachineAuthAPIKey c \<noteq> []
        then cfg\<lparr>MachineAuthAPIKey := CommonsMachineAuthAPIKey c\<rparr> else cfg
    | None \<Rightarrow> cfg)"

definition EnsureDefaults :: "oclib \<Rightarrow> config \<Rightarrow> config" where
  "EnsureDefaults L cfg =
     ensure_api_key (ensure_token_manager (ensure_reva L (ensure_tracing (ensure_log cfg))))"

definition Sanitize :: "config \<Rightarrow> config" where
  "Sanitize cfg = cfg"

definition FullDefaultConfig :: "oclib \<Rightarrow> config" where
  "FullDefaultConfig L = Sanitize (EnsureDefaults L (DefaultConfig L))"

subsection \<open>Reading and validating\<close>

definition Validate :: "oclib \<Rightarrow> config \<Rightarrow> unit result" where
  "Validate L cfg = (case TokenManager cfg of
      None \<Rightarrow> Abort NilDeref
    | Some t \<Rightarrow>
        if JWTSecret t = [] then Err (MissingJWTTokenError L (Name (Service cfg)))
        else if MachineAuthAPIKey cfg = [] then Err (MissingMachineAuthApiKeyError L (Name (Service cfg)))
        else Ok ())"

text \<open>The outcome and the configuration as it is left.\<close>

definition ParseConfig :: "oclib \<Rightarrow> config \<Rightarrow> unit result \<times> config" where
  "ParseConfig L cfg = (case ReadCommons L of
      Inl err \<Rightarrow> (Err err, cfg)
    | Inr commons \<Rightarrow>
        (let cfg = EnsureDefaults L (cfg\<lparr>Commons := commons\<rparr>)
         in case BindSourcesToStructs L (Name (Service cfg)) cfg of
              (Some err, cfg) \<Rightarrow> (Err err, cfg)
            | (None, cfg) \<Rightarrow>
                (case EnvDecode L cfg of
                   (err, cfg) \<Rightarrow>
                     (case err of
                        Some e \<Rightarrow>
                          if \<not> errors_Is e (ErrNoTargetFieldsAreSet L) then (Err e, cfg)
                          else (Validate L (Sanitize cfg), Sanitize cfg)
                      | None \<Rightarrow> (Validate L (Sanitize cfg), Sanitize cfg)))))"

subsection \<open>Lemmas\<close>

text \<open>Each block sets its own field and leaves the others.\<close>

lemma ensure_log_fields [simp]:
  "Commons (ensure_log cfg) = Commons cfg"
  "Service (ensure_log cfg) = Service cfg"
  "Tracing (ensure_log cfg) = Tracing cfg"
  "SFTPAddress (ensure_log cfg) = SFTPAddress cfg"
  "HostPrivateKeyPath (ensure_log cfg) = HostPrivateKeyPath cfg"
  "TokenManager (ensure_log cfg) = TokenManager cfg"
  "Reva (ensure_log cfg) = Reva cfg"
  "MachineAuthAPIKey (ensure_log cfg) = MachineAuthAPIKey cfg"
  by (simp_all add: ensure_log_def split: option.split)

lemma ensure_tracing_fields [simp]:
  "Commons (ensure_tracing cfg) = Commons cfg"
  "Service (ensure_tracing cfg) = Service cfg"
  "Log (ensure_tracing cfg) = Log cfg"
  "SFTPAddress (ensure_tracing cfg) = SFTPAddress cfg"
  "HostPrivateKeyPath (ensure_tracing cfg) = HostPrivateKeyPath cfg"
  "TokenManager (ensure_tracing cfg) = TokenManager cfg"
  "Reva (ensure_tracing cfg) = Reva cfg"
  "MachineAuthAPIKey (ensure_tracing cfg) = MachineAuthAPIKey cfg"
  by (simp_all add: ensure_tracing_def split: option.split)

lemma ensure_reva_fields [simp]:
  "Commons (ensure_reva L cfg) = Commons cfg"
  "Service (ensure_reva L cfg) = Service cfg"
  "Tracing (ensure_reva L cfg) = Tracing cfg"
  "Log (ensure_reva L cfg) = Log cfg"
  "SFTPAddress (ensure_reva L cfg) = SFTPAddress cfg"
  "HostPrivateKeyPath (ensure_reva L cfg) = HostPrivateKeyPath cfg"
  "TokenManager (ensure_reva L cfg) = TokenManager cfg"
  "MachineAuthAPIKey (ensure_reva L cfg) = MachineAuthAPIKey cfg"
  by (simp_all add: ensure_reva_def split: option.split)

lemma ensure_token_manager_fields [simp]:
  "Commons (ensure_token_manager cfg) = Commons cfg"
  "Service (ensure_token_manager cfg) = Service cfg"
  "Tracing (ensure_token_manager cfg) = Tracing cfg"
  "Log (ensure_token_manager cfg) = Log cfg"
  "SFTPAddress (ensure_token_manager cfg) = SFTPAddress cfg"
  "HostPrivateKeyPath (ensure_token_manager cfg) = HostPrivateKeyPath cfg"
  "Reva (ensure_token_manager cfg) = Reva cfg"
  "MachineAuthAPIKey (ensure_token_manager cfg) = MachineAuthAPIKey cfg"
  by (simp_all add: ensure_token_manager_def split: option.split)

lemma ensure_api_key_fields [simp]:
  "Commons (ensure_api_key cfg) = Commons cfg"
  "Service (ensure_api_key cfg) = Service cfg"
  "Tracing (ensure_api_key cfg) = Tracing cfg"
  "Log (ensure_api_key cfg) = Log cfg"
  "SFTPAddress (ensure_api_key cfg) = SFTPAddress cfg"
  "HostPrivateKeyPath (ensure_api_key cfg) = HostPrivateKeyPath cfg"
  "TokenManager (ensure_api_key cfg) = TokenManager cfg"
  "Reva (ensure_api_key cfg) = Reva cfg"
  by (simp_all add: ensure_api_key_def split: option.split)

lemma ensure_fields [simp]:
  "Commons (EnsureDefaults L cfg) = Commons cfg" "Service (EnsureDefaults L cfg) = Service cfg"
  "SFTPAddress (EnsureDefaults L cfg) = SFTPAddress cfg"
  "HostPrivateKeyPath (EnsureDefaults L cfg) = HostPrivateKeyPath cfg"
  by (simp_all add: EnsureDefaults_def)

lemma ensure_Log: "Log (EnsureDefaults L cfg) = Some (case Log cfg of
      Some lg \<Rightarrow> lg
    | None \<Rightarrow> (case Commons cfg of Some c \<Rightarrow> (case CommonsLog c of Some lg \<Rightarrow> log_config.truncate lg
                                               | None \<Rightarrow> \<lparr>Level = [], Pretty = False, Color = False, File = []\<rparr>)
              | None \<Rightarrow> \<lparr>Level = [], Pretty = False, Color = False, File = []\<rparr>))"
  by (simp add: EnsureDefaults_def ensure_log_def log_config.truncate_def split: option.split)

lemma ensure_TokenManager: "TokenManager (EnsureDefaults L cfg) = Some (case TokenManager cfg of
      Some t \<Rightarrow> t
    | None \<Rightarrow> (case Commons cfg of Some c \<Rightarrow> (case CommonsTokenManager c of Some t \<Rightarrow> token_manager.truncate t
                                               | None \<Rightarrow> \<lparr>JWTSecret = []\<rparr>)
              | None \<Rightarrow> \<lparr>JWTSecret = []\<rparr>))"
  by (simp add: EnsureDefaults_def ensure_token_manager_def token_manager.truncate_def split: option.split)

lemma ensure_Tracing: "Tracing (EnsureDefaults L cfg) = Some (case Tracing cfg of
      Some t \<Rightarrow> t
    | None \<Rightarrow> (case Commons cfg of Some c \<Rightarrow> (case CommonsTracing c of Some t \<Rightarrow> tracing_config.truncate t
                     | None \<Rightarrow> \<lparr>Enabled = False, Type = [], TrEndpoint = [], Collector = []\<rparr>)
              | None \<Rightarrow> \<lparr>Enabled = False, Type = [], TrEndpoint = [], Collector = []\<rparr>))"
  by (simp add: EnsureDefaults_def ensure_tracing_def tracing_config.truncate_def split: option.split)

lemma ensure_MachineAuthAPIKey: "MachineAuthAPIKey (EnsureDefaults L cfg) =
    (if MachineAuthAPIKey cfg \<noteq> [] then MachineAuthAPIKey cfg
     else case Commons cfg of Some c \<Rightarrow> CommonsMachineAuthAPIKey c | None \<Rightarrow> [])"
  by (simp add: EnsureDefaults_def ensure_api_key_def split: option.split)

lemma ensure_Reva: "Reva (EnsureDefaults L cfg) = (case (Reva cfg, Commons cfg) of
      (None, Some c) \<Rightarrow> CopyOrZeroValue L (CommonsReva c) | _ \<Rightarrow> Reva cfg)"
  by (simp add: EnsureDefaults_def ensure_reva_def split: option.split)

lemma Validate_Ok: "Validate L cfg = Ok () \<longleftrightarrow>
    (\<exists>t. TokenManager cfg = Some t \<and> JWTSecret t \<noteq> []) \<and> MachineAuthAPIKey cfg \<noteq> []"
  by (auto simp: Validate_def split: option.split)

lemma ParseConfig_accepts:
  assumes "ParseConfig L cfg = (Ok (), cfg')"
  shows "(\<exists>t. TokenManager cfg' = Some t \<and> JWTSecret t \<noteq> []) \<and> MachineAuthAPIKey cfg' \<noteq> []"
proof -
  have "Validate L cfg' = Ok ()"
    using assms by (auto simp: ParseConfig_def Let_def Sanitize_def split: sum.splits prod.splits option.splits if_splits)
  then show ?thesis by (simp add: Validate_Ok)
qed

text \<open>The five blocks write five fields.\<close>

lemma ensure_only:
  "\<exists>v. ensure_log c = c\<lparr>Log := v\<rparr>" "\<exists>v. ensure_tracing c = c\<lparr>Tracing := v\<rparr>"
  "\<exists>v. ensure_reva L c = c\<lparr>Reva := v\<rparr>" "\<exists>v. ensure_token_manager c = c\<lparr>TokenManager := v\<rparr>"
  "\<exists>v. ensure_api_key c = c\<lparr>MachineAuthAPIKey := v\<rparr>"
  by (cases c; force simp: ensure_log_def ensure_tracing_def ensure_reva_def ensure_token_manager_def
      ensure_api_key_def split: option.split)+

lemma EnsureDefaults_only:
  "\<exists>lg tr rv tm key. EnsureDefaults L cfg =
     cfg\<lparr>Log := lg, Tracing := tr, Reva := rv, TokenManager := tm, MachineAuthAPIKey := key\<rparr>"
  unfolding EnsureDefaults_def
  using ensure_only(1) [of cfg] ensure_only(2) ensure_only(3) ensure_only(4) ensure_only(5) by metis

subsection \<open>Properties\<close>

text \<open>
  C29: EnsureDefaults fills gaps and touches nothing else. It changes at most log, tracing, reva, token
  manager and machine-auth key. Log, tracing and token manager keep a value that was set; one
  that was not becomes the shared one when there is one, and an empty struct otherwise. A
  missing reva becomes the shared one, or an empty struct, when there is a shared
  configuration, and stays missing without one; an empty machine-auth key becomes the shared
  one. Running it again changes nothing. The shared copy routine is assumed to copy a
  value and to make an empty one for nil.
\<close>

theorem ensure_defaults_fills_gaps:
  assumes "\<And>r. CopyOrZeroValue L r = Some (case r of Some v \<Rightarrow> v | None \<Rightarrow> \<lparr>Address = []\<rparr>)"
  shows "EnsureDefaults L (EnsureDefaults L cfg) = EnsureDefaults L cfg \<and>
     (\<exists>lg tr rv tm key. EnsureDefaults L cfg =
        cfg\<lparr>Log := lg, Tracing := tr, Reva := rv, TokenManager := tm, MachineAuthAPIKey := key\<rparr>) \<and>
     Log (EnsureDefaults L cfg) = Some (case Log cfg of Some lg \<Rightarrow> lg
        | None \<Rightarrow> (case Option.bind (Commons cfg) CommonsLog of Some lg \<Rightarrow> lg
          | None \<Rightarrow> \<lparr>Level = [], Pretty = False, Color = False, File = []\<rparr>)) \<and>
     Tracing (EnsureDefaults L cfg) = Some (case Tracing cfg of Some t \<Rightarrow> t
        | None \<Rightarrow> (case Option.bind (Commons cfg) CommonsTracing of Some t \<Rightarrow> t
          | None \<Rightarrow> \<lparr>Enabled = False, Type = [], TrEndpoint = [], Collector = []\<rparr>)) \<and>
     TokenManager (EnsureDefaults L cfg) = Some (case TokenManager cfg of Some t \<Rightarrow> t
        | None \<Rightarrow> (case Option.bind (Commons cfg) CommonsTokenManager of Some t \<Rightarrow> t
          | None \<Rightarrow> \<lparr>JWTSecret = []\<rparr>)) \<and>
     Reva (EnsureDefaults L cfg) = (case Reva cfg of Some r \<Rightarrow> Some r
        | None \<Rightarrow> (case Commons cfg of None \<Rightarrow> None
          | Some c \<Rightarrow> Some (case CommonsReva c of Some r \<Rightarrow> r | None \<Rightarrow> \<lparr>Address = []\<rparr>))) \<and>
     MachineAuthAPIKey (EnsureDefaults L cfg) = (if MachineAuthAPIKey cfg \<noteq> [] then MachineAuthAPIKey cfg
        else case Commons cfg of None \<Rightarrow> [] | Some c \<Rightarrow> CommonsMachineAuthAPIKey c)"
proof (intro conjI)
  let ?c = "EnsureDefaults L cfg"
  have "ensure_log ?c = ?c" "ensure_tracing ?c = ?c" "ensure_token_manager ?c = ?c"
    by (simp_all add: ensure_log_def ensure_tracing_def ensure_token_manager_def
        ensure_Log ensure_Tracing ensure_TokenManager)
  moreover have "ensure_reva L ?c = ?c"
    using assms by (auto simp: ensure_reva_def ensure_Reva split: option.split)
  moreover have "ensure_api_key ?c = ?c"
    by (simp add: ensure_api_key_def ensure_MachineAuthAPIKey split: option.split)
  ultimately show "EnsureDefaults L ?c = ?c"
    by (subst EnsureDefaults_def) simp
  show "\<exists>lg tr rv tm key. ?c = cfg\<lparr>Log := lg, Tracing := tr, Reva := rv, TokenManager := tm, MachineAuthAPIKey := key\<rparr>"
    by (rule EnsureDefaults_only)
qed (auto simp: ensure_Log ensure_Tracing ensure_TokenManager ensure_Reva ensure_MachineAuthAPIKey
    log_config.truncate_def tracing_config.truncate_def token_manager.truncate_def assms split: option.split)

text \<open>A sample of the shared packages: no shared file, and readers that find nothing.\<close>

definition sample_oc :: oclib where
  "sample_oc = \<lparr>BaseDataPath = ''/var/lib/opencloud'', BaseConfigPath = ''/etc/opencloud'',
     Legacy = ''1'', LegacyString = ''1.0'', GetString = ''1.0.0'',
     DefaultRevaConfig = Some \<lparr>Address = ''eu.opencloud.api.gateway''\<rparr>,
     CopyOrZeroValue = (\<lambda>r. Some (case r of None \<Rightarrow> \<lparr>Address = []\<rparr> | Some r \<Rightarrow> r)),
     ReadCommons = Inr (Some \<lparr>CommonsLog = None, CommonsTracing = None, CommonsReva = None,
       CommonsTokenManager = Some \<lparr>JWTSecret = ''s3cret''\<rparr>, CommonsMachineAuthAPIKey = ''key''\<rparr>),
     BindSourcesToStructs = (\<lambda>n c. (None, c)),
     EnvDecode = (\<lambda>c. (Some (Ext ''none of the target fields were set from environment variables''), c)),
     ErrNoTargetFieldsAreSet = Ext ''none of the target fields were set from environment variables'',
     MissingJWTTokenError = (\<lambda>n. Ext (''missing jwt secret for '' @ n)),
     MissingMachineAuthApiKeyError = (\<lambda>n. Ext (''missing machine auth api key for '' @ n))\<rparr>"

theorem ensure_defaults_fills_gaps_witness:
  "EnsureDefaults sample_oc (EnsureDefaults sample_oc (DefaultConfig sample_oc)) =
     EnsureDefaults sample_oc (DefaultConfig sample_oc)"
  by (rule ensure_defaults_fills_gaps [THEN conjunct1]) (simp add: sample_oc_def)

text \<open>
  C28: a configuration that ParseConfig accepts has a JWT secret and a machine-auth key, and
  parsing never dereferences a missing token manager, provided the two readers keep the one
  EnsureDefaults put there. An error of the environment decoder is dropped only when it is,
  or wraps, ErrNoTargetFieldsAreSet.
\<close>

theorem parse_config_validates:
  assumes "\<And>n c. TokenManager c \<noteq> None \<Longrightarrow> TokenManager (snd (BindSourcesToStructs L n c)) \<noteq> None"
    "\<And>c. TokenManager c \<noteq> None \<Longrightarrow> TokenManager (snd (EnvDecode L c)) \<noteq> None"
    "ParseConfig L cfg = (r, cfg')"
  shows "(\<forall>a. r \<noteq> Abort a) \<and>
     (r = Ok () \<longrightarrow> (\<exists>t. TokenManager cfg' = Some t \<and> JWTSecret t \<noteq> []) \<and> MachineAuthAPIKey cfg' \<noteq> []) \<and>
     (\<forall>e. ReadCommons L = Inl e \<longrightarrow> r = Err e \<and> cfg' = cfg) \<and>
     (\<forall>c n c1 e c2. ReadCommons L = Inr c \<longrightarrow>
        BindSourcesToStructs L (Name (Service cfg)) (EnsureDefaults L (cfg\<lparr>Commons := c\<rparr>)) = (None, c1) \<longrightarrow>
        EnvDecode L c1 = (Some e, c2) \<longrightarrow> \<not> errors_Is e (ErrNoTargetFieldsAreSet L) \<longrightarrow> r = Err e)"
proof (cases "ReadCommons L")
  case (Inl e)
  then show ?thesis using assms(3) by (auto simp: ParseConfig_def)
next
  case (Inr c)
  let ?d = "EnsureDefaults L (cfg\<lparr>Commons := c\<rparr>)"
  obtain e1 c1 where b: "BindSourcesToStructs L (Name (Service cfg)) ?d = (e1, c1)" by force
  obtain e2 c2 where d: "EnvDecode L c1 = (e2, c2)" by force
  have "TokenManager ?d \<noteq> None" by (simp add: ensure_TokenManager)
  then have "TokenManager c1 \<noteq> None" using assms(1) [of ?d] b by (metis snd_conv)
  then have t: "TokenManager c2 \<noteq> None" using assms(2) [of c1] d by (metis snd_conv)
  have abort: "Validate L c2 \<noteq> Abort a" for a
    using t by (auto simp: Validate_def split: if_splits)
  have run: "(r, cfg') = (case e1 of Some err \<Rightarrow> (Err err, c1)
     | None \<Rightarrow> (case e2 of Some e \<Rightarrow> if \<not> errors_Is e (ErrNoTargetFieldsAreSet L) then (Err e, c2) else (Validate L c2, c2)
                | None \<Rightarrow> (Validate L c2, c2)))"
    using assms(3) Inr b d by (cases e1; cases e2) (auto simp: ParseConfig_def Sanitize_def split: if_splits)
  have "Validate L c2 = Ok () \<longrightarrow> (\<exists>t. TokenManager c2 = Some t \<and> JWTSecret t \<noteq> []) \<and> MachineAuthAPIKey c2 \<noteq> []"
    by (simp add: Validate_Ok)
  then show ?thesis
    using run Inr b d abort by (auto split: option.splits if_splits)
qed

theorem parse_config_validates_witness:
  "MachineAuthAPIKey (snd (ParseConfig sample_oc (DefaultConfig sample_oc))) \<noteq> []"
proof -
  have "ParseConfig sample_oc (DefaultConfig sample_oc) =
      (Ok (), snd (ParseConfig sample_oc (DefaultConfig sample_oc)))" by code_simp
  from parse_config_validates [OF _ _ this] show ?thesis by (auto simp: sample_oc_def)
qed

text \<open>
  The built-in defaults alone are refused: they carry no secrets, so a full default
  configuration fails validation with the missing JWT secret of the service "sftp".
\<close>

lemma default_config_needs_secrets:
  "Validate L (FullDefaultConfig L) = Err (MissingJWTTokenError L ''sftp'')"
  by (simp add: Validate_def FullDefaultConfig_def Sanitize_def ensure_TokenManager DefaultConfig_def zero_config_def)

end
