(* ===== verification/Os.thy ===== *)
theory Os
  imports Go_Lib
begin

text \<open>
  What the program uses of package os: a file system of directories and files, with the
  errors its operations meet. Paths are slash-separated strings in cleaned form. Every
  operation may also fail at a path for a reason of its own (permissions, the device), which
  \<open>Os_fault\<close> gives; the operations are as atomic as one process sees them.
\<close>

datatype os_node = OsDir | OsFile "byte list" nat

datatype os_op = OsStat | OsRead | OsWrite | OsMkdir | OsRemove

record os_state =
  Os_nodes :: "string \<Rightarrow> os_node option"
  Os_fault :: "os_op \<Rightarrow> string \<Rightarrow> go_error option"

definition EISDIR :: go_error where
  "EISDIR = Ext ''is a directory''"

text \<open>The root and the working directory are always there.\<close>

definition node_at :: "os_state \<Rightarrow> string \<Rightarrow> os_node option" where
  "node_at s p = (if p = ''/'' \<or> p = ''.'' then Some OsDir else Os_nodes s p)"

definition set_node :: "string \<Rightarrow> os_node option \<Rightarrow> os_state \<Rightarrow> os_state" where
  "set_node p n s = s\<lparr>Os_nodes := (Os_nodes s)(p := n)\<rparr>"

text \<open>The directory part of a path.\<close>

definition dir_of :: "string \<Rightarrow> string" where
  "dir_of p = (if CHR ''/'' \<notin> set p then ''.''
     else let d = rev (tl (dropWhile (\<lambda>c. c \<noteq> CHR ''/'') (rev p))) in if d = [] then ''/'' else d)"

text \<open>\<open>p\<close> itself and everything below it.\<close>

definition at_or_below :: "string \<Rightarrow> string \<Rightarrow> bool" where
  "at_or_below p q \<longleftrightarrow> q = p \<or> take (length p + 1) q = p @ ''/''"

definition os_Stat :: "string \<Rightarrow> os_state \<Rightarrow> go_error + os_node" where
  "os_Stat p s = (case Os_fault s OsStat p of
      Some e \<Rightarrow> Inl e
    | None \<Rightarrow> (case node_at s p of None \<Rightarrow> Inl ErrNotExist | Some n \<Rightarrow> Inr n))"

definition os_IsNotExist :: "go_error option \<Rightarrow> bool" where
  "os_IsNotExist err \<longleftrightarrow> err = Some ErrNotExist"

definition os_ReadFile :: "string \<Rightarrow> os_state \<Rightarrow> byte list result" where
  "os_ReadFile p s = (case Os_fault s OsRead p of
      Some e \<Rightarrow> Err e
    | None \<Rightarrow> (case node_at s p of
          None \<Rightarrow> Err ErrNotExist
        | Some OsDir \<Rightarrow> Err EISDIR
        | Some (OsFile b m) \<Rightarrow> Ok b))"

text \<open>os.WriteFile truncates; the mode is that of an existing file.\<close>

definition os_WriteFile :: "string \<Rightarrow> byte list \<Rightarrow> nat \<Rightarrow> os_state \<Rightarrow> go_error option \<times> os_state" where
  "os_WriteFile p b perm s = (case Os_fault s OsWrite p of
      Some e \<Rightarrow> (Some e, s)
    | None \<Rightarrow> (case node_at s p of
          Some OsDir \<Rightarrow> (Some EISDIR, s)
        | Some (OsFile _ m) \<Rightarrow> (None, set_node p (Some (OsFile b m)) s)
        | None \<Rightarrow> (case node_at s (dir_of p) of
              None \<Rightarrow> (Some ErrNotExist, s)
            | Some (OsFile _ _) \<Rightarrow> (Some ENOTDIR, s)
            | Some OsDir \<Rightarrow> (None, set_node p (Some (OsFile b perm)) s))))"

text \<open>The prefixes of a path that end before a slash, and the path.\<close>

fun path_prefixes :: "string \<Rightarrow> string \<Rightarrow> string list" where
  "path_prefixes acc [] = [rev acc]"
| "path_prefixes acc (c # p) =
     (if c = CHR ''/'' \<and> acc \<noteq> [] then rev acc # path_prefixes (c # acc) p else path_prefixes (c # acc) p)"

fun mkdir_each :: "string list \<Rightarrow> os_state \<Rightarrow> go_error option \<times> os_state" where
  "mkdir_each [] s = (None, s)"
| "mkdir_each (p # ps) s = (case Os_fault s OsMkdir p of
      Some e \<Rightarrow> (Some e, s)
    | None \<Rightarrow> (case node_at s p of
          Some OsDir \<Rightarrow> mkdir_each ps s
        | Some (OsFile _ _) \<Rightarrow> (Some ENOTDIR, s)
        | None \<Rightarrow> mkdir_each ps (set_node p (Some OsDir) s)))"

definition os_MkdirAll :: "string \<Rightarrow> os_state \<Rightarrow> go_error option \<times> os_state" where
  "os_MkdirAll p s = mkdir_each (path_prefixes [] p) s"

text \<open>os.RemoveAll of a path that is not there succeeds.\<close>

definition os_RemoveAll :: "string \<Rightarrow> os_state \<Rightarrow> go_error option \<times> os_state" where
  "os_RemoveAll p s = (case Os_fault s OsRemove p of
      Some e \<Rightarrow> (Some e, s)
    | None \<Rightarrow> (None, s\<lparr>Os_nodes := (\<lambda>q. if at_or_below p q then None else Os_nodes s q)\<rparr>))"

subsection \<open>What the operations leave\<close>

lemma set_node_simps [simp]:
  "Os_nodes (set_node p n s) = (Os_nodes s)(p := n)" "Os_fault (set_node p n s) = Os_fault s"
  by (simp_all add: set_node_def)

lemma at_or_below_refl [simp]: "at_or_below p p"
  by (simp add: at_or_below_def)

lemma os_WriteFile_Ok:
  assumes "os_WriteFile p b perm s = (None, s')"
  shows "\<exists>m. Os_nodes s' = (Os_nodes s)(p \<mapsto> OsFile b m) \<and> (Os_nodes s p = None \<longrightarrow> m = perm)"
  using assms unfolding os_WriteFile_def node_at_def
  by (auto split: option.splits os_node.splits if_splits)

lemma os_WriteFile_other: "os_WriteFile p b perm s = (e, s') \<Longrightarrow> q \<noteq> p \<Longrightarrow> Os_nodes s' q = Os_nodes s q"
  unfolding os_WriteFile_def by (auto split: option.splits os_node.splits if_splits)

lemma os_WriteFile_cases:
  assumes "os_WriteFile p b perm s = (e, s')"
  shows "Os_nodes s' q = Os_nodes s q \<or>
     q = p \<and> (Os_nodes s q = None \<and> Os_nodes s' q = Some (OsFile b perm) \<or>
       (\<exists>b0 m. Os_nodes s q = Some (OsFile b0 m) \<and> Os_nodes s' q = Some (OsFile b m)))"
  using assms unfolding os_WriteFile_def node_at_def
  by (auto split: option.splits os_node.splits if_splits)

text \<open>mkdir makes only the path and directories above it.\<close>

lemma path_prefixes_length: "q \<in> set (path_prefixes acc p) \<Longrightarrow> length q \<le> length acc + length p"
  by (induction acc p rule: path_prefixes.induct) (auto split: if_splits)

lemma mkdir_each_other: "mkdir_each ps s = (e, s') \<Longrightarrow> q \<notin> set ps \<Longrightarrow> Os_nodes s' q = Os_nodes s q"
  by (induction ps s rule: mkdir_each.induct) (auto split: option.splits os_node.splits)

lemma os_MkdirAll_below:
  assumes "os_MkdirAll p s = (e, s')" "at_or_below p q" "q \<noteq> p"
  shows "Os_nodes s' q = Os_nodes s q"
proof -
  have "take (length p + 1) q = p @ ''/''" using assms(2,3) by (simp add: at_or_below_def)
  then have "length (take (length p + 1) q) = length p + 1" by simp
  then have "length p < length q" by simp
  then have "q \<notin> set (path_prefixes [] p)" using path_prefixes_length [of q "[]" p] by auto
  with assms(1) show ?thesis unfolding os_MkdirAll_def by (rule mkdir_each_other)
qed

lemma mkdir_each_keeps:
  "mkdir_each ps s = (e, s') \<Longrightarrow> Os_nodes s' q = Os_nodes s q \<or> (Os_nodes s q = None \<and> Os_nodes s' q = Some OsDir)"
proof (induction ps arbitrary: s)
  case (Cons p ps)
  show ?case
  proof (cases "mkdir_each (p # ps) s = mkdir_each ps (set_node p (Some OsDir) s) \<and> node_at s p = None")
    case True
    then have "mkdir_each ps (set_node p (Some OsDir) s) = (e, s')" "Os_nodes s p = None"
      using Cons.prems by (auto simp: node_at_def split: if_splits)
    then show ?thesis using Cons.IH [of "set_node p (Some OsDir) s"] by (auto split: if_splits)
  next
    case False
    then show ?thesis
      using Cons by (auto split: option.splits os_node.splits)
  qed
qed simp

lemma os_MkdirAll_keeps:
  "os_MkdirAll p s = (e, s') \<Longrightarrow> Os_nodes s' q = Os_nodes s q \<or> (Os_nodes s q = None \<and> Os_nodes s' q = Some OsDir)"
  unfolding os_MkdirAll_def by (rule mkdir_each_keeps)

lemma os_RemoveAll_keeps:
  "os_RemoveAll p s = (e, s') \<Longrightarrow> Os_nodes s' q = Os_nodes s q \<or> Os_nodes s' q = None"
  unfolding os_RemoveAll_def by (auto split: option.splits if_splits)

lemma os_RemoveAll_Ok:
  "os_RemoveAll p s = (None, s') \<Longrightarrow> at_or_below p q \<Longrightarrow> Os_nodes s' q = None"
  unfolding os_RemoveAll_def by (auto split: option.splits)

text \<open>No operation changes what may fail.\<close>

lemma os_fault_kept:
  "os_WriteFile p b perm s = (e, s') \<Longrightarrow> Os_fault s' = Os_fault s"
  "os_MkdirAll p s = (e, s') \<Longrightarrow> Os_fault s' = Os_fault s"
  "os_RemoveAll p s = (e, s') \<Longrightarrow> Os_fault s' = Os_fault s"
proof -
  have "mkdir_each ps s = (e, s') \<Longrightarrow> Os_fault s' = Os_fault s" for ps
    by (induction ps s rule: mkdir_each.induct) (auto split: option.splits os_node.splits)
  then show "os_MkdirAll p s = (e, s') \<Longrightarrow> Os_fault s' = Os_fault s" by (simp add: os_MkdirAll_def)
qed (auto simp: os_WriteFile_def os_RemoveAll_def split: option.splits os_node.splits)

lemma os_WriteFile_no_dir: "os_WriteFile p b perm s = (None, s') \<Longrightarrow> Os_nodes s p \<noteq> Some OsDir"
  unfolding os_WriteFile_def node_at_def by (auto split: option.splits os_node.splits if_splits)

lemma os_ReadFile_file:
  "Os_fault s OsRead p = None \<Longrightarrow> p \<notin> {''/'', ''.''} \<Longrightarrow> Os_nodes s p = Some (OsFile b m) \<Longrightarrow> os_ReadFile p s = Ok b"
  by (simp add: os_ReadFile_def node_at_def)

lemma os_ReadFile_no_file:
  "(\<And>b m. Os_nodes s p \<noteq> Some (OsFile b m)) \<Longrightarrow> \<exists>e. os_ReadFile p s = Err e"
  by (auto simp: os_ReadFile_def node_at_def split: option.splits os_node.splits)

end
