(* ===== verification/Command.thy ===== *)
theory Command
  imports Keygen Config Os
begin

text \<open>
  pkg/command/init.go: the command that sets the service up. It writes the configuration
  file and a host key pair, and refuses to replace what is there without being forced.
  Output to the terminal is left out.
\<close>

subsection \<open>Selecting fields of a struct\<close>

text \<open>
  What reflection shows of a value: a struct is its fields in order, with names and values; a
  field's type and tag come with its name. The values are kept by their Go type.
\<close>

datatype field_value =
    FvCommons "commons option" | FvService service_config | FvTracing "tracing_config option"
  | FvLog "log_config option" | FvDebug debug_config | FvString string
  | FvTokenManager "token_manager option" | FvReva "reva_config option" | FvBool bool | FvInt int
  | FvContext | FvStatus status_config

datatype reflected = Struct "(string \<times> field_value) list" | OtherKind

definition reflect_config :: "config \<Rightarrow> reflected" where
  "reflect_config cfg = Struct
     [(''Commons'', FvCommons (Commons cfg)), (''Service'', FvService (Service cfg)),
      (''Tracing'', FvTracing (Tracing cfg)), (''Log'', FvLog (Log cfg)), (''Debug'', FvDebug (Debug cfg)),
      (''SFTPAddress'', FvString (SFTPAddress cfg)), (''HostPrivateKeyPath'', FvString (HostPrivateKeyPath cfg)),
      (''TokenManager'', FvTokenManager (TokenManager cfg)), (''Reva'', FvReva (Reva cfg)),
      (''SkipUserGroupsInToken'', FvBool (SkipUserGroupsInToken cfg)), (''Insecure'', FvBool (Insecure cfg)),
      (''Timeout'', FvInt (Timeout cfg)), (''MachineAuthAPIKey'', FvString (MachineAuthAPIKey cfg)),
      (''Context'', FvContext), (''Status'', FvStatus (Status cfg)),
      (''AllowPropfindDepthInfinity'', FvBool (AllowPropfindDepthInfinity cfg)),
      (''GatewaySelector'', FvString (GatewaySelector cfg))]"

text \<open>The loop over the fields: those whose name is in the set.\<close>

fun select_fields :: "string set \<Rightarrow> (string \<times> field_value) list \<Rightarrow> (string \<times> field_value) list" where
  "select_fields names [] = []"
| "select_fields names ((n, v) # flds) =
     (if n \<in> names then (n, v) # select_fields names flds else select_fields names flds)"

definition extractFields :: "reflected \<Rightarrow> string list \<Rightarrow> (string \<times> field_value) list result" where
  "extractFields input fieldNames = (case input of
      OtherKind \<Rightarrow> Err (Errorf ''input must be a struct'' [])
    | Struct flds \<Rightarrow>
        (let selected = select_fields (set fieldNames) flds
         in if length selected = 0 then Err (Errorf ''no matching fields found'' []) else Ok selected))"

text \<open>\<open>marshal\<close> is yaml.Marshal.\<close>

definition configSubsetToYAML ::
    "((string \<times> field_value) list \<Rightarrow> go_error + byte list) \<Rightarrow> config \<Rightarrow> string list \<Rightarrow> byte list result" where
  "configSubsetToYAML marshal cfg fieldNames = (case extractFields (reflect_config cfg) fieldNames of
      Err err \<Rightarrow> Err (Errorf ''failed to extract fields: %v'' [FErr (Some err)])
    | Abort a \<Rightarrow> Abort a
    | Ok extracted \<Rightarrow> (case marshal extracted of
          Inl err \<Rightarrow> Err (Errorf ''failed to marshal to YAML: %v'' [FErr (Some err)])
        | Inr yamlData \<Rightarrow> Ok yamlData))"

subsection \<open>Files\<close>

text \<open>A Stat that fails for another reason than absence leaves a nil info, whose IsDir panics.\<close>

definition fileExists :: "string \<Rightarrow> os_state \<Rightarrow> bool result" where
  "fileExists filePath os = (case os_Stat filePath os of
      Inl err \<Rightarrow> if os_IsNotExist (Some err) then Ok False else Abort NilDeref
    | Inr info \<Rightarrow> Ok (info \<noteq> OsDir))"

fun deleteFiles :: "string list \<Rightarrow> os_state \<Rightarrow> go_error option \<times> os_state" where
  "deleteFiles [] os = (None, os)"
| "deleteFiles (p # paths) os = (case os_RemoveAll p os of
      (err, os) \<Rightarrow>
        if err \<noteq> None \<and> \<not> os_IsNotExist err
        then (Some (Errorf ''failed to remove %s: %v'' [FStr p, FErr err]), os)
        else deleteFiles paths os)"

definition writeKeyPairToFile :: "key_pair \<Rightarrow> string \<Rightarrow> string \<Rightarrow> os_state \<Rightarrow> go_error option \<times> os_state" where
  "writeKeyPairToFile keyPair keyPath keyName os =
     (let privateKeyFile = path_Join [keyPath, keyName];
          publicKeyFile = path_Join [keyPath, keyName @ ''.pub'']
      in case os_WriteFile privateKeyFile (KP_PrivateKey keyPair) 384 os of
           (Some err, os) \<Rightarrow>
             (Some (Errorf ''failed to write private key to %s: %v'' [FStr privateKeyFile, FErr (Some err)]), os)
         | (None, os) \<Rightarrow> (case os_WriteFile publicKeyFile (KP_PublicKey keyPair) 420 os of
             (Some err, os) \<Rightarrow>
               (Some (Errorf ''failed to write public key to %s: %v'' [FStr publicKeyFile, FErr (Some err)]), os)
           | (None, os) \<Rightarrow> (None, os)))"

subsection \<open>The action\<close>

definition serviceConfigPath :: "oclib \<Rightarrow> config \<Rightarrow> string" where
  "serviceConfigPath L cfg = path_Join [BaseConfigPath L, Name (Service cfg)] @ ''.yaml''"

definition serviceDataPath :: "oclib \<Rightarrow> config \<Rightarrow> string" where
  "serviceDataPath L cfg = path_Join [BaseDataPath L, Name (Service cfg)]"

text \<open>
  From deleteFiles on. Its error is stored in \<open>err\<close>, which the next statement overwrites.
\<close>

definition init_write ::
    "oclib \<Rightarrow> ('k, 'p) cryptolib \<Rightarrow> ((string \<times> field_value) list \<Rightarrow> go_error + byte list) \<Rightarrow> config \<Rightarrow>
     os_state \<Rightarrow> unit result \<times> os_state" where
  "init_write L K marshal cfg os =
     (case deleteFiles [serviceDataPath L cfg, serviceConfigPath L cfg] os of
      (_, os) \<Rightarrow>
     (case configSubsetToYAML marshal cfg [''SFTPAddress'', ''HostPrivateKeyPath''] of
        Err err \<Rightarrow> (Err (Errorf ''failed to generate YAML configuration: %v'' [FErr (Some err)]), os)
      | Abort a \<Rightarrow> (Abort a, os)
      | Ok rawYML \<Rightarrow>
     (case os_WriteFile (serviceConfigPath L cfg) rawYML 420 os of
        (Some err, os) \<Rightarrow>
          (Err (Errorf ''failed to write configuration to %s: %v''
                 [FStr (serviceConfigPath L cfg), FErr (Some err)]), os)
      | (None, os) \<Rightarrow>
     (case os_MkdirAll (serviceDataPath L cfg) os of
        (Some err, os) \<Rightarrow>
          (Err (Errorf ''failed to create service data directory %s: %v''
                 [FStr (serviceDataPath L cfg), FErr (Some err)]), os)
      | (None, os) \<Rightarrow>
     (case GenerateSSHKeyPair K KeyTypeRSA of
        Err err \<Rightarrow> (Err (Errorf ''failed to generate SSH key pair: %v'' [FErr (Some err)]), os)
      | Abort a \<Rightarrow> (Abort a, os)
      | Ok keyPair \<Rightarrow>
     (case writeKeyPairToFile keyPair (serviceDataPath L cfg) ''id_rsa'' os of
        (Some err, os) \<Rightarrow> (Err (Errorf ''failed to write key pair to file: %v'' [FErr (Some err)]), os)
      | (None, os) \<Rightarrow> (Ok (), os)))))))"

definition init_action ::
    "oclib \<Rightarrow> ('k, 'p) cryptolib \<Rightarrow> ((string \<times> field_value) list \<Rightarrow> go_error + byte list) \<Rightarrow> config \<Rightarrow> bool \<Rightarrow>
     os_state \<Rightarrow> unit result \<times> os_state" where
  "init_action L K marshal cfg force os =
     (case fileExists (serviceConfigPath L cfg) os of
        Err err \<Rightarrow> (Err err, os)
      | Abort a \<Rightarrow> (Abort a, os)
      | Ok configExists \<Rightarrow>
     (case fileExists (HostPrivateKeyPath cfg) os of
        Err err \<Rightarrow> (Err err, os)
      | Abort a \<Rightarrow> (Abort a, os)
      | Ok hostKeyExists \<Rightarrow>
        if (configExists \<or> hostKeyExists) \<and> \<not> force then
          (Err (Errorf ''configuration already exists at %s or host key at %s''
                 [FStr (serviceConfigPath L cfg), FStr (HostPrivateKeyPath cfg)]), os)
        else init_write L K marshal cfg os))"

text \<open>
  Before: parse the configuration. \<open>returnError\<close> is configlog.ReturnError. The flags were
  stored into the configuration by the command-line library when the command runs.
\<close>

definition init_before :: "oclib \<Rightarrow> (go_error option \<Rightarrow> go_error option) \<Rightarrow> config \<Rightarrow> unit result \<times> config" where
  "init_before L returnError cfg = (case ParseConfig L cfg of
      (Err err, cfg) \<Rightarrow> (case returnError (Some err) of None \<Rightarrow> (Ok (), cfg) | Some e \<Rightarrow> (Err e, cfg))
    | (r, cfg) \<Rightarrow> (r, cfg))"

subsection \<open>Lemmas\<close>

lemma select_fields_filter: "select_fields names flds = filter (\<lambda>f. fst f \<in> names) flds"
  by (induction flds) auto

lemma yaml_subset:
  "configSubsetToYAML marshal cfg [''SFTPAddress'', ''HostPrivateKeyPath''] =
     (case marshal [(''SFTPAddress'', FvString (SFTPAddress cfg)), (''HostPrivateKeyPath'', FvString (HostPrivateKeyPath cfg))] of
        Inl err \<Rightarrow> Err (Errorf ''failed to marshal to YAML: %v'' [FErr (Some err)]) | Inr b \<Rightarrow> Ok b)"
  by (simp add: configSubsetToYAML_def extractFields_def reflect_config_def)

lemma deleteFiles_keeps:
  "deleteFiles ps os = (e, os') \<Longrightarrow> Os_nodes os' q = Os_nodes os q \<or> Os_nodes os' q = None"
proof (induction ps arbitrary: os)
  case (Cons p ps)
  obtain e1 os1 where r: "os_RemoveAll p os = (e1, os1)" by force
  have "Os_nodes os1 q = Os_nodes os q \<or> Os_nodes os1 q = None" by (rule os_RemoveAll_keeps [OF r])
  moreover have "Os_nodes os' q = Os_nodes os1 q \<or> Os_nodes os' q = None"
    using Cons r by (auto split: if_splits)
  ultimately show ?case by auto
qed simp

lemma writeKeyPairToFile_Ok:
  assumes "writeKeyPairToFile kp dir name os = (None, os')"
    "path_Join [dir, name] \<noteq> path_Join [dir, name @ ''.pub'']"
  shows "\<exists>m m'. Os_nodes os' = (Os_nodes os)(path_Join [dir, name] \<mapsto> OsFile (KP_PrivateKey kp) m,
      path_Join [dir, name @ ''.pub''] \<mapsto> OsFile (KP_PublicKey kp) m') \<and>
    (Os_nodes os (path_Join [dir, name]) = None \<longrightarrow> m = 384)"
proof -
  obtain os1 where w: "os_WriteFile (path_Join [dir, name]) (KP_PrivateKey kp) 384 os = (None, os1)"
    "os_WriteFile (path_Join [dir, name @ ''.pub'']) (KP_PublicKey kp) 420 os1 = (None, os')"
    using assms(1) by (auto simp: writeKeyPairToFile_def Let_def split: prod.splits option.splits)
  from os_WriteFile_Ok [OF w(1)] obtain m where
    m: "Os_nodes os1 = (Os_nodes os)(path_Join [dir, name] \<mapsto> OsFile (KP_PrivateKey kp) m)"
      "Os_nodes os (path_Join [dir, name]) = None \<longrightarrow> m = 384" by (elim exE conjE)
  from os_WriteFile_Ok [OF w(2)] obtain m' where
    m': "Os_nodes os' = (Os_nodes os1)(path_Join [dir, name @ ''.pub''] \<mapsto> OsFile (KP_PublicKey kp) m')"
    by (elim exE conjE)
  show ?thesis by (intro exI [of _ m] exI [of _ m'] conjI m(2)) (simp only: m' m(1))
qed

text \<open>A run of the writing part that succeeds went through every step.\<close>

lemma init_write_steps:
  assumes "init_write L K marshal cfg os = (Ok (), os')"
  obtains e os1 b os2 os3 kp where
    "deleteFiles [serviceDataPath L cfg, serviceConfigPath L cfg] os = (e, os1)"
    "marshal [(''SFTPAddress'', FvString (SFTPAddress cfg)), (''HostPrivateKeyPath'', FvString (HostPrivateKeyPath cfg))] = Inr b"
    "os_WriteFile (serviceConfigPath L cfg) b 420 os1 = (None, os2)"
    "os_MkdirAll (serviceDataPath L cfg) os2 = (None, os3)"
    "GenerateSSHKeyPair K KeyTypeRSA = Ok kp"
    "writeKeyPairToFile kp (serviceDataPath L cfg) ''id_rsa'' os3 = (None, os')"
  using assms unfolding init_write_def yaml_subset
  by (auto split: prod.splits option.splits sum.splits result.splits)

end
