(* ===== verification/SpaceLookup.thy ===== *)
theory SpaceLookup
  imports Externals
begin

text \<open>
  Package vfs/spacelookup: an absolute SFTP path is the name of a storage space followed
  by a path inside that space. The package keeps no state.
\<close>

subsection \<open>Definitions\<close>

definition SplitAbsolutePath :: "string \<Rightarrow> string \<times> string" where
  "SplitAbsolutePath path =
     (let trimmed = TrimPrefix path ''/'';
          parts = SplitN2 trimmed (CHR ''/'')
      in if length parts = 0 \<or> parts ! 0 = [] then ([], [])
         else
           (let first = parts ! 0;
                rest = (if length parts = 2 then ''/'' @ parts ! 1 else []);
                rest = (if rest = [] then ''/'' else rest);
                rest = (if rest \<noteq> ''/'' then TrimSuffix rest ''/'' else rest)
            in (first, rest)))"

text \<open>The loop over the spaces: the first one with the name.\<close>

fun space_named :: "string \<Rightarrow> storage_space list \<Rightarrow> storage_space option" where
  "space_named name [] = None"
| "space_named name (sp # sps) = (if SpaceName sp = name then Some sp else space_named name sps)"

definition FindSpaceForPath ::
    "string \<Rightarrow> storage_space list \<Rightarrow> (storage_space option \<times> string) result" where
  "FindSpaceForPath path spaces =
     (case SplitAbsolutePath path of (spaceName, relPath) \<Rightarrow>
        (case space_named spaceName spaces of
           Some space \<Rightarrow> Ok (Some space, relPath)
         | None \<Rightarrow> Ok (None, [])))"

definition MakeStorageSpaceReference :: "revalib \<Rightarrow> string \<Rightarrow> string \<Rightarrow> reference result" where
  "MakeStorageSpaceReference R spaceID relativePath =
     (case ParseID R spaceID of
        Inl err \<Rightarrow> Err err
      | Inr resourceID \<Rightarrow>
          (let resourceID =
             (if StorageId resourceID = [] \<and> SpaceId resourceID = ShareStorageSpaceID R
              then resourceID\<lparr>StorageId := ShareStorageProviderID R\<rparr> else resourceID)
           in Ok \<lparr>RefResourceId = resourceID, RefPath = MakeRelativePath R relativePath\<rparr>))"

definition FilterForPersonalSpace :: "userid option \<Rightarrow> list_spaces_req" where
  "FilterForPersonalSpace uid =
     \<lparr>FieldMaskPaths = [''*''], Filters = [FilterSpaceType ''personal'', FilterOwner uid]\<rparr>"

subsection \<open>Splitting\<close>

text \<open>What a path is split into: a space name, and a path that starts with a slash.\<close>

definition proper_split :: "string \<Rightarrow> string \<Rightarrow> bool" where
  "proper_split first rest \<longleftrightarrow>
     first \<noteq> [] \<and> CHR ''/'' \<notin> set first \<and> (\<exists>r. rest = CHR ''/'' # r)"

lemma SplitAbsolutePath_name_only:
  assumes "first \<noteq> []" "CHR ''/'' \<notin> set first"
  shows "SplitAbsolutePath (CHR ''/'' # first) = (first, ''/'')"
  using assms by (simp add: SplitAbsolutePath_def SplitN2_no_sep Let_def)

lemma SplitAbsolutePath_name_rest:
  assumes "first \<noteq> []" "CHR ''/'' \<notin> set first"
  shows "SplitAbsolutePath (CHR ''/'' # first @ CHR ''/'' # r) =
     (first, if r = [] then ''/'' else TrimSuffix (CHR ''/'' # r) ''/'')"
  using assms by (simp add: SplitAbsolutePath_def SplitN2_sep Let_def)

lemma TrimSuffix_slash_rooted:
  assumes "r \<noteq> []"
  obtains r' where "TrimSuffix (CHR ''/'' # r) ''/'' = CHR ''/'' # r'"
proof (cases "HasSuffix (CHR ''/'' # r) ''/''")
  case True
  then obtain p where p: "CHR ''/'' # r = p @ ''/''" by (auto simp: HasSuffix_iff)
  then obtain q where "p = CHR ''/'' # q" using assms by (cases p) auto
  with p show ?thesis using that by (simp add: TrimSuffix_def HasSuffix_def)
qed (use that TrimSuffix_id in blast)

lemma SplitAbsolutePath_cases:
  obtains "SplitAbsolutePath p = ([], [])"
  | first rest where "SplitAbsolutePath p = (first, rest)" "proper_split first rest"
proof (cases rule: SplitN2_cases [of "CHR ''/''" "TrimPrefix p ''/''"])
  case 1
  then show ?thesis using that
    by (cases "TrimPrefix p ''/'' = []")
      (auto simp: SplitAbsolutePath_def Let_def proper_split_def)
next
  case (2 a b)
  show ?thesis
  proof (cases "a = []")
    case True
    then show ?thesis using that(1) 2 by (simp add: SplitAbsolutePath_def Let_def)
  next
    case a: False
    show ?thesis
    proof (cases "b = []")
      case True
      then have "SplitAbsolutePath p = (a, ''/'')"
        using 2 a by (simp add: SplitAbsolutePath_def Let_def)
      then show ?thesis using that(2) a 2(1) by (simp add: proper_split_def)
    next
      case False
      then obtain r where r: "TrimSuffix (CHR ''/'' # b) ''/'' = CHR ''/'' # r"
        by (rule TrimSuffix_slash_rooted)
      then have "SplitAbsolutePath p = (a, CHR ''/'' # r)"
        using 2 a False by (simp add: SplitAbsolutePath_def Let_def)
      then show ?thesis using that(2) a 2(1) by (simp add: proper_split_def)
    qed
  qed
qed

lemma SplitAbsolutePath_root [simp]: "SplitAbsolutePath ''/'' = ([], [])"
  by (simp add: SplitAbsolutePath_def SplitN2_def Let_def)

text \<open>The canonical form: no trailing slash but for the root of the space.\<close>

definition canonical_rest :: "string \<Rightarrow> bool" where
  "canonical_rest rest \<longleftrightarrow> rest = ''/'' \<or> \<not> HasSuffix rest ''/''"

lemma SplitAbsolutePath_join:
  assumes "proper_split first rest" "canonical_rest rest"
  shows "SplitAbsolutePath (CHR ''/'' # first @ rest) = (first, rest)"
proof -
  obtain r where r: "rest = CHR ''/'' # r" using assms(1) by (auto simp: proper_split_def)
  then show ?thesis
    using assms by (auto simp: SplitAbsolutePath_name_rest proper_split_def canonical_rest_def
        TrimSuffix_id)
qed

subsection \<open>Finding the space\<close>

lemma space_named_Some:
  "space_named n sps = Some sp \<longleftrightarrow>
     (\<exists>pre post. sps = pre @ sp # post \<and> SpaceName sp = n \<and> n \<notin> SpaceName ` set pre)"
proof (induction sps)
  case (Cons s sps)
  show ?case
  proof (cases "SpaceName s = n")
    case True
    then show ?thesis by (auto simp: Cons_eq_append_conv image_iff)
  next
    case False
    then have "(\<exists>pre post. s # sps = pre @ sp # post \<and> SpaceName sp = n \<and> n \<notin> SpaceName ` set pre)
      \<longleftrightarrow> (\<exists>pre post. sps = pre @ sp # post \<and> SpaceName sp = n \<and> n \<notin> SpaceName ` set pre)"
      by (auto simp: Cons_eq_append_conv) (metis False image_insert insertE list.simps(15))
    then show ?thesis using Cons.IH False by simp
  qed
qed simp

lemma space_named_None: "space_named n sps = None \<longleftrightarrow> n \<notin> SpaceName ` set sps"
  by (induction sps) auto

lemma space_named_in: "space_named n sps = Some sp \<Longrightarrow> sp \<in> set sps \<and> SpaceName sp = n"
  by (auto simp: space_named_Some)

lemma space_named_distinct:
  "distinct (map SpaceName sps) \<Longrightarrow> sp \<in> set sps \<Longrightarrow> space_named (SpaceName sp) sps = Some sp"
  by (induction sps) (auto simp: image_iff)

lemma FindSpaceForPath_total [simp]:
  "FindSpaceForPath p sps \<noteq> Err e" "FindSpaceForPath p sps \<noteq> Abort a"
  by (simp_all add: FindSpaceForPath_def split: prod.splits option.splits)

lemma FindSpaceForPath_Ok:
  "FindSpaceForPath p sps = Ok (x, rel) \<longleftrightarrow>
     (case x of Some sp \<Rightarrow> space_named (fst (SplitAbsolutePath p)) sps = Some sp \<and>
                           rel = snd (SplitAbsolutePath p)
      | None \<Rightarrow> space_named (fst (SplitAbsolutePath p)) sps = None \<and> rel = [])"
  by (auto simp: FindSpaceForPath_def split: prod.splits option.splits)

lemma MakeStorageSpaceReference_no_abort [simp]:
  "MakeStorageSpaceReference R i p \<noteq> Abort a"
  by (simp add: MakeStorageSpaceReference_def Let_def split: sum.splits)

subsection \<open>Properties\<close>

text \<open>
  C23: splitting undoes joining. A space name without slashes and a rooted path inside the
  space, in canonical form, are what SplitAbsolutePath gives back for "/name/path".
\<close>

theorem split_roundtrip:
  assumes "name \<noteq> []" "CHR ''/'' \<notin> set name"
    and "rest = CHR ''/'' # r" "rest = ''/'' \<or> \<not> HasSuffix rest ''/''"
  shows "SplitAbsolutePath (''/'' @ name @ rest) = (name, rest)"
  using SplitAbsolutePath_join [of name rest] assms
  by (simp add: proper_split_def canonical_rest_def)

theorem split_roundtrip_witness:
  "SplitAbsolutePath (''/'' @ ''Admin'' @ ''/docs/a.txt'') = (''Admin'', ''/docs/a.txt'')"
  by (rule split_roundtrip [where r = "''docs/a.txt''"]) (simp_all add: HasSuffix_def)

text \<open>
  The space that a path resolves to is the first of the listed spaces that carries the
  path's first component as its name, with the rest of the path relative to it; the lookup
  fails (a nil space) exactly when no listed space has that name, and it never errs.
\<close>

lemma find_space_first_match:
  "(FindSpaceForPath p sps = Ok (Some sp, rel) \<longleftrightarrow>
     (\<exists>pre post. sps = pre @ sp # post \<and> SpaceName sp = fst (SplitAbsolutePath p) \<and>
        fst (SplitAbsolutePath p) \<notin> SpaceName ` set pre \<and> rel = snd (SplitAbsolutePath p))) \<and>
   (FindSpaceForPath p sps = Ok (None, rel') \<longleftrightarrow>
     fst (SplitAbsolutePath p) \<notin> SpaceName ` set sps \<and> rel' = []) \<and>
   (\<exists>r. FindSpaceForPath p sps = Ok r)"
proof (intro conjI)
  show "FindSpaceForPath p sps = Ok (Some sp, rel) \<longleftrightarrow>
     (\<exists>pre post. sps = pre @ sp # post \<and> SpaceName sp = fst (SplitAbsolutePath p) \<and>
        fst (SplitAbsolutePath p) \<notin> SpaceName ` set pre \<and> rel = snd (SplitAbsolutePath p))"
    unfolding FindSpaceForPath_Ok option.case space_named_Some by blast
  show "\<exists>r. FindSpaceForPath p sps = Ok r"
    by (cases "FindSpaceForPath p sps") auto
qed (simp add: FindSpaceForPath_Ok space_named_None)

end
