(* ===== verification/Vfs.thy ===== *)
theory Vfs
  imports SpaceLookup
begin

text \<open>
  pkg/vfs/cs3.go: the file operations of a session, as calls on the CS3 gateway. The
  struct root holds the session's authenticated context; the gateway selector is a part
  of the environment \<open>X\<close> and the logger is left out (it returns nothing the code reads).
  A handler reads like the Go function: \<open>bnd m (\<lambda>x. ...)\<close> is
  \<open>x, err := m; if err != nil { return err }\<close>.
\<close>

record 'c root =
  authCtx :: 'c

subsection \<open>File infos\<close>

datatype sys_value = SysInfo "resource_info option" | SysSpace storage_space

text \<open>\<open>fi_mtime\<close> is the Unix time in seconds; \<open>None\<close> is the zero time.Time.\<close>

record file_info =
  fi_name :: string
  fi_size :: int
  fi_mode :: "32 word"
  fi_mtime :: "int option"
  fi_isDir :: bool
  fi_sys :: sys_value

definition ModeDir :: "32 word" where
  "ModeDir = 2 ^ 31"

text \<open>The octal literal 0ugo.\<close>

definition octal3 :: "32 word \<Rightarrow> 32 word \<Rightarrow> 32 word \<Rightarrow> 32 word" where
  "octal3 u g w = 64 * u + 8 * g + w"

text \<open>The generated getters on a nil message return the zero values.\<close>

definition info_or_zero :: "resource_info option \<Rightarrow> resource_info" where
  "info_or_zero ri = (case ri of
      Some i \<Rightarrow> i
    | None \<Rightarrow> \<lparr>InfoName = [], InfoPath = [], InfoSize = 0,
               InfoType = RESOURCE_TYPE_OTHER 0, InfoMtime = None\<rparr>)"

definition toFileInfo :: "resource_info option \<Rightarrow> file_info" where
  "toFileInfo ri =
     (let i = info_or_zero ri;
          dir = (InfoType i = RESOURCE_TYPE_CONTAINER)
      in \<lparr>fi_name = InfoName i, fi_size = int64_of_u64 (InfoSize i),
          fi_mode = (if dir then or (octal3 7 5 5) ModeDir else octal3 6 4 4),
          fi_mtime = map_option int64_of_u64 (InfoMtime i),
          fi_isDir = dir, fi_sys = SysInfo ri\<rparr>)"

fun toFileInfos :: "resource_info option list \<Rightarrow> file_info list" where
  "toFileInfos [] = []"
| "toFileInfos (ri # ris) = toFileInfo ri # toFileInfos ris"

fun storageSpacesToFileInfo :: "storage_space list \<Rightarrow> file_info list" where
  "storageSpacesToFileInfo [] = []"
| "storageSpacesToFileInfo (sp # sps) =
     \<lparr>fi_name = SpaceName sp, fi_size = 0, fi_mode = or (octal3 7 7 5) ModeDir,
      fi_mtime = map_option int64_of_u64 (SpaceMtime sp), fi_isDir = True, fi_sys = SysSpace sp\<rparr>
     # storageSpacesToFileInfo sps"

subsection \<open>Listing the spaces\<close>

text \<open>A status other than OK is answered with no spaces and \<open>err\<close>, which is nil there.\<close>

definition listStorageSpaces ::
    "('w, 'c) env \<Rightarrow> 'c root \<Rightarrow> ('w, 'c event, storage_space list) go" where
  "listStorageSpaces X fs =
     bnd (call_Next X) (\<lambda>_.
     bnd (rpc_call (gw_ListStorageSpaces (E_gw X)) EvListStorageSpaces (authCtx fs)
            \<lparr>FieldMaskPaths = [''*''], Filters = []\<rparr>) (\<lambda>lSSRes.
     if GetCode (SpacesStatus lSSRes) \<noteq> CODE_OK then ret [] else ret (StorageSpaces lSSRes)))"

subsection \<open>mkdir\<close>

definition root_mkdir :: "('w, 'c) env \<Rightarrow> 'c root \<Rightarrow> string \<Rightarrow> ('w, 'c event, unit) go" where
  "root_mkdir X fs dirPath =
     bnd (listStorageSpaces X fs) (\<lambda>storageSpaces.
     bnd (of_result (FindSpaceForPath dirPath storageSpaces)) (\<lambda>(spc, relPath).
     case spc of None \<Rightarrow> fail ErrNotExist | Some spc \<Rightarrow>
     bnd (of_result (MakeStorageSpaceReference (E_reva X) (SpaceOpaqueId spc) relPath)) (\<lambda>ref.
     bnd (call_Next X) (\<lambda>_.
     bnd (rpc_call (gw_CreateContainer (E_gw X)) EvCreateContainer (authCtx fs)
            \<lparr>RefResourceId = RefResourceId ref, RefPath = relPath\<rparr>) (\<lambda>mkCntRes.
     if GetCode mkCntRes \<noteq> CODE_OK then
       if GetCode mkCntRes = CODE_ALREADY_EXISTS then
         fail (Errorf ''failed to create container: %w'' [FWrap ErrExist])
       else fail (Errorf ''failed to create container: %s'' [FStr (GetMessage mkCntRes)])
     else ret ())))))"

subsection \<open>renameFile\<close>

definition root_renameFile ::
    "('w, 'c) env \<Rightarrow> 'c root \<Rightarrow> string \<Rightarrow> string \<Rightarrow> bool \<Rightarrow> ('w, 'c event, unit) go" where
  "root_renameFile X fs oldpath newpath allowOverwrite =
     bnd (listStorageSpaces X fs) (\<lambda>storageSpaces.
     bnd (of_result (FindSpaceForPath oldpath storageSpaces)) (\<lambda>(sourceSpc, sourceRelPath).
     case sourceSpc of None \<Rightarrow> fail ErrNotExist | Some sourceSpc \<Rightarrow>
     bnd (of_result (FindSpaceForPath newpath storageSpaces)) (\<lambda>(targetSpc, targetRelPath).
     case targetSpc of None \<Rightarrow> fail ErrNotExist | Some targetSpc \<Rightarrow>
     if SpaceOpaqueId sourceSpc \<noteq> SpaceOpaqueId targetSpc then
       fail (Errorf ''cross-space moves are not supported'' [])
     else
     bnd (of_result (MakeStorageSpaceReference (E_reva X) (SpaceOpaqueId sourceSpc) sourceRelPath)) (\<lambda>sourceRef.
     bnd (of_result (MakeStorageSpaceReference (E_reva X) (SpaceOpaqueId targetSpc) targetRelPath)) (\<lambda>targetRef.
     bnd (call_Next X) (\<lambda>_.
     bnd (if \<not> allowOverwrite then
            bnd (try_go (rpc_call (gw_Stat (E_gw X)) EvStat (authCtx fs) targetRef)) (\<lambda>statResp.
            case statResp of
              Inr statResp \<Rightarrow> if GetCode (StatStatus statResp) = CODE_OK then fail ErrExist else ret ()
            | Inl _ \<Rightarrow> ret ())
          else ret ()) (\<lambda>_.
     bnd (rpc_call (gw_Move (E_gw X)) EvMove (authCtx fs) (sourceRef, targetRef)) (\<lambda>moveResp.
     if GetCode moveResp \<noteq> CODE_OK then
       (case GetCode moveResp of
          CODE_NOT_FOUND \<Rightarrow> fail ErrNotExist
        | CODE_ALREADY_EXISTS \<Rightarrow> fail ErrExist
        | CODE_PERMISSION_DENIED \<Rightarrow> fail ErrPermission
        | _ \<Rightarrow> fail (Errorf ''move failed: %s'' [FStr (GetMessage moveResp)]))
     else ret ()))))))))"

subsection \<open>remove\<close>

definition root_remove :: "('w, 'c) env \<Rightarrow> 'c root \<Rightarrow> string \<Rightarrow> ('w, 'c event, unit) go" where
  "root_remove X fs pathname =
     bnd (listStorageSpaces X fs) (\<lambda>storageSpaces.
     bnd (of_result (FindSpaceForPath pathname storageSpaces)) (\<lambda>(spc, relPath).
     case spc of None \<Rightarrow> fail ErrNotExist | Some spc \<Rightarrow>
     bnd (of_result (MakeStorageSpaceReference (E_reva X) (SpaceOpaqueId spc) relPath)) (\<lambda>ref.
     bnd (call_Next X) (\<lambda>_.
     bnd (rpc_call (gw_Stat (E_gw X)) EvStat (authCtx fs) ref) (\<lambda>statResp.
     if GetCode (StatStatus statResp) \<noteq> CODE_OK then
       if GetCode (StatStatus statResp) = CODE_NOT_FOUND then fail ErrNotExist
       else fail (Errorf ''stat failed: %s'' [FStr (GetMessage (StatStatus statResp))])
     else if InfoType (info_or_zero (StatInfo statResp)) = RESOURCE_TYPE_CONTAINER then
       fail ErrInvalid
     else
     bnd (rpc_call (gw_Delete (E_gw X)) EvDelete (authCtx fs) ref) (\<lambda>deleteResp.
     if GetCode deleteResp \<noteq> CODE_OK then
       if GetCode deleteResp = CODE_NOT_FOUND then fail ErrNotExist
       else fail (Errorf ''delete failed: %s'' [FStr (GetMessage deleteResp)])
     else ret ()))))))"

subsection \<open>rmdir\<close>

definition root_rmdir :: "('w, 'c) env \<Rightarrow> 'c root \<Rightarrow> string \<Rightarrow> ('w, 'c event, unit) go" where
  "root_rmdir X fs pathname =
     bnd (listStorageSpaces X fs) (\<lambda>storageSpaces.
     bnd (of_result (FindSpaceForPath pathname storageSpaces)) (\<lambda>(spc, relPath).
     case spc of None \<Rightarrow> fail ErrNotExist | Some spc \<Rightarrow>
     bnd (of_result (MakeStorageSpaceReference (E_reva X) (SpaceOpaqueId spc) relPath)) (\<lambda>ref.
     bnd (call_Next X) (\<lambda>_.
     bnd (rpc_call (gw_Stat (E_gw X)) EvStat (authCtx fs) ref) (\<lambda>statResp.
     if GetCode (StatStatus statResp) \<noteq> CODE_OK then
       if GetCode (StatStatus statResp) = CODE_NOT_FOUND then fail ErrNotExist
       else fail (Errorf ''stat failed: %s'' [FStr (GetMessage (StatStatus statResp))])
     else if InfoType (info_or_zero (StatInfo statResp)) \<noteq> RESOURCE_TYPE_CONTAINER then
       fail ENOTDIR
     else
     bnd (rpc_call (gw_ListContainer (E_gw X)) EvListContainer (authCtx fs) ref) (\<lambda>listResp.
     if GetCode (ListStatus listResp) \<noteq> CODE_OK then
       fail (Errorf ''list container failed: %s'' [FStr (GetMessage (ListStatus listResp))])
     else if length (ListInfos listResp) > 0 then fail (New ''directory not empty'')
     else
     bnd (rpc_call (gw_Delete (E_gw X)) EvDelete (authCtx fs) ref) (\<lambda>deleteResp.
     if GetCode deleteResp \<noteq> CODE_OK then
       if GetCode deleteResp = CODE_NOT_FOUND then fail ErrNotExist
       else fail (Errorf ''delete directory failed: %s'' [FStr (GetMessage deleteResp)])
     else ret ())))))))"

subsection \<open>list and stat\<close>

definition root_list :: "('w, 'c) env \<Rightarrow> 'c root \<Rightarrow> string \<Rightarrow> ('w, 'c event, file_info list) go" where
  "root_list X fs dirPath =
     bnd (listStorageSpaces X fs) (\<lambda>storageSpaces.
     if dirPath = ''/'' then ret (storageSpacesToFileInfo storageSpaces)
     else
     bnd (of_result (FindSpaceForPath dirPath storageSpaces)) (\<lambda>(spc, relPath).
     case spc of None \<Rightarrow> fail ErrNotExist | Some spc \<Rightarrow>
     bnd (of_result (MakeStorageSpaceReference (E_reva X) (SpaceOpaqueId spc) relPath)) (\<lambda>ref.
     bnd (call_Next X) (\<lambda>_.
     bnd (rpc_call (gw_ListContainer (E_gw X)) EvListContainer (authCtx fs) ref) (\<lambda>listResp.
     if GetCode (ListStatus listResp) \<noteq> CODE_OK then
       fail (Errorf ''list container failed: %s'' [FStr (GetMessage (ListStatus listResp))])
     else ret (toFileInfos (map Some (ListInfos listResp))))))))"

text \<open>\<open>stat\<close> does not look at the status of the response.\<close>

definition root_stat :: "('w, 'c) env \<Rightarrow> 'c root \<Rightarrow> string \<Rightarrow> ('w, 'c event, file_info) go" where
  "root_stat X fs path =
     bnd (listStorageSpaces X fs) (\<lambda>storageSpaces.
     bnd (of_result (FindSpaceForPath path storageSpaces)) (\<lambda>(spc, relPath).
     case spc of None \<Rightarrow> fail ErrNotExist | Some spc \<Rightarrow>
     bnd (call_Next X) (\<lambda>_.
     bnd (of_result (MakeStorageSpaceReference (E_reva X) (SpaceOpaqueId spc) relPath)) (\<lambda>ref.
     bnd (rpc_call (gw_Stat (E_gw X)) EvStat (authCtx fs) ref) (\<lambda>statResp.
     ret (toFileInfos [StatInfo statResp] ! 0))))))"

end
