(* ===== verification/FileHandler.thy ===== *)
theory FileHandler
  imports Vfs
begin

text \<open>
  pkg/vfs/filehandler.go: the handler of an open file, an io.ReaderAt and io.WriterAt over a
  cache of the whole file. The first access downloads the file; every write changes the
  cache and uploads all of it. The state of an operation is the world and the handler.
  The HTTP client of the handler has no state the code reads; it is \<open>E_http X\<close>.
\<close>

subsection \<open>State\<close>

datatype rwmutex = Unlocked | RLocked nat | WLocked

text \<open>\<open>h_cache = None\<close> is the nil slice a handler starts with.\<close>

record handler =
  h_ref :: reference
  h_filepath :: string
  h_flags :: "32 word"
  h_mu :: rwmutex
  h_cache :: "byte list option"
  h_cacheValid :: bool
  h_fileSize :: int
  h_etag :: string

definition newSftpFileHandler :: "reference \<Rightarrow> string \<Rightarrow> 32 word \<Rightarrow> handler" where
  "newSftpFileHandler ref filepath flags =
     \<lparr>h_ref = ref, h_filepath = filepath, h_flags = flags, h_mu = Unlocked, h_cache = None,
      h_cacheValid = False, h_fileSize = 0, h_etag = []\<rparr>"

text \<open>The bytes of the cache; the nil slice has none.\<close>

definition bytes_of :: "handler \<Rightarrow> byte list" where
  "bytes_of h = (case h_cache h of None \<Rightarrow> [] | Some c \<Rightarrow> c)"

type_synonym ('w, 'c, 'a) hgo = "('w \<times> handler, 'c event, 'a) go"

definition get_h :: "('w, 'c, handler) hgo" where
  "get_h = bnd get_st (\<lambda>(w, h). ret h)"

definition set_h :: "(handler \<Rightarrow> handler) \<Rightarrow> ('w, 'c, unit) hgo" where
  "set_h f = modify_st (\<lambda>(w, h). (w, f h))"

lemma wp_get_h [wp_rules]: "wp get_h Q (w, h) = Q (Ok h) [] (w, h)"
  by (simp add: get_h_def wp_rules)

lemma wp_set_h [wp_rules]: "wp (set_h f) Q (w, h) = Q (Ok ()) [] (w, f h)"
  by (simp add: set_h_def wp_rules)

text \<open>A step on the handler alone, in front of the rest of an operation.\<close>

lemma bnd_get_h: "bnd get_h f (w, h) = f h (w, h)"
  by (simp add: get_h_def go_defs split: prod.splits result.splits)

lemma bnd_set_h: "bnd (set_h g) f (w, h) = f () (w, g h)"
  by (simp add: set_h_def go_defs split: prod.splits result.splits)

lemma set_h_run: "set_h f (w, h) = (Ok (), [], (w, f h))"
  by (simp add: set_h_def modify_st_def)

lemma wp_handler_step:
  "wp (bnd get_h f) Q (w, h) = wp (f h) Q (w, h)"
  "wp (bnd (set_h g) f') Q (w, h) = wp (f' ()) Q (w, g h)"
  by (simp_all add: wp_def bnd_get_h bnd_set_h)

text \<open>
  sync.RWMutex for one goroutine at a time: taking a lock that is held in an incompatible
  mode blocks, releasing one that is not held is fatal.
\<close>

definition mu_Lock :: "('w, 'c, unit) hgo" where
  "mu_Lock = bnd get_h (\<lambda>h. case h_mu h of
      Unlocked \<Rightarrow> set_h (h_mu_update (\<lambda>_. WLocked))
    | _ \<Rightarrow> abort Blocked)"

definition mu_Unlock :: "('w, 'c, unit) hgo" where
  "mu_Unlock = bnd get_h (\<lambda>h. case h_mu h of
      WLocked \<Rightarrow> set_h (h_mu_update (\<lambda>_. Unlocked))
    | _ \<Rightarrow> abort FatalUnlock)"

definition mu_RLock :: "('w, 'c, unit) hgo" where
  "mu_RLock = bnd get_h (\<lambda>h. case h_mu h of
      Unlocked \<Rightarrow> set_h (h_mu_update (\<lambda>_. RLocked 1))
    | RLocked n \<Rightarrow> set_h (h_mu_update (\<lambda>_. RLocked (n + 1)))
    | WLocked \<Rightarrow> abort Blocked)"

definition mu_RUnlock :: "('w, 'c, unit) hgo" where
  "mu_RUnlock = bnd get_h (\<lambda>h. case h_mu h of
      RLocked n \<Rightarrow> set_h (h_mu_update (\<lambda>_. if n \<le> 1 then Unlocked else RLocked (n - 1)))
    | _ \<Rightarrow> abort FatalUnlock)"

lemma wp_mu [wp_rules]:
  "wp mu_Lock Q (w, h) = (case h_mu h of
      Unlocked \<Rightarrow> Q (Ok ()) [] (w, h\<lparr>h_mu := WLocked\<rparr>) | _ \<Rightarrow> Q (Abort Blocked) [] (w, h))"
  "wp mu_Unlock Q (w, h) = (case h_mu h of
      WLocked \<Rightarrow> Q (Ok ()) [] (w, h\<lparr>h_mu := Unlocked\<rparr>) | _ \<Rightarrow> Q (Abort FatalUnlock) [] (w, h))"
  "wp mu_RLock Q (w, h) = (case h_mu h of
      Unlocked \<Rightarrow> Q (Ok ()) [] (w, h\<lparr>h_mu := RLocked 1\<rparr>)
    | RLocked n \<Rightarrow> Q (Ok ()) [] (w, h\<lparr>h_mu := RLocked (n + 1)\<rparr>)
    | WLocked \<Rightarrow> Q (Abort Blocked) [] (w, h))"
  "wp mu_RUnlock Q (w, h) = (case h_mu h of
      RLocked n \<Rightarrow> Q (Ok ()) [] (w, h\<lparr>h_mu := if n \<le> 1 then Unlocked else RLocked (n - 1)\<rparr>)
    | _ \<Rightarrow> Q (Abort FatalUnlock) [] (w, h))"
  by (simp_all add: mu_Lock_def mu_Unlock_def mu_RLock_def mu_RUnlock_def wp_rules
      split: rwmutex.split)

subsection \<open>Helpers\<close>

definition extractAuthToken :: "'c ctxlib \<Rightarrow> 'c \<Rightarrow> string result" where
  "extractAuthToken C ctx =
     (case FromOutgoingContext C ctx of
        None \<Rightarrow> Err (Errorf ''no metadata in context'' [])
      | Some md \<Rightarrow>
          (let tokens = md ''x-access-token'' in
           if length tokens = 0 then
             (let tokens = md ''authorization'' in
              if length tokens = 0 then Err (Errorf ''no auth token found'' [])
              else Ok (tokens ! 0))
           else Ok (tokens ! 0)))"

text \<open>The loop over the protocols: endpoint and token of the first simple or spaces one.\<close>

fun pick_protocol :: "transfer_protocol list \<Rightarrow> string \<times> string" where
  "pick_protocol [] = ([], [])"
| "pick_protocol (proto # ps) =
     (if Protocol proto = ''simple'' \<or> Protocol proto = ''spaces''
      then (Endpoint proto, TransferToken proto) else pick_protocol ps)"

definition with_auth :: "('w, 'c) env \<Rightarrow> 'c root \<Rightarrow> string \<Rightarrow> http_request \<Rightarrow> http_request" where
  "with_auth X fs transferToken httpReq =
     (let httpReq = (case extractAuthToken (E_ctx X) (authCtx fs) of
            Ok token \<Rightarrow> add_header ''X-Access-Token'' token httpReq
          | _ \<Rightarrow> httpReq)
      in if transferToken \<noteq> [] then add_header ''X-Reva-Transfer'' transferToken httpReq
         else httpReq)"

lemma with_auth_simps [simp]:
  "HttpMethod (with_auth X fs t q) = HttpMethod q"
  "HttpURL (with_auth X fs t q) = HttpURL q"
  "HttpBody (with_auth X fs t q) = HttpBody q"
  "HttpContentLength (with_auth X fs t q) = HttpContentLength q"
  by (simp_all add: with_auth_def Let_def split: result.split)

definition string_of_bytes :: "byte list \<Rightarrow> string" where
  "string_of_bytes b = map (\<lambda>x. char_of (unat x)) b"

subsection \<open>Reading from the cache\<close>

text \<open>The result of a read: the count, the caller's buffer afterwards, and the error.\<close>

type_synonym read_res = "nat \<times> byte list \<times> go_error option"

definition readFromCache :: "byte list \<Rightarrow> int \<Rightarrow> ('w, 'c, read_res) hgo" where
  "readFromCache b off =
     bnd mu_RLock (\<lambda>_. with_defer mu_RUnlock (
     bnd get_h (\<lambda>h.
     if off \<ge> h_fileSize h then ret (0, b, Some EOF)
     else
     bnd (of_result (slice_from (bytes_of h) off)) (\<lambda>src.
     case go_copy b src of (n, b') \<Rightarrow>
     if int64 (off + int n) \<ge> h_fileSize h then ret (n, b', Some EOF)
     else ret (n, b', None)))))"

subsection \<open>Download\<close>

definition downloadFile :: "('w, 'c) env \<Rightarrow> 'c root \<Rightarrow> ('w, 'c, unit) hgo" where
  "downloadFile X fs =
     bnd get_h (\<lambda>h.
     bnd (on_world (call_Next X)) (\<lambda>_.
     bnd (on_world (rpc_call (gw_Stat (E_gw X)) EvStat (authCtx fs) (h_ref h))) (\<lambda>statResp.
     bnd (deref (StatStatus statResp)) (\<lambda>st.
     if StatusCode st \<noteq> CODE_OK \<and> StatusCode st \<noteq> CODE_NOT_FOUND then
       fail (Errorf ''stat failed: %s'' [FStr (StatusMessage st)])
     else if StatusCode st = CODE_NOT_FOUND then
       bnd mu_Lock (\<lambda>_.
       bnd (set_h (\<lambda>h. h\<lparr>h_cache := Some [], h_cacheValid := True, h_fileSize := 0\<rparr>)) (\<lambda>_.
       mu_Unlock))
     else
     bnd (on_world (rpc_call (gw_InitiateFileDownload (E_gw X)) EvInitiateFileDownload
            (authCtx fs) (h_ref h))) (\<lambda>resp.
     bnd (deref (TransferStatus resp)) (\<lambda>st.
     if StatusCode st \<noteq> CODE_OK then
       fail (Errorf ''initiate download failed: %s'' [FStr (StatusMessage st)])
     else
     case pick_protocol (Protocols resp) of (downloadEndpoint, downloadToken) \<Rightarrow>
     if downloadEndpoint = [] then fail (Errorf ''no suitable download protocol found'' [])
     else
     bnd (of_result (NewRequest X ''GET'' downloadEndpoint [])) (\<lambda>httpReq.
     bnd (on_world (call_Do X (with_auth X fs downloadToken httpReq))) (\<lambda>httpResp.
     if HttpStatusCode httpResp \<noteq> 200 then
       fail (Errorf ''download failed with status: %d'' [FInt (HttpStatusCode httpResp)])
     else
     bnd (of_result (ReadAll X httpResp)) (\<lambda>(content, err).
     case err of Some err \<Rightarrow> fail err | None \<Rightarrow>
     bnd mu_Lock (\<lambda>_.
     bnd (set_h (\<lambda>h. h\<lparr>h_cache := Some content, h_cacheValid := True,
                      h_fileSize := int (length content), h_etag := HttpETag httpResp\<rparr>)) (\<lambda>_.
     mu_Unlock)))))))))))"

subsection \<open>Upload\<close>

definition uploadFile :: "('w, 'c) env \<Rightarrow> 'c root \<Rightarrow> ('w, 'c, unit) hgo" where
  "uploadFile X fs =
     bnd get_h (\<lambda>h.
     bnd (on_world (call_Next X)) (\<lambda>_.
     bnd (on_world (rpc_call (gw_InitiateFileUpload (E_gw X)) EvInitiateFileUpload (authCtx fs)
            \<lparr>UploadRef = h_ref h,
             UploadOpaque = [(''Upload-Length'', ''plain'', FormatInt (h_fileSize h))],
             IfMatch = (if h_etag h \<noteq> [] then Some (h_etag h) else None)\<rparr>)) (\<lambda>resp.
     bnd (deref (TransferStatus resp)) (\<lambda>st.
     if StatusCode st \<noteq> CODE_OK then
       fail (Errorf ''initiate upload failed: %s'' [FStr (StatusMessage st)])
     else
     case pick_protocol (Protocols resp) of (uploadEndpoint, uploadToken) \<Rightarrow>
     if uploadEndpoint = [] then fail (Errorf ''no suitable upload protocol found'' [])
     else
     bnd (of_result (slice_to (bytes_of h) (h_fileSize h))) (\<lambda>body.
     bnd (of_result (NewRequest X ''PUT'' uploadEndpoint body)) (\<lambda>httpReq.
     bnd (on_world (call_Do X (with_auth X fs uploadToken
            (httpReq\<lparr>HttpContentLength := h_fileSize h\<rparr>)))) (\<lambda>httpResp.
     if HttpStatusCode httpResp \<noteq> 200 then
       bnd (of_result (ReadAll X httpResp)) (\<lambda>(body, _).
       fail (Errorf ''upload failed with status %d: %s''
               [FInt (HttpStatusCode httpResp), FStr (string_of_bytes body)]))
     else if HttpETag httpResp \<noteq> [] then set_h (\<lambda>h. h\<lparr>h_etag := HttpETag httpResp\<rparr>)
     else ret ())))))))"

subsection \<open>The interface of an open file\<close>

definition ReadAt :: "('w, 'c) env \<Rightarrow> 'c root \<Rightarrow> byte list \<Rightarrow> int \<Rightarrow> ('w, 'c, read_res) hgo" where
  "ReadAt X fs b off =
     bnd mu_RLock (\<lambda>_.
     bnd get_h (\<lambda>h.
     if h_cacheValid h \<and> h_cache h \<noteq> None then
       bnd mu_RUnlock (\<lambda>_. readFromCache b off)
     else
     bnd mu_RUnlock (\<lambda>_.
     bnd (try_go (downloadFile X fs)) (\<lambda>d.
     case d of Inl err \<Rightarrow> ret (0, b, Some err) | Inr _ \<Rightarrow> readFromCache b off))))"

text \<open>
  The section of WriteAt that holds the lock: the bytes are put into the cache, which grows
  when they end beyond it, and the cache is uploaded. A write returns the count and the error.
\<close>

definition write_cache :: "('w, 'c) env \<Rightarrow> byte list \<Rightarrow> int \<Rightarrow> ('w, 'c, nat) hgo" where
  "write_cache X b off =
     bnd get_h (\<lambda>h.
     let requiredSize = int64 (off + int (length b)) in
     bnd (if int (length (bytes_of h)) < requiredSize then
            bnd (of_result (make_bytes (E_max_alloc X) requiredSize)) (\<lambda>newCache.
            set_h (\<lambda>h. h\<lparr>h_cache := Some (snd (go_copy newCache (bytes_of h))),
                         h_fileSize := requiredSize\<rparr>))
          else ret ()) (\<lambda>_.
     bnd get_h (\<lambda>h.
     bnd (of_result (slice_from (bytes_of h) off)) (\<lambda>dst.
     case go_copy dst b of (n, dst') \<Rightarrow>
     bnd (set_h (\<lambda>h. h\<lparr>h_cache := map_option (\<lambda>c. take (nat off) c @ dst') (h_cache h)\<rparr>)) (\<lambda>_.
     ret n)))))"

definition upload_counted :: "('w, 'c) env \<Rightarrow> 'c root \<Rightarrow> nat \<Rightarrow> ('w, 'c, nat \<times> go_error option) hgo" where
  "upload_counted X fs n =
     bnd (try_go (uploadFile X fs)) (\<lambda>u.
     case u of Inl err \<Rightarrow> ret (n, Some err) | Inr _ \<Rightarrow> ret (n, None))"

definition write_locked ::
    "('w, 'c) env \<Rightarrow> 'c root \<Rightarrow> byte list \<Rightarrow> int \<Rightarrow> ('w, 'c, nat \<times> go_error option) hgo" where
  "write_locked X fs b off = bnd (write_cache X b off) (upload_counted X fs)"

definition WriteAt :: "('w, 'c) env \<Rightarrow> 'c root \<Rightarrow> byte list \<Rightarrow> int \<Rightarrow> ('w, 'c, nat \<times> go_error option) hgo" where
  "WriteAt X fs b off =
     bnd get_h (\<lambda>h.
     bnd (if \<not> h_cacheValid h then bnd (try_go (downloadFile X fs)) (\<lambda>_. ret ()) else ret ()) (\<lambda>_.
     bnd mu_Lock (\<lambda>_. with_defer mu_Unlock (write_locked X fs b off))))"

text \<open>The section of Truncate that resizes the cache and uploads it, with the lock held.\<close>

definition resize_cache :: "('w, 'c) env \<Rightarrow> int \<Rightarrow> ('w, 'c, unit) hgo" where
  "resize_cache X sz =
     bnd get_h (\<lambda>h.
     bnd (if sz = 0 then set_h (\<lambda>h. h\<lparr>h_cache := Some []\<rparr>)
          else if sz < int (length (bytes_of h)) then
            bnd (of_result (slice_to (bytes_of h) sz)) (\<lambda>c. set_h (\<lambda>h. h\<lparr>h_cache := Some c\<rparr>))
          else
            bnd (of_result (make_bytes (E_max_alloc X) sz)) (\<lambda>newCache.
            set_h (\<lambda>h. h\<lparr>h_cache := Some (snd (go_copy newCache (bytes_of h)))\<rparr>))) (\<lambda>_.
     set_h (\<lambda>h. h\<lparr>h_fileSize := sz\<rparr>)))"

definition resize_locked :: "('w, 'c) env \<Rightarrow> 'c root \<Rightarrow> int \<Rightarrow> ('w, 'c, unit) hgo" where
  "resize_locked X fs sz = bnd (resize_cache X sz) (\<lambda>_. uploadFile X fs)"

definition Truncate :: "('w, 'c) env \<Rightarrow> 'c root \<Rightarrow> int \<Rightarrow> ('w, 'c, unit) hgo" where
  "Truncate X fs sz =
     bnd mu_Lock (\<lambda>_. with_defer mu_Unlock (
     if sz < 0 then fail (Errorf ''negative size not allowed'' [])
     else
     bnd get_h (\<lambda>h.
     bnd (if \<not> h_cacheValid h then
            bnd mu_Unlock (\<lambda>_. bnd (downloadFile X fs) (\<lambda>_. mu_Lock))
          else ret ()) (\<lambda>_.
     resize_locked X fs sz))))"

end
