(* ===== verification/Auth.thy ===== *)
theory Auth
  imports FileHandler
begin

text \<open>
  pkg/server/auth: public-key authentication. keystore.go loads the keys a user keeps in the
  .ssh folder of the personal space; handler.go impersonates the user to load them and
  compares the offered key with each.
\<close>

subsection \<open>keystore.go\<close>

definition pub_key_ref :: "('w, 'c) env \<Rightarrow> resource_id \<Rightarrow> string \<Rightarrow> reference" where
  "pub_key_ref X resourceID fileName =
     \<lparr>RefResourceId = resourceID,
      RefPath = MakeRelativePath (E_reva X) (path_Join [''/.ssh'', fileName])\<rparr>"

text \<open>
  downloadPublicKey. \<open>err != nil || fdres.Status.Code != OK\<close> looks at the status only when the
  call gave no error, and panics when it has none.
\<close>

definition downloadPublicKey ::
    "('w, 'c) env \<Rightarrow> 'c \<Rightarrow> resource_id \<Rightarrow> string \<Rightarrow> string \<Rightarrow> ('w, 'c event, public_key) go" where
  "downloadPublicKey X ctx resourceID fileName token =
     bnd (map_err (\<lambda>err. Errorf ''failed to get gateway client: %w'' [FWrap err]) (call_Next X)) (\<lambda>_.
     bnd (map_err (\<lambda>err. Errorf ''failed to initiate download for %s: %v'' [FStr fileName, FErr (Some err)])
            (rpc_call (gw_InitiateFileDownload (E_gw X)) EvInitiateFileDownload ctx
               (pub_key_ref X resourceID fileName))) (\<lambda>fdres.
     bnd (deref (TransferStatus fdres)) (\<lambda>st.
     if StatusCode st \<noteq> CODE_OK then
       fail (Errorf ''failed to initiate download for %s: %v'' [FStr fileName, FErr None])
     else
     case pick_protocol (Protocols fdres) of (downloadEndpoint, downloadToken) \<Rightarrow>
     if downloadEndpoint = [] then
       fail (Errorf ''no suitable download protocol found for %s'' [FStr fileName])
     else
     bnd (map_err (\<lambda>err. Errorf ''failed to create HTTP request for %s: %w'' [FStr fileName, FWrap err])
            (of_result (NewRequest X ''GET'' downloadEndpoint []))) (\<lambda>httpReq.
     bnd (map_err (\<lambda>err. Errorf ''failed to download %s: %w'' [FStr fileName, FWrap err])
            (call_Do X (add_header ''X-Reva-Transfer'' downloadToken
               (add_header ''X-Access-Token'' token httpReq)))) (\<lambda>dlRes.
     if HttpStatusCode dlRes \<noteq> 200 then
       fail (Errorf ''download failed for %s with status %d''
              [FStr fileName, FInt (HttpStatusCode dlRes)])
     else
     bnd (of_result (ReadAll X dlRes)) (\<lambda>(rawPubKey, err).
     case err of
       Some err \<Rightarrow> fail (Errorf ''failed to read %s content: %w'' [FStr fileName, FWrap err])
     | None \<Rightarrow>
     map_err (\<lambda>err. Errorf ''failed to parse public key from %s: %w'' [FStr fileName, FWrap err])
       (of_result (result_of_sum (ParseAuthorizedKey (E_ssh X) rawPubKey)))))))))"

text \<open>The loop over the entries of the .ssh directory.\<close>

fun load_keys_loop ::
    "('w, 'c) env \<Rightarrow> 'c \<Rightarrow> resource_id \<Rightarrow> resource_info list \<Rightarrow> ('w, 'c event, public_key list) go" where
  "load_keys_loop X ctx resourceID [] = ret []"
| "load_keys_loop X ctx resourceID (info # infos) =
     (if InfoType info \<noteq> RESOURCE_TYPE_FILE then load_keys_loop X ctx resourceID infos
      else if \<not> HasSuffix (InfoPath info) ''.pub'' then load_keys_loop X ctx resourceID infos
      else
      case ContextGetToken (E_ctx X) ctx of
        None \<Rightarrow> fail (Errorf ''failed to get token from context'' [])
      | Some token \<Rightarrow>
          bnd (try_go (downloadPublicKey X ctx resourceID (InfoPath info) token)) (\<lambda>res.
          case res of
            Inl err \<Rightarrow> load_keys_loop X ctx resourceID infos
          | Inr pubKey \<Rightarrow>
              bnd (load_keys_loop X ctx resourceID infos) (\<lambda>keys. ret (pubKey # keys))))"

definition LoadKeys ::
    "('w, 'c) env \<Rightarrow> 'c \<Rightarrow> string \<Rightarrow> ('w, 'c event, public_key list) go" where
  "LoadKeys X ctx userName =
     bnd (map_err (\<lambda>err. Errorf ''failed to get gateway client: %w'' [FWrap err]) (call_Next X)) (\<lambda>_.
     case ContextGetUser (E_ctx X) ctx of
       None \<Rightarrow> fail (Errorf ''failed to get user from context'' [])
     | Some user \<Rightarrow>
     bnd (map_err (\<lambda>err. Errorf ''failed to list storage spaces for user %s: %v'' [FStr userName, FErr (Some err)])
            (rpc_call (gw_ListStorageSpaces (E_gw X)) EvListStorageSpaces ctx
               \<lparr>FieldMaskPaths = [''*''],
                Filters = [FilterSpaceType ''personal'', FilterOwner (UserIdOf user)]\<rparr>)) (\<lambda>lSSRes.
     bnd (deref (SpacesStatus lSSRes)) (\<lambda>st.
     if StatusCode st \<noteq> CODE_OK then
       fail (Errorf ''failed to list storage spaces for user %s: %v'' [FStr userName, FErr None])
     else
     case StorageSpaces lSSRes of
       [primarySpace] \<Rightarrow>
     bnd (map_err (\<lambda>err. Errorf ''failed to parse storage space ID: %w'' [FWrap err])
            (of_result (result_of_sum (ParseID (E_reva X) (SpaceOpaqueId primarySpace))))) (\<lambda>resourceID.
     bnd (map_err (\<lambda>err. Errorf ''failed to get gateway client: %w'' [FWrap err]) (call_Next X)) (\<lambda>_.
     bnd (map_err (\<lambda>err. Errorf ''failed to list .ssh directory for user %s: %v'' [FStr userName, FErr (Some err)])
            (rpc_call (gw_ListContainer (E_gw X)) EvListContainer ctx
               \<lparr>RefResourceId = resourceID, RefPath = MakeRelativePath (E_reva X) ''/.ssh''\<rparr>)) (\<lambda>hr.
     bnd (deref (ListStatus hr)) (\<lambda>st.
     if StatusCode st \<noteq> CODE_OK then
       fail (Errorf ''failed to list .ssh directory for user %s: %v'' [FStr userName, FErr None])
     else load_keys_loop X ctx resourceID (ListInfos hr)))))
     | spaces \<Rightarrow>
       fail (Errorf ''expected exactly one personal storage space for user %s, got %d''
              [FStr userName, FInt (int (length spaces))]))))"

text \<open>PubKeyStorage is an interface with one method; SpaceKeyStorage implements it by LoadKeys.\<close>

type_synonym ('w, 'c) key_storage = "'c \<Rightarrow> string \<Rightarrow> ('w, 'c event, public_key list) go"

definition NewSpaceKeyStorage :: "('w, 'c) env \<Rightarrow> ('w, 'c) key_storage" where
  "NewSpaceKeyStorage X = LoadKeys X"

subsection \<open>handler.go\<close>

text \<open>
  The connection's ssh.Context: the user name, the context it is, and the two values the
  handler stores under "uid" and "token". \<open>Some None\<close> is a nil user id that was stored.
\<close>

record 'c ssh_ctx =
  ssh_user :: string
  ssh_base :: 'c
  ssh_uid :: "userid option option"
  ssh_token :: "string option"

definition auth_user_id :: "auth_res \<Rightarrow> userid option" where
  "auth_user_id authRes = (case AuthUser authRes of None \<Rightarrow> None | Some u \<Rightarrow> UserIdOf u)"

definition machine_auth :: "string \<Rightarrow> string \<Rightarrow> auth_req" where
  "machine_auth userName apiKey =
     \<lparr>AuthType = ''machine'', ClientId = ''username:'' @ userName, ClientSecret = apiKey\<rparr>"

definition granteeCtx :: "'c ctxlib \<Rightarrow> 'c \<Rightarrow> auth_res \<Rightarrow> 'c" where
  "granteeCtx C ctx authRes =
     (let granteeCtx = ContextSetUser C ctx \<lparr>UserIdOf = auth_user_id authRes\<rparr>;
          granteeCtx = AppendToOutgoingContext C granteeCtx (TokenHeader C) (AuthToken authRes)
      in ContextSetToken C granteeCtx (AuthToken authRes))"

fun key_matches :: "sshlib \<Rightarrow> public_key \<Rightarrow> public_key list \<Rightarrow> bool" where
  "key_matches S key [] = False"
| "key_matches S key (storedKey # keys) = (if KeysEqual S storedKey key then True else key_matches S key keys)"

definition HandlePubKey ::
    "('w, 'c) env \<Rightarrow> ('w, 'c) key_storage \<Rightarrow> string \<Rightarrow> public_key \<Rightarrow> ('w \<times> 'c ssh_ctx, 'c event, bool) go" where
  "HandlePubKey X ks apiKey key =
     bnd get_st (\<lambda>(_, ctx).
     let userName = ssh_user ctx in
     bnd (try_go (on_world (call_Next X))) (\<lambda>gw.
     case gw of Inl _ \<Rightarrow> ret False | Inr _ \<Rightarrow>
     bnd (try_go (on_world (rpc_call (gw_Authenticate (E_gw X)) EvAuthenticate (Background (E_ctx X))
            (machine_auth userName apiKey)))) (\<lambda>authRes.
     case authRes of Inl _ \<Rightarrow> ret False | Inr authRes \<Rightarrow>
     bnd (deref (AuthStatus authRes)) (\<lambda>st.
     if StatusCode st \<noteq> CODE_OK then ret False
     else
     bnd (try_go (on_world (ks (granteeCtx (E_ctx X) (ssh_base ctx) authRes) userName))) (\<lambda>availableKeys.
     case availableKeys of Inl _ \<Rightarrow> ret False | Inr availableKeys \<Rightarrow>
     if key_matches (E_ssh X) key availableKeys then
       bnd (modify_st (\<lambda>(w, ctx). (w, ctx\<lparr>ssh_uid := Some (auth_user_id authRes),
                                       ssh_token := Some (AuthToken authRes)\<rparr>))) (\<lambda>_. ret True)
     else ret False)))))"

text \<open>NewPubKeyAuthHandler: the handler as a function of the offered key.\<close>

definition NewPubKeyAuthHandler ::
    "('w, 'c) env \<Rightarrow> ('w, 'c) key_storage \<Rightarrow> string \<Rightarrow> public_key \<Rightarrow> ('w \<times> 'c ssh_ctx, 'c event, bool) go" where
  "NewPubKeyAuthHandler X ks machineAuthAPIKey = HandlePubKey X ks machineAuthAPIKey"

end
