(* ===== verification/AuthContract.thy ===== *)
theory AuthContract
  imports Auth SpaceLookup
begin

text \<open>
  The contract of a public-key storage, as the authentication handler relies on it, and the
  handler's own correctness from that contract alone. The storage of keystore.go keeps it.
\<close>

subsection \<open>The contract\<close>

text \<open>What a run of the handler ends in: the key is accepted, or nothing happened.\<close>

definition key_accepted ::
    "('w, 'c) env \<Rightarrow> ('c \<Rightarrow> 'c event list \<Rightarrow> public_key \<Rightarrow> bool) \<Rightarrow> string \<Rightarrow> public_key \<Rightarrow>
     'c ssh_ctx \<Rightarrow> bool result \<Rightarrow> 'c event list \<Rightarrow> 'c ssh_ctx \<Rightarrow> bool" where
  "key_accepted X source apiKey key c r l c' \<longleftrightarrow> (\<exists>pre l' authRes k.
     r = Ok True \<and> l = pre @ l' \<and>
     EvAuthenticate (Background (E_ctx X)) (machine_auth (ssh_user c) apiKey) (Inr authRes) \<in> set pre \<and>
     GetCode (AuthStatus authRes) = CODE_OK \<and>
     source (granteeCtx (E_ctx X) (ssh_base c) authRes) l' k \<and> KeysEqual (E_ssh X) k key \<and>
     c' = c\<lparr>ssh_uid := Some (auth_user_id authRes), ssh_token := Some (AuthToken authRes)\<rparr>)"

definition key_refused :: "bool result \<Rightarrow> 'c ssh_ctx \<Rightarrow> 'c ssh_ctx \<Rightarrow> bool" where
  "key_refused r c c' \<longleftrightarrow> c' = c \<and> r \<noteq> Ok True \<and> (\<forall>e. r \<noteq> Err e)"

text \<open>
  \<open>source ctx l k\<close>: the log \<open>l\<close> justifies that \<open>k\<close> is a key of the user \<open>ctx\<close> stands for.
\<close>

locale pub_key_storage =
  fixes X :: "('w, 'c) env" and load :: "('w, 'c) key_storage"
    and source :: "'c \<Rightarrow> 'c event list \<Rightarrow> public_key \<Rightarrow> bool"
  assumes quiet: "load ctx u w = (r, l, w') \<Longrightarrow> list_all (\<lambda>e. \<not> ev_mutates e \<and> ev_ctx e \<in> {None, Some ctx}) l"
    and justified: "load ctx u w = (Ok keys, l, w') \<Longrightarrow> k \<in> set keys \<Longrightarrow> source ctx l k"
begin

lemma key_matches_ex: "key_matches S key keys \<Longrightarrow> \<exists>k \<in> set keys. KeysEqual S k key"
  by (induction keys) (auto split: if_splits)

lemma wp_load:
  "wp (on_world (load ctx u)) (\<lambda>r l (w', c'). c' = c \<and> (\<forall>keys. r = Ok keys \<longrightarrow> (\<forall>k \<in> set keys. source ctx l k))) (w, c)"
  by (auto simp: wp_on_world intro!: wpI dest: justified)

lemma wp_handle:
  "wp (HandlePubKey X load apiKey key) (\<lambda>r l (w', c'). key_accepted X source apiKey key c r l c' \<or> key_refused r c c') (w, c)"
proof -
  have acc: "key_accepted X source apiKey key c (Ok True) (EvNext n # EvAuthenticate (Background (E_ctx X))
        (machine_auth (ssh_user c) apiKey) (Inr authRes) # l')
      (c\<lparr>ssh_uid := Some (auth_user_id authRes), ssh_token := Some (AuthToken authRes)\<rparr>)"
    if k: "key_matches (E_ssh X) key keys" "\<And>k. k \<in> set keys \<Longrightarrow> source (granteeCtx (E_ctx X) (ssh_base c) authRes) l' k"
      "GetCode (AuthStatus authRes) = CODE_OK" for keys n l' authRes
    unfolding key_accepted_def
    by (rule exI [of _ "[EvNext n, EvAuthenticate (Background (E_ctx X)) (machine_auth (ssh_user c) apiKey) (Inr authRes)]"])
      (use k key_matches_ex [OF k(1)] in auto)
  have load: "wp (on_world (load (granteeCtx (E_ctx X) (ssh_base c) authRes) (ssh_user c))) Q (w1, c)"
    if "\<And>r l w'. (\<And>keys k. r = Ok keys \<Longrightarrow> k \<in> set keys \<Longrightarrow>
        source (granteeCtx (E_ctx X) (ssh_base c) authRes) l k) \<Longrightarrow> Q r l (w', c)" for Q w1 authRes
    by (rule wp_mono [OF wp_load]) (use that in auto)
  show ?thesis
    unfolding HandlePubKey_def Let_def
    by (auto simp: wp_bnd wp_get_st wp_try_go wp_on_world [of "call_Next X"] wp_on_world [of "rpc_call f g c q" for f g c q]
        wp_call_Next wp_rpc_call wp_ret wp_modify_st wp_abort deref_def key_refused_def GetCode_def
        split: rpc_splits intro!: load acc)
qed

text \<open>The handler itself changes nothing in the storage, and acts for nobody but the user it checks.\<close>

lemma wp_handle_quiet:
  "wp (HandlePubKey X load apiKey key) (\<lambda>r l s. list_all (\<lambda>e. \<not> ev_mutates e) l) s"
proof -
  have "emits (\<lambda>e. \<not> ev_mutates e) (load ctx u)" for ctx u
    by (rule emitsI, drule quiet) (simp add: list_all_iff)
  then have "emits (\<lambda>e. \<not> ev_mutates e) (HandlePubKey X load apiKey key)"
    unfolding HandlePubKey_def Let_def
    by (intro emit_rules; simp)
  then show ?thesis unfolding emits_def by blast
qed

end

subsection \<open>The keys of a personal space\<close>

text \<open>
  A key was downloaded: the gateway gave a location for the reference, and a GET there was
  answered 200 with a body that parses as the key.
\<close>

definition downloaded_key :: "('w, 'c) env \<Rightarrow> 'c \<Rightarrow> reference \<Rightarrow> 'c event list \<Rightarrow> public_key \<Rightarrow> bool" where
  "downloaded_key X ctx ref l k \<longleftrightarrow> (\<exists>dres endpoint tok q resp.
     EvInitiateFileDownload ctx ref (Inr dres) \<in> set l \<and> GetCode (TransferStatus dres) = CODE_OK \<and>
     pick_protocol (Protocols dres) = (endpoint, tok) \<and> endpoint \<noteq> [] \<and>
     EvHttp q (Inr resp) \<in> set l \<and> HttpMethod q = ''GET'' \<and> HttpURL q = endpoint \<and>
     HttpStatusCode resp = 200 \<and> HttpResBodyErr resp = None \<and>
     ParseAuthorizedKey (E_ssh X) (HttpResBody resp) = Inr k)"

lemma downloaded_key_mono: "downloaded_key X ctx ref l k \<Longrightarrow> set l \<subseteq> set l' \<Longrightarrow> downloaded_key X ctx ref l' k"
  unfolding downloaded_key_def by blast

lemma downloaded_keyI:
  assumes "GetCode (TransferStatus dres) = CODE_OK" "pick_protocol (Protocols dres) = (endpoint, tok)" "endpoint \<noteq> []"
    "HttpMethod q = ''GET''" "HttpURL q = endpoint"
    "HttpStatusCode resp = 200" "HttpResBodyErr resp = None" "ParseAuthorizedKey (E_ssh X) (HttpResBody resp) = Inr k"
  shows "downloaded_key X ctx ref [EvNext n, EvInitiateFileDownload ctx ref (Inr dres), EvHttp q (Inr resp)] k"
  unfolding downloaded_key_def using assms by (intro exI conjI) (assumption | simp)+

lemma wp_downloadPublicKey:
  "wp (downloadPublicKey X ctx rid f t) (\<lambda>r l w'.
     \<forall>k. r = Ok k \<longrightarrow> downloaded_key X ctx (pub_key_ref X rid f) l k) w"
  by (auto simp: downloadPublicKey_def wp_rules result_of_sum_def deref_def NewRequest_def ReadAll_def
      split: rpc_splits intro!: downloaded_keyI)

text \<open>The listing entries that are loaded: files whose path ends in ".pub".\<close>

definition is_pub_file :: "resource_info \<Rightarrow> bool" where
  "is_pub_file info \<longleftrightarrow> InfoType info = RESOURCE_TYPE_FILE \<and> HasSuffix (InfoPath info) ''.pub''"

lemma load_keys_loop_Cons:
  "load_keys_loop X ctx rid (info # infos) =
     (if is_pub_file info then
        case ContextGetToken (E_ctx X) ctx of
          None \<Rightarrow> fail (Errorf ''failed to get token from context'' [])
        | Some token \<Rightarrow>
          bnd (try_go (downloadPublicKey X ctx rid (InfoPath info) token)) (\<lambda>res.
          case res of
            Inl err \<Rightarrow> load_keys_loop X ctx rid infos
          | Inr pubKey \<Rightarrow> bnd (load_keys_loop X ctx rid infos) (\<lambda>keys. ret (pubKey # keys)))
      else load_keys_loop X ctx rid infos)"
  by (simp add: is_pub_file_def)

definition keys_from where
  "keys_from X ctx rid infos r l \<longleftrightarrow> (\<forall>keys. r = Ok keys \<longrightarrow> (\<forall>k \<in> set keys.
     \<exists>info \<in> set infos. is_pub_file info \<and> downloaded_key X ctx (pub_key_ref X rid (InfoPath info)) l k))"

lemma keys_from_failed [simp]: "keys_from X ctx rid infos (Err e) l" "keys_from X ctx rid infos (Abort a) l"
  by (simp_all add: keys_from_def)

lemma keys_from_skip:
  "keys_from X ctx rid infos r l \<Longrightarrow> keys_from X ctx rid (info # infos) r (pre @ l)"
  unfolding keys_from_def by (fastforce intro: downloaded_key_mono)

lemma keys_from_add:
  assumes "keys_from X ctx rid infos (Ok keys) l" "is_pub_file info"
    "downloaded_key X ctx (pub_key_ref X rid (InfoPath info)) pre k"
  shows "keys_from X ctx rid (info # infos) (Ok (k # keys)) (pre @ l)"
proof -
  have "downloaded_key X ctx (pub_key_ref X rid (InfoPath info)) (pre @ l) k"
    using assms(3) by (rule downloaded_key_mono) simp
  then show ?thesis
    using keys_from_skip [OF assms(1), of info pre] assms(2) unfolding keys_from_def by auto
qed

lemma wp_load_keys_loop:
  "wp (load_keys_loop X ctx rid infos) (\<lambda>r l w'. keys_from X ctx rid infos r l) w"
proof (induction infos arbitrary: w)
  case Nil
  then show ?case by (simp add: wp_ret keys_from_def)
next
  case (Cons info infos)
  have skip: "wp (load_keys_loop X ctx rid infos) (\<lambda>r l'. (\<lambda>w'. keys_from X ctx rid (info # infos) r (l @ l'))) w1" for l w1
    by (rule wp_mono [OF Cons.IH]) (rule keys_from_skip)
  have add: "wp (bnd (load_keys_loop X ctx rid infos) (\<lambda>keys. ret (k # keys)))
       (\<lambda>r l' w'. keys_from X ctx rid (info # infos) r (l @ l')) w1"
    if "is_pub_file info" "downloaded_key X ctx (pub_key_ref X rid (InfoPath info)) l k" for k l w1
    unfolding wp_bnd
    by (rule wp_mono [OF Cons.IH]) (use that in \<open>auto simp: wp_ret intro: keys_from_add split: result.split\<close>)
  have one: "wp (bnd (try_go (downloadPublicKey X ctx rid (InfoPath info) t)) (\<lambda>res. case res of
        Inl err \<Rightarrow> load_keys_loop X ctx rid infos
      | Inr pubKey \<Rightarrow> bnd (load_keys_loop X ctx rid infos) (\<lambda>keys. ret (pubKey # keys))))
      (\<lambda>r l w'. keys_from X ctx rid (info # infos) r l) w" if "is_pub_file info" for t
    unfolding wp_bnd [of "try_go m" for m] wp_try_go
    by (rule wp_mono [OF wp_downloadPublicKey]) (use that skip add in \<open>auto split: result.split\<close>)
  show ?case
    using skip [of "[]"] one
    by (cases "ContextGetToken (E_ctx X) ctx") (simp_all add: load_keys_loop_Cons wp_fail del: load_keys_loop.simps)
qed

text \<open>
  Where a loaded key comes from: the one personal space that the gateway lists for the user
  of the context, and in it a ".pub" file of the .ssh directory.
\<close>

definition stored_key :: "('w, 'c) env \<Rightarrow> 'c \<Rightarrow> 'c event list \<Rightarrow> public_key \<Rightarrow> bool" where
  "stored_key X ctx l k \<longleftrightarrow> (\<exists>user sres space rid hr info.
     ContextGetUser (E_ctx X) ctx = Some user \<and>
     EvListStorageSpaces ctx (FilterForPersonalSpace (UserIdOf user)) (Inr sres) \<in> set l \<and>
     GetCode (SpacesStatus sres) = CODE_OK \<and> StorageSpaces sres = [space] \<and>
     ParseID (E_reva X) (SpaceOpaqueId space) = Inr rid \<and>
     EvListContainer ctx \<lparr>RefResourceId = rid, RefPath = MakeRelativePath (E_reva X) ''/.ssh''\<rparr> (Inr hr) \<in> set l \<and>
     GetCode (ListStatus hr) = CODE_OK \<and> info \<in> set (ListInfos hr) \<and> is_pub_file info \<and>
     downloaded_key X ctx (pub_key_ref X rid (InfoPath info)) l k)"

lemma stored_keyI:
  assumes "keys_from X ctx rid (ListInfos hr) (Ok keys) l" "k \<in> set keys"
    "ContextGetUser (E_ctx X) ctx = Some user"
    "GetCode (SpacesStatus sres) = CODE_OK" "StorageSpaces sres = [space]"
    "ParseID (E_reva X) (SpaceOpaqueId space) = Inr rid" "GetCode (ListStatus hr) = CODE_OK"
    and pre: "EvListStorageSpaces ctx (FilterForPersonalSpace (UserIdOf user)) (Inr sres) \<in> set pre"
      "EvListContainer ctx \<lparr>RefResourceId = rid, RefPath = MakeRelativePath (E_reva X) ''/.ssh''\<rparr> (Inr hr) \<in> set pre"
  shows "stored_key X ctx (pre @ l) k"
proof -
  obtain info where info: "info \<in> set (ListInfos hr)" "is_pub_file info"
    and d: "downloaded_key X ctx (pub_key_ref X rid (InfoPath info)) l k"
    using assms(1,2) by (auto simp: keys_from_def)
  have "downloaded_key X ctx (pub_key_ref X rid (InfoPath info)) (pre @ l) k"
    using d by (rule downloaded_key_mono) simp
  then show ?thesis
    unfolding stored_key_def
    by (intro exI [of _ user] exI [of _ sres] exI [of _ space] exI [of _ rid] exI [of _ hr] exI [of _ info] conjI)
      (use assms(3-7) pre info in simp_all)
qed

definition keys_stored where
  "keys_stored X ctx r l \<longleftrightarrow> (\<forall>keys. r = Ok keys \<longrightarrow> (\<forall>k \<in> set keys. stored_key X ctx l k))"

lemma keys_stored_failed [simp]: "keys_stored X ctx (Err e) l" "keys_stored X ctx (Abort a) l"
  by (simp_all add: keys_stored_def)

lemma wp_loop_stored:
  assumes "ContextGetUser (E_ctx X) ctx = Some user" "GetCode (SpacesStatus sres) = CODE_OK"
      "StorageSpaces sres = [space]" "ParseID (E_reva X) (SpaceOpaqueId space) = Inr rid"
      "GetCode (ListStatus hr) = CODE_OK"
  shows "wp (load_keys_loop X ctx rid (ListInfos hr))
      (\<lambda>r l' w'. keys_stored X ctx r
        (n # EvListStorageSpaces ctx \<lparr>FieldMaskPaths = [''*''],
            Filters = [FilterSpaceType ''personal'', FilterOwner (UserIdOf user)]\<rparr> (Inr sres) # n' #
         EvListContainer ctx \<lparr>RefResourceId = rid, RefPath = MakeRelativePath (E_reva X) ''/.ssh''\<rparr> (Inr hr) # l')) w"
proof (rule wp_mono [OF wp_load_keys_loop], unfold keys_stored_def, intro allI impI ballI)
  fix r l keys k and s' :: 'a
  assume "keys_from X ctx rid (ListInfos hr) r l" "r = Ok keys" "k \<in> set keys"
  then have "stored_key X ctx ([n, EvListStorageSpaces ctx \<lparr>FieldMaskPaths = [''*''],
            Filters = [FilterSpaceType ''personal'', FilterOwner (UserIdOf user)]\<rparr> (Inr sres), n',
         EvListContainer ctx \<lparr>RefResourceId = rid, RefPath = MakeRelativePath (E_reva X) ''/.ssh''\<rparr> (Inr hr)] @ l) k"
    by (intro stored_keyI [OF _ _ assms]) (simp_all add: FilterForPersonalSpace_def)
  then show "stored_key X ctx (n # EvListStorageSpaces ctx \<lparr>FieldMaskPaths = [''*''],
            Filters = [FilterSpaceType ''personal'', FilterOwner (UserIdOf user)]\<rparr> (Inr sres) # n' #
         EvListContainer ctx \<lparr>RefResourceId = rid, RefPath = MakeRelativePath (E_reva X) ''/.ssh''\<rparr> (Inr hr) # l) k"
    by simp
qed

lemma wp_LoadKeys: "wp (LoadKeys X ctx u) (\<lambda>r l w'. keys_stored X ctx r l) w"
proof (cases "ContextGetUser (E_ctx X) ctx")
  case None
  then show ?thesis by (simp add: LoadKeys_def wp_rules split: rpc_splits)
next
  case (Some user)
  then show ?thesis
    by (simp add: LoadKeys_def wp_rules result_of_sum_def deref_def split: rpc_splits list.split)
      (auto intro!: wp_loop_stored)
qed

lemma emits_new_request:
  assumes "\<And>q. HttpMethod q = m \<Longrightarrow> emits P (f q)"
  shows "emits P (bnd (map_err g (of_result (NewRequest X m u b))) f)"
proof (rule emits_bnd_dep)
  fix q s l s' assume "map_err g (of_result (NewRequest X m u b)) s = (Ok q, l, s')"
  then show "emits P (f q)"
    by (auto simp: NewRequest_def go_defs split: option.splits intro!: assms)
qed (intro emit_rules)

definition quiet_event :: "'c \<Rightarrow> 'c event \<Rightarrow> bool" where
  "quiet_event ctx e \<longleftrightarrow> \<not> ev_mutates e \<and> ev_ctx e \<in> {None, Some ctx}"

lemma quiet_event_simps [simp]:
  "quiet_event ctx (EvNext n)" "quiet_event ctx (EvListStorageSpaces c q sres) \<longleftrightarrow> c = ctx"
  "quiet_event ctx (EvListContainer c ref lres) \<longleftrightarrow> c = ctx"
  "quiet_event ctx (EvInitiateFileDownload c ref dres) \<longleftrightarrow> c = ctx"
  "quiet_event ctx (EvHttp hq hres) \<longleftrightarrow> HttpMethod hq = ''GET''"
  by (auto simp: quiet_event_def)

lemma download_quiet: "emits (quiet_event ctx) (downloadPublicKey X ctx rid f t)"
  unfolding downloadPublicKey_def
  by (intro emits_new_request emit_rules; simp)

lemma loop_quiet: "emits (quiet_event ctx) (load_keys_loop X ctx rid infos)"
proof (induction infos)
  case (Cons info infos)
  then show ?case
    unfolding load_keys_loop_Cons by (intro emit_rules download_quiet)
qed (simp add: emit_rules)

lemma LoadKeys_quiet: "emits (quiet_event ctx) (LoadKeys X ctx u)"
  unfolding LoadKeys_def by (intro emit_rules loop_quiet; simp)

interpretation space_keys: pub_key_storage X "NewSpaceKeyStorage X" "stored_key X" for X
proof unfold_locales
  fix ctx u w r l w' assume "NewSpaceKeyStorage X ctx u w = (r, l, w')"
  then show "list_all (\<lambda>e. \<not> ev_mutates e \<and> ev_ctx e \<in> {None, Some ctx}) l"
    using emitsD [OF LoadKeys_quiet] by (fastforce simp: NewSpaceKeyStorage_def list_all_iff quiet_event_def)
next
  fix ctx u w keys l w' k assume "NewSpaceKeyStorage X ctx u w = (Ok keys, l, w')" "k \<in> set keys"
  then show "stored_key X ctx l k"
    using wpD [OF wp_LoadKeys] by (fastforce simp: NewSpaceKeyStorage_def keys_stored_def)
qed

subsection \<open>What the loop skips\<close>

lemma loop_filter: "load_keys_loop X ctx rid infos = load_keys_loop X ctx rid (filter is_pub_file infos)"
proof (induction infos)
  case (Cons info infos)
  show ?case
    by (cases "is_pub_file info"; cases "ContextGetToken (E_ctx X) ctx")
      (simp_all add: load_keys_loop_Cons Cons.IH [symmetric] del: load_keys_loop.simps)
qed simp

lemma wp_loop_no_error:
  assumes "ContextGetToken (E_ctx X) ctx = Some t"
  shows "wp (load_keys_loop X ctx rid infos) (\<lambda>r l w'. \<forall>e. r \<noteq> Err e) w"
proof (induction infos arbitrary: w)
  case (Cons info infos)
  have add: "wp (bnd (load_keys_loop X ctx rid infos) (\<lambda>keys. ret (k # keys))) (\<lambda>r l w'. \<forall>e. r \<noteq> Err e) w1" for k w1
    unfolding wp_bnd by (rule wp_mono [OF Cons.IH]) (auto simp: wp_ret split: result.split)
  have "wp (bnd (try_go (downloadPublicKey X ctx rid (InfoPath info) t)) (\<lambda>res. case res of
        Inl err \<Rightarrow> load_keys_loop X ctx rid infos
      | Inr pubKey \<Rightarrow> bnd (load_keys_loop X ctx rid infos) (\<lambda>keys. ret (pubKey # keys))))
      (\<lambda>r l w'. \<forall>e. r \<noteq> Err e) w"
    unfolding wp_bnd [of "try_go m" for m] wp_try_go
    by (rule wpI) (use Cons.IH add in \<open>auto split: result.split\<close>)
  then show ?case
    using assms Cons.IH by (simp add: load_keys_loop_Cons del: load_keys_loop.simps)
qed (simp add: wp_ret)

text \<open>A key that can be downloaded is loaded, whatever happens to the other entries.\<close>

lemma wp_loop_complete:
  assumes "ContextGetToken (E_ctx X) ctx = Some t" "info \<in> set infos" "is_pub_file info"
    "\<And>w. wp (downloadPublicKey X ctx rid (InfoPath info) t) (\<lambda>r l w'. r = Ok k) w"
  shows "wp (load_keys_loop X ctx rid infos) (\<lambda>r l w'. \<forall>keys. r = Ok keys \<longrightarrow> k \<in> set keys) w"
  using assms(2)
proof (induction infos arbitrary: w)
  case (Cons i infos)
  have here: "wp (bnd (load_keys_loop X ctx rid infos) (\<lambda>keys. ret (k # keys)))
      (\<lambda>r l w'. \<forall>keys. r = Ok keys \<longrightarrow> k \<in> set keys) w1" for w1
    unfolding wp_bnd by (rule wpI) (auto simp: wp_ret split: result.split)
  have later: "wp (bnd (load_keys_loop X ctx rid infos) (\<lambda>keys. ret (k' # keys)))
      (\<lambda>r l w'. \<forall>keys. r = Ok keys \<longrightarrow> k \<in> set keys) w1" if "info \<in> set infos" for k' w1
    unfolding wp_bnd by (rule wp_mono [OF Cons.IH [OF that]]) (auto simp: wp_ret split: result.split)
  show ?case
  proof (cases "i = info")
    case True
    then show ?thesis
      unfolding load_keys_loop_Cons
      by (simp add: assms(1,3) wp_bnd [of "try_go m" for m] wp_try_go)
        (rule wp_mono [OF assms(4)], simp add: here)
  next
    case False
    then have rest: "info \<in> set infos" using Cons.prems by simp
    have "wp (bnd (try_go (downloadPublicKey X ctx rid (InfoPath i) t)) (\<lambda>res. case res of
        Inl err \<Rightarrow> load_keys_loop X ctx rid infos
      | Inr pubKey \<Rightarrow> bnd (load_keys_loop X ctx rid infos) (\<lambda>keys. ret (pubKey # keys))))
      (\<lambda>r l w'. \<forall>keys. r = Ok keys \<longrightarrow> k \<in> set keys) x" for x
      unfolding wp_bnd [of "try_go m" for m] wp_try_go
      by (rule wpI) (use Cons.IH [OF rest] later [OF rest] in \<open>auto split: result.split\<close>)
    then show ?thesis
      using assms(1) Cons.IH [OF rest] by (simp add: load_keys_loop_Cons del: load_keys_loop.simps)
  qed
qed simp

subsection \<open>The path of a key file\<close>

lemma pub_suffix_proper: "HasSuffix f ''.pub'' \<Longrightarrow> f \<noteq> [] \<and> f \<noteq> ''.'' \<and> f \<noteq> ''..''"
  by (auto simp: HasSuffix_def)

lemma ssh_join:
  assumes "CHR ''/'' \<notin> set f" "HasSuffix f ''.pub''"
  shows "path_Join [''/.ssh'', f] = ''/.ssh/'' @ f"
proof -
  note f = pub_suffix_proper [OF assms(2)]
  have "slash_split (''/.ssh/'' @ f) = [[], ''.ssh'', f]"
    using slash_split_append [of "[]" "''.ssh/'' @ f"] slash_split_append [of "''.ssh''" f]
      slash_split_single [OF assms(1)] by simp
  then show ?thesis
    using f by (simp add: path_Join_def path_Clean_def Let_def)
qed

end
