(* ===== verification/Reader.thy ===== *)
theory Reader
  imports Prelude
begin

text \<open>
  The contract of a positional reader, the one io.ReaderAt and sftp.ListerAt share, and
  what it gives its client: reading chunk after chunk ends, with everything there is. It is
  interpreted on the reads of an open file and on the listing of a directory.
\<close>

text \<open>Reading \<open>n\<close> elements at a time from \<open>off\<close> on until the end is reported, at most \<open>k\<close> times.\<close>

fun drain :: "(nat \<Rightarrow> nat \<Rightarrow> 'a list \<times> bool) \<Rightarrow> nat \<Rightarrow> nat \<Rightarrow> nat \<Rightarrow> 'a list" where
  "drain rd n 0 off = []"
| "drain rd n (Suc k) off =
     (case rd n off of (xs, eof) \<Rightarrow> if eof then xs else xs @ drain rd n k (off + length xs))"

locale reader_at =
  fixes rd :: "nat \<Rightarrow> nat \<Rightarrow> 'a list \<times> bool" and contents :: "'a list"
  assumes chunk: "fst (rd n off) = take n (drop off contents)"
    and at_end: "snd (rd n off) \<Longrightarrow> length contents \<le> off + n"
    and short: "length (fst (rd n off)) < n \<Longrightarrow> snd (rd n off)"
begin

lemma drain_from: "length contents < off + n * k \<Longrightarrow> drain rd n k off = drop off contents"
proof (induction k arbitrary: off)
  case (Suc k)
  obtain xs eof where rd: "rd n off = (xs, eof)" by (cases "rd n off")
  have xs: "xs = take n (drop off contents)" using chunk [of n off] rd by simp
  show ?case
  proof (cases eof)
    case True
    then have "length contents \<le> off + n" using at_end [of n off] rd by simp
    then show ?thesis using rd True xs by simp
  next
    case False
    then have "\<not> length xs < n" using short [of n off] rd by auto
    then have "length xs = n" using xs by simp
    moreover from this have "drain rd n k (off + n) = drop (off + n) contents"
      using Suc by (intro Suc.IH) simp
    ultimately show ?thesis using rd False xs
      by simp (metis add.commute append_take_drop_id drop_drop)
  qed
qed simp

lemma drain_all:
  assumes "0 < n" "length contents div n < k"
  shows "drain rd n k 0 = contents"
proof -
  have "length contents < n * Suc (length contents div n)"
    using dividend_less_times_div [OF assms(1), of "length contents"] by simp
  also have "\<dots> \<le> n * k" using assms(2) by (intro mult_le_mono2) simp
  finally show ?thesis using drain_from [of 0 n k] by simp
qed

end

end
