(* ===== verification/SftpHandlers.thy ===== *)
theory SftpHandlers
  imports FileHandler Reader
begin

text \<open>
  pkg/vfs/sftp.go: the request handlers that the SFTP library calls. Each decodes a request
  and runs one operation of cs3.go, or opens a file.
\<close>

subsection \<open>Requests\<close>

text \<open>The fields of sftp.Request the handlers read.\<close>

record request =
  R_Method :: string
  R_Filepath :: string
  R_Target :: string
  R_Flags :: "32 word"

definition Pflags :: "('w, 'c) env \<Rightarrow> request \<Rightarrow> open_flags" where
  "Pflags X r = newFileOpenFlags (E_sftp X) (R_Flags r)"

text \<open>sftp.Handlers: one implementation per interface; all four are the session's root.\<close>

record 'c handlers =
  FileGet :: "'c root"
  FilePut :: "'c root"
  FileCmd :: "'c root"
  FileList :: "'c root"

definition OpenCloudHandler :: "'c \<Rightarrow> 'c handlers" where
  "OpenCloudHandler ctx =
     (let root = \<lparr>authCtx = ctx\<rparr>
      in \<lparr>FileGet = root, FilePut = root, FileCmd = root, FileList = root\<rparr>)"

subsection \<open>Opening files\<close>

text \<open>
  TouchFile's answer is dropped: \<open>_, err = client.TouchFile(...)\<close>, and the error is only
  logged.
\<close>

definition OpenFile :: "('w, 'c) env \<Rightarrow> 'c root \<Rightarrow> request \<Rightarrow> ('w, 'c event, handler) go" where
  "OpenFile X fs r =
     bnd (listStorageSpaces X fs) (\<lambda>storageSpaces.
     bnd (of_result (FindSpaceForPath (R_Filepath r) storageSpaces)) (\<lambda>(spc, relPath).
     case spc of None \<Rightarrow> fail ErrNotExist | Some spc \<Rightarrow>
     bnd (of_result (MakeStorageSpaceReference (E_reva X) (SpaceOpaqueId spc) relPath)) (\<lambda>ref.
     bnd (let flags = Pflags X r in
          if PfWrite flags \<and> (PfCreat flags \<or> PfTrunc flags) then
            bnd (call_Next X) (\<lambda>_.
            bnd (try_go (rpc_call (gw_TouchFile (E_gw X)) EvTouchFile (authCtx fs)
                   \<lparr>RefResourceId = RefResourceId ref, RefPath = relPath\<rparr>)) (\<lambda>_. ret ()))
          else ret ()) (\<lambda>_.
     ret (newSftpFileHandler ref (R_Filepath r) (R_Flags r))))))"

definition Fileread :: "('w, 'c) env \<Rightarrow> 'c root \<Rightarrow> request \<Rightarrow> ('w, 'c event, handler) go" where
  "Fileread X fs r = (if \<not> PfRead (Pflags X r) then fail ErrInvalid else OpenFile X fs r)"

definition Filewrite :: "('w, 'c) env \<Rightarrow> 'c root \<Rightarrow> request \<Rightarrow> ('w, 'c event, handler) go" where
  "Filewrite X fs r = (if \<not> PfWrite (Pflags X r) then fail ErrInvalid else OpenFile X fs r)"

subsection \<open>Commands\<close>

definition root_rename ::
    "('w, 'c) env \<Rightarrow> 'c root \<Rightarrow> string \<Rightarrow> string \<Rightarrow> bool \<Rightarrow> ('w, 'c event, unit) go" where
  "root_rename X fs oldpath newpath allowOverwrite = root_renameFile X fs oldpath newpath allowOverwrite"

definition Filecmd :: "('w, 'c) env \<Rightarrow> 'c root \<Rightarrow> request \<Rightarrow> ('w, 'c event, unit) go" where
  "Filecmd X fs r =
     (if R_Method r = ''Setstat'' then fail (New ''setstat not supported'')
      else if R_Method r = ''Rename'' then root_rename X fs (R_Filepath r) (R_Target r) False
      else if R_Method r = ''Rmdir'' then root_rmdir X fs (R_Filepath r)
      else if R_Method r = ''Remove'' then root_remove X fs (R_Filepath r)
      else if R_Method r = ''Mkdir'' then root_mkdir X fs (R_Filepath r)
      else if R_Method r = ''Link'' then fail (New ''hard links are not supported'')
      else if R_Method r = ''Symlink'' then fail (New ''symbolic links are not supported'')
      else fail (New ''unsupported''))"

definition PosixRename :: "('w, 'c) env \<Rightarrow> 'c root \<Rightarrow> request \<Rightarrow> ('w, 'c event, unit) go" where
  "PosixRename X fs r = root_rename X fs (R_Filepath r) (R_Target r) True"

definition StatVFS :: "request \<Rightarrow> ('w, 'c event, unit) go" where
  "StatVFS r = fail (New ''StatVFS not supported'')"

subsection \<open>Listings\<close>

text \<open>\<open>listerat\<close> is a list of file infos; ListAt copies from an offset on into the caller's slice.\<close>

definition ListAt :: "'a list \<Rightarrow> 'a list \<Rightarrow> int \<Rightarrow> (nat \<times> 'a list \<times> go_error option) result" where
  "ListAt f ls offset =
     (if offset \<ge> int (length f) then Ok (0, ls, Some EOF)
      else case slice_from f offset of
        Ok src \<Rightarrow> (case go_copy ls src of (n, ls') \<Rightarrow>
          if n < length ls then Ok (n, ls', Some EOF) else Ok (n, ls', None))
      | Err e \<Rightarrow> Err e
      | Abort a \<Rightarrow> Abort a)"

text \<open>
  The lister that Filelist returns. Next to an error the code returns a lister too, an empty
  one or one with a nil entry; the error is what the SFTP library looks at.
\<close>

definition Filelist :: "('w, 'c) env \<Rightarrow> 'c root \<Rightarrow> request \<Rightarrow> ('w, 'c event, file_info list) go" where
  "Filelist X fs r =
     (if R_Method r = ''List'' then root_list X fs (R_Filepath r)
      else if R_Method r = ''Stat'' then bnd (root_stat X fs (R_Filepath r)) (\<lambda>fi. ret [fi])
      else fail (New ''unsupported''))"

end
