(* ===== verification/Sample.thy ===== *)
theory Sample
  imports Externals
begin

text \<open>
  A small concrete environment: a gateway with one user, one space and an in-memory store,
  an HTTP data gateway on the same store, and contexts as records. It is not a model of the
  services behind the program; it only instantiates the parameters, so that the properties
  can be evaluated on concrete runs and their hypotheses shown to be satisfiable.
\<close>

datatype mem_node = MDir | MFile "byte list"

text \<open>The store: paths inside the space, rooted, with their nodes.\<close>

record mem =
  m_spaces :: "storage_space list"
  m_nodes :: "(string \<times> mem_node) list"

record mctx =
  mc_user :: "user option"
  mc_token :: "string option"
  mc_md :: "(string \<times> string) list"

definition mem_rid :: resource_id where
  "mem_rid = \<lparr>StorageId = ''st'', OpaqueId = ''sp1'', SpaceId = ''sp1''\<rparr>"

definition mem_parse_id :: "string \<Rightarrow> go_error + resource_id" where
  "mem_parse_id s = (if s = ''st$sp1'' then Inr mem_rid else Inl (Ext ''invalid id''))"

definition mem_relative :: "string \<Rightarrow> string" where
  "mem_relative p = (if p = ''/'' then ''.'' else CHR ''.'' # p)"

text \<open>The key of a path in either spelling: relative with a dot, or rooted.\<close>

definition mem_key :: "string \<Rightarrow> string" where
  "mem_key p = (if p = ''.'' then ''/'' else if take 2 p = ''./'' then drop 1 p else p)"

definition mem_lookup :: "mem \<Rightarrow> reference \<Rightarrow> mem_node option" where
  "mem_lookup w r =
     (if RefResourceId r = mem_rid then
        (if mem_key (RefPath r) = ''/'' then Some MDir
         else map_of (m_nodes w) (mem_key (RefPath r)))
      else None)"

definition mem_put :: "string \<Rightarrow> mem_node \<Rightarrow> mem \<Rightarrow> mem" where
  "mem_put k n w = w\<lparr>m_nodes := (k, n) # filter (\<lambda>e. fst e \<noteq> k) (m_nodes w)\<rparr>"

definition mem_drop :: "string \<Rightarrow> mem \<Rightarrow> mem" where
  "mem_drop k w = w\<lparr>m_nodes := filter (\<lambda>e. fst e \<noteq> k) (m_nodes w)\<rparr>"

definition st_of :: "rpc_code \<Rightarrow> status option" where
  "st_of c = Some \<lparr>StatusCode = c, StatusMessage = []\<rparr>"

definition mem_info :: "string \<Rightarrow> mem_node \<Rightarrow> resource_info" where
  "mem_info name n =
     \<lparr>InfoName = name, InfoPath = name,
      InfoSize = (case n of MDir \<Rightarrow> 0 | MFile b \<Rightarrow> of_nat (length b)),
      InfoType = (case n of MDir \<Rightarrow> RESOURCE_TYPE_CONTAINER | MFile _ \<Rightarrow> RESOURCE_TYPE_FILE),
      InfoMtime = None\<rparr>"

text \<open>The name of an entry directly below a directory.\<close>

definition mem_child :: "string \<Rightarrow> string \<Rightarrow> string option" where
  "mem_child dir k =
     (let pre = (if dir = ''/'' then ''/'' else dir @ ''/'')
      in if take (length pre) k = pre \<and> CHR ''/'' \<notin> set (drop (length pre) k)
         then Some (drop (length pre) k) else None)"

definition mem_children :: "mem \<Rightarrow> string \<Rightarrow> resource_info list" where
  "mem_children w dir =
     concat (map (\<lambda>(k, n). case mem_child dir k of Some nm \<Rightarrow> [mem_info nm n] | None \<Rightarrow> []) (m_nodes w))"

definition mem_stat :: "reference \<Rightarrow> mem \<Rightarrow> (go_error + stat_res) \<times> mem" where
  "mem_stat r w = (Inr (case mem_lookup w r of
       None \<Rightarrow> \<lparr>StatStatus = st_of CODE_NOT_FOUND, StatInfo = None\<rparr>
     | Some n \<Rightarrow> \<lparr>StatStatus = st_of CODE_OK, StatInfo = Some (mem_info (mem_key (RefPath r)) n)\<rparr>), w)"

definition mem_list :: "reference \<Rightarrow> mem \<Rightarrow> (go_error + list_container_res) \<times> mem" where
  "mem_list r w = (Inr (case mem_lookup w r of
       Some MDir \<Rightarrow> \<lparr>ListStatus = st_of CODE_OK, ListInfos = mem_children w (mem_key (RefPath r))\<rparr>
     | _ \<Rightarrow> \<lparr>ListStatus = st_of CODE_NOT_FOUND, ListInfos = []\<rparr>), w)"

definition mem_create :: "reference \<Rightarrow> mem \<Rightarrow> (go_error + status option) \<times> mem" where
  "mem_create r w = (if RefResourceId r \<noteq> mem_rid then (Inr (st_of CODE_NOT_FOUND), w)
     else case mem_lookup w r of
       Some _ \<Rightarrow> (Inr (st_of CODE_ALREADY_EXISTS), w)
     | None \<Rightarrow> (Inr (st_of CODE_OK), mem_put (mem_key (RefPath r)) MDir w))"

definition mem_touch :: "reference \<Rightarrow> mem \<Rightarrow> (go_error + status option) \<times> mem" where
  "mem_touch r w = (if RefResourceId r \<noteq> mem_rid then (Inr (st_of CODE_NOT_FOUND), w)
     else case mem_lookup w r of
       Some _ \<Rightarrow> (Inr (st_of CODE_ALREADY_EXISTS), w)
     | None \<Rightarrow> (Inr (st_of CODE_OK), mem_put (mem_key (RefPath r)) (MFile []) w))"

definition mem_delete :: "reference \<Rightarrow> mem \<Rightarrow> (go_error + status option) \<times> mem" where
  "mem_delete r w = (case mem_lookup w r of
       None \<Rightarrow> (Inr (st_of CODE_NOT_FOUND), w)
     | Some _ \<Rightarrow> (Inr (st_of CODE_OK), mem_drop (mem_key (RefPath r)) w))"

definition mem_move :: "reference \<times> reference \<Rightarrow> mem \<Rightarrow> (go_error + status option) \<times> mem" where
  "mem_move rr w = (case mem_lookup w (fst rr) of
       None \<Rightarrow> (Inr (st_of CODE_NOT_FOUND), w)
     | Some n \<Rightarrow> (Inr (st_of CODE_OK),
         mem_put (mem_key (RefPath (snd rr))) n (mem_drop (mem_key (RefPath (fst rr))) w)))"

definition mem_transfer :: "string \<Rightarrow> transfer_res" where
  "mem_transfer k = \<lparr>TransferStatus = st_of CODE_OK,
     Protocols = [\<lparr>Protocol = ''tus'', Endpoint = ''none'', TransferToken = []\<rparr>,
                  \<lparr>Protocol = ''simple'', Endpoint = k, TransferToken = ''xfer''\<rparr>]\<rparr>"

definition mem_download :: "reference \<Rightarrow> mem \<Rightarrow> (go_error + transfer_res) \<times> mem" where
  "mem_download r w = (Inr (case mem_lookup w r of
       Some (MFile _) \<Rightarrow> mem_transfer (mem_key (RefPath r))
     | _ \<Rightarrow> \<lparr>TransferStatus = st_of CODE_NOT_FOUND, Protocols = []\<rparr>), w)"

definition mem_upload :: "upload_req \<Rightarrow> mem \<Rightarrow> (go_error + transfer_res) \<times> mem" where
  "mem_upload q w = (Inr (mem_transfer (mem_key (RefPath (UploadRef q)))), w)"

definition mem_http :: "http_request \<Rightarrow> mem \<Rightarrow> (go_error + http_response) \<times> mem" where
  "mem_http q w =
     (if HttpMethod q = ''PUT'' then
        (Inr \<lparr>HttpStatusCode = 200, HttpETag = [], HttpResBody = [],
               HttpResBodyErr = None\<rparr>,
         mem_put (HttpURL q) (MFile (HttpBody q)) w)
      else case map_of (m_nodes w) (HttpURL q) of
        Some (MFile b) \<Rightarrow> (Inr \<lparr>HttpStatusCode = 200, HttpETag = [], HttpResBody = b,
               HttpResBodyErr = None\<rparr>, w)
      | _ \<Rightarrow> (Inr \<lparr>HttpStatusCode = 404, HttpETag = [], HttpResBody = [],
               HttpResBodyErr = None\<rparr>, w))"

definition mem_auth :: "auth_req \<Rightarrow> mem \<Rightarrow> (go_error + auth_res) \<times> mem" where
  "mem_auth q w =
     (if ClientId q = ''username:alice'' \<and> ClientSecret q = ''secret'' then
        (Inr \<lparr>AuthStatus = st_of CODE_OK, AuthUser = Some \<lparr>UserIdOf = Some (UserId ''u1'')\<rparr>,
              AuthToken = ''tok''\<rparr>, w)
      else (Inr \<lparr>AuthStatus = st_of CODE_PERMISSION_DENIED, AuthUser = None, AuthToken = []\<rparr>, w))"

definition mem_gateway :: "(mem, mctx) gateway" where
  "mem_gateway =
     \<lparr>gw_Next = (\<lambda>w. (None, w)),
      gw_Authenticate = (\<lambda>c q w. mem_auth q w),
      gw_ListStorageSpaces = (\<lambda>c q w.
        (Inr \<lparr>SpacesStatus = st_of CODE_OK, StorageSpaces = m_spaces w\<rparr>, w)),
      gw_Stat = (\<lambda>c. mem_stat), gw_ListContainer = (\<lambda>c. mem_list),
      gw_CreateContainer = (\<lambda>c. mem_create), gw_TouchFile = (\<lambda>c. mem_touch),
      gw_Move = (\<lambda>c. mem_move), gw_Delete = (\<lambda>c. mem_delete),
      gw_InitiateFileDownload = (\<lambda>c. mem_download), gw_InitiateFileUpload = (\<lambda>c. mem_upload)\<rparr>"

definition mem_ctxlib :: "mctx ctxlib" where
  "mem_ctxlib =
     \<lparr>Background = \<lparr>mc_user = None, mc_token = None, mc_md = []\<rparr>,
      ContextSetUser = (\<lambda>c u. c\<lparr>mc_user := Some u\<rparr>),
      ContextGetUser = mc_user,
      ContextSetToken = (\<lambda>c t. c\<lparr>mc_token := Some t\<rparr>),
      ContextGetToken = mc_token,
      AppendToOutgoingContext = (\<lambda>c k v. c\<lparr>mc_md := mc_md c @ [(k, v)]\<rparr>),
      FromOutgoingContext = (\<lambda>c. if mc_md c = [] then None
         else Some (\<lambda>k. map snd (filter (\<lambda>e. fst e = k) (mc_md c)))),
      TokenHeader = ''x-access-token''\<rparr>"

definition mem_reva :: revalib where
  "mem_reva = \<lparr>ParseID = mem_parse_id, MakeRelativePath = mem_relative,
     ShareStorageSpaceID = ''shares'', ShareStorageProviderID = ''sharesprovider''\<rparr>"

text \<open>
  A file parses as a public key when it is not empty, and the key is its contents; a private
  key is a zero byte before its public key.
\<close>

definition mem_ssh :: sshlib where
  "mem_ssh = \<lparr>ParsePrivateKey = (\<lambda>b. case b of x # k \<Rightarrow> if x = 0 then Inr (Signer (PublicKey k)) else Inl (Ext ''ssh: no key found'')
       | [] \<Rightarrow> Inl (Ext ''ssh: no key found'')),
     ParseAuthorizedKey = (\<lambda>b. if b = [] then Inl (Ext ''ssh: no key found'') else Inr (PublicKey b)),
     KeysEqual = (=)\<rparr>"

definition mem_sftp :: sftplib where
  "mem_sftp = \<lparr>newFileOpenFlags = (\<lambda>f. \<lparr>PfRead = bit f 0, PfWrite = bit f 1, PfAppend = bit f 2,
     PfCreat = bit f 3, PfTrunc = bit f 4, PfExcl = bit f 5\<rparr>)\<rparr>"

definition mem_env :: "(mem, mctx) env" where
  "mem_env = \<lparr>E_gw = mem_gateway,
     E_http = \<lparr>http_NewRequest = (\<lambda>_ _. None), http_Do = mem_http\<rparr>,
     E_ctx = mem_ctxlib, E_reva = mem_reva, E_ssh = mem_ssh, E_sftp = mem_sftp, E_max_alloc = 2 ^ 40\<rparr>"

definition mem_ctx :: mctx where
  "mem_ctx = \<lparr>mc_user = Some \<lparr>UserIdOf = Some (UserId ''u1'')\<rparr>, mc_token = None,
     mc_md = [(''x-access-token'', ''tok'')]\<rparr>"

definition mem0 :: mem where
  "mem0 = \<lparr>m_spaces = [\<lparr>SpaceOpaqueId = ''st$sp1'', SpaceName = ''Admin'', SpaceMtime = None\<rparr>],
     m_nodes = [(''/a.txt'', MFile [104, 105]), (''/d'', MDir), (''/d/x'', MFile []), (''/e'', MDir),
                (''/.ssh'', MDir), (''/.ssh/k.pub'', MFile [7]), (''/.ssh/bad.pub'', MFile []),
                (''/.ssh/notes'', MFile [9])]\<rparr>"

text \<open>The definitions that evaluating a run unfolds.\<close>

lemmas mem_defs = mem_env_def mem_gateway_def mem_ctxlib_def mem_reva_def mem_ssh_def mem_sftp_def mem_ctx_def
  mem0_def mem_parse_id_def mem_relative_def mem_key_def mem_lookup_def mem_put_def mem_drop_def
  st_of_def mem_info_def mem_child_def mem_children_def mem_stat_def mem_list_def mem_create_def
  mem_touch_def mem_delete_def mem_move_def mem_transfer_def mem_download_def mem_upload_def
  mem_http_def mem_auth_def mem_rid_def

end
