(* ===== verification/VfsSafety.thy ===== *)
theory VfsSafety
  imports Vfs Sample
begin

text \<open>
  What the operations of cs3.go do to the gateway, for any gateway: which calls they make
  and in which order, under which context, and on which references. The statements are
  about the log of a run, so they hold whatever the gateway answers.
\<close>

subsection \<open>The shared prefix of the operations\<close>

text \<open>
  Every operation starts by listing the spaces, looking the path up and making a reference;
  \<open>resolving\<close> is that prefix, with the rest of the operation as an argument.
\<close>

abbreviation resolving where
  "resolving X fs p f \<equiv>
     bnd (listStorageSpaces X fs) (\<lambda>storageSpaces.
     bnd (of_result (FindSpaceForPath p storageSpaces)) (\<lambda>(spc, relPath).
     case spc of None \<Rightarrow> fail ErrNotExist | Some spc \<Rightarrow>
     bnd (of_result (MakeStorageSpaceReference (E_reva X) (SpaceOpaqueId spc) relPath)) (\<lambda>ref.
     f ref relPath)))"

text \<open>A call that looks things up: it names no reference and changes nothing.\<close>

definition lookup_event :: "'c \<Rightarrow> 'c event \<Rightarrow> bool" where
  "lookup_event c e \<longleftrightarrow> ev_refs e = [] \<and> \<not> ev_mutates e \<and> ev_ctx e \<in> {None, Some c}"

lemma lookup_event_simps [simp]:
  "lookup_event c (EvNext e)" "lookup_event c (EvListStorageSpaces c q r)"
  by (simp_all add: lookup_event_def)

text \<open>
  The log \<open>l\<close> holds an answer of the gateway in which the path \<open>p\<close> resolves to \<open>ref\<close>: a
  listing of the spaces under the session's context, the space named by the first component,
  and the reference made of its id and of the rest of the path.
\<close>

definition names_ref :: "('w, 'c) env \<Rightarrow> 'c root \<Rightarrow> string \<Rightarrow> 'c event list \<Rightarrow> reference \<Rightarrow> bool" where
  "names_ref X fs p l ref \<longleftrightarrow> (\<exists>res sp.
     EvListStorageSpaces (authCtx fs) \<lparr>FieldMaskPaths = [''*''], Filters = []\<rparr> (Inr res) \<in> set l \<and>
     GetCode (SpacesStatus res) = CODE_OK \<and>
     space_named (fst (SplitAbsolutePath p)) (StorageSpaces res) = Some sp \<and>
     MakeStorageSpaceReference (E_reva X) (SpaceOpaqueId sp) (snd (SplitAbsolutePath p)) = Ok ref)"

definition resolved :: "('w, 'c) env \<Rightarrow> 'c root \<Rightarrow> string \<Rightarrow> 'c event list \<Rightarrow> reference \<Rightarrow> bool" where
  "resolved X fs p l ref \<longleftrightarrow> list_all (lookup_event (authCtx fs)) l \<and> names_ref X fs p l ref"

lemma names_ref_mono: "names_ref X fs p l ref \<Longrightarrow> set l \<subseteq> set l' \<Longrightarrow> names_ref X fs p l' ref"
  unfolding names_ref_def by blast

lemma resolved_snoc: "resolved X fs p l ref \<Longrightarrow> lookup_event (authCtx fs) e \<Longrightarrow> resolved X fs p (l @ [e]) ref"
  by (auto simp: resolved_def intro: names_ref_mono)

lemma lookups_no_mutation: "list_all (lookup_event c) l \<Longrightarrow> \<not> list_ex ev_mutates l"
  by (auto simp: list_all_iff list_ex_iff lookup_event_def)

text \<open>What listing the spaces can end in.\<close>

lemma wp_listStorageSpaces:
  "wp (listStorageSpaces X fs) (\<lambda>r l w'.
     (\<exists>e. r = Err e \<and> l = [EvNext (Some e)]) \<or>
     (\<exists>resp. l = [EvNext None,
          EvListStorageSpaces (authCtx fs) \<lparr>FieldMaskPaths = [''*''], Filters = []\<rparr> resp] \<and>
        r = (case resp of Inl e \<Rightarrow> Err e
             | Inr res \<Rightarrow> Ok (if GetCode (SpacesStatus res) = CODE_OK then StorageSpaces res else [])))) w"
  by (simp add: listStorageSpaces_def wp_rules result_of_sum_def
      split: prod.split option.split sum.split)

lemma listStorageSpaces_cases:
  assumes "listStorageSpaces X fs w = (r, l, w')"
  obtains (no_client) e where "r = Err e" "l = [EvNext (Some e)]"
  | (call) resp where
      "l = [EvNext None, EvListStorageSpaces (authCtx fs) \<lparr>FieldMaskPaths = [''*''], Filters = []\<rparr> resp]"
      "r = (case resp of Inl e \<Rightarrow> Err e
            | Inr res \<Rightarrow> Ok (if GetCode (SpacesStatus res) = CODE_OK then StorageSpaces res else []))"
  using wpD [OF wp_listStorageSpaces assms] by blast

lemma listStorageSpaces_lookups:
  "listStorageSpaces X fs w = (r, l, w') \<Longrightarrow> list_all (lookup_event (authCtx fs)) l"
  by (erule listStorageSpaces_cases) simp_all

lemma listStorageSpaces_no_abort: "listStorageSpaces X fs w \<noteq> (Abort a, l, w')"
  by (auto elim!: listStorageSpaces_cases split: sum.splits)

text \<open>The rule for the listing: an error after nothing but lookups, or the listed spaces.\<close>

definition listed :: "'c root \<Rightarrow> 'c event list \<Rightarrow> storage_space list \<Rightarrow> bool" where
  "listed fs l sps \<longleftrightarrow> list_all (lookup_event (authCtx fs)) l \<and>
     (sps = [] \<or> (\<exists>res.
        EvListStorageSpaces (authCtx fs) \<lparr>FieldMaskPaths = [''*''], Filters = []\<rparr> (Inr res) \<in> set l \<and>
        GetCode (SpacesStatus res) = CODE_OK \<and> sps = StorageSpaces res))"

lemma listStorageSpaces_listed:
  assumes "listStorageSpaces X fs w = (Ok sps, l, w')"
  shows "listed fs l sps"
  using assms listStorageSpaces_lookups [OF assms]
  by (elim listStorageSpaces_cases) (auto simp: listed_def split: sum.splits if_splits)

lemma wp_spaces:
  assumes "\<And>l w' sps. listed fs l sps \<Longrightarrow> wp (f sps) (\<lambda>r l'. Q r (l @ l')) w'"
    and "\<And>l w' e. list_all (lookup_event (authCtx fs)) l \<Longrightarrow> Q (Err e) l w'"
  shows "wp (bnd (listStorageSpaces X fs) f) Q w"
proof -
  obtain r l w' where run: "listStorageSpaces X fs w = (r, l, w')"
    by (cases "listStorageSpaces X fs w") auto
  then show ?thesis
    using listStorageSpaces_no_abort [of X fs w _ l w'] listStorageSpaces_lookups [OF run]
      listStorageSpaces_listed [of X fs w _ l w']
    by (cases r) (simp_all add: wp_bnd wp_def [of "listStorageSpaces X fs"] assms)
qed

lemma listed_names_ref:
  assumes "listed fs l sps" "space_named (fst (SplitAbsolutePath p)) sps = Some sp"
    and "MakeStorageSpaceReference (E_reva X) (SpaceOpaqueId sp) (snd (SplitAbsolutePath p)) = Ok ref"
  shows "resolved X fs p l ref"
  using assms by (auto simp: listed_def resolved_def names_ref_def)

lemma resolved_lookups: "resolved X fs p l ref \<Longrightarrow> list_all (lookup_event (authCtx fs)) l"
  by (simp add: resolved_def)

lemma resolved_no_mutation [simp]: "resolved X fs p l ref \<Longrightarrow> \<not> list_ex ev_mutates l"
  by (rule lookups_no_mutation [OF resolved_lookups])

lemma resolved_next: "resolved X fs p l ref \<Longrightarrow> resolved X fs p (l @ [EvNext e]) ref"
  by (rule resolved_snoc) simp_all

text \<open>
  The rule for the prefix: either nothing but lookups happened and the operation ends with
  an error, or the path is resolved and the rest runs.
\<close>

lemma wp_resolving:
  assumes "\<And>l w' ref. resolved X fs p l ref \<Longrightarrow>
      wp (f ref (snd (SplitAbsolutePath p))) (\<lambda>r l'. Q r (l @ l')) w'"
    and "\<And>l w' e. list_all (lookup_event (authCtx fs)) l \<Longrightarrow> Q (Err e) l w'"
  shows "wp (resolving X fs p f) Q w"
proof (rule wp_spaces)
  fix l w' sps assume l: "listed fs l sps"
  then have look: "list_all (lookup_event (authCtx fs)) l" by (simp add: listed_def)
  show "wp (bnd (of_result (FindSpaceForPath p sps)) (\<lambda>(spc, relPath).
     case spc of None \<Rightarrow> fail ErrNotExist | Some spc \<Rightarrow>
     bnd (of_result (MakeStorageSpaceReference (E_reva X) (SpaceOpaqueId spc) relPath)) (\<lambda>ref.
     f ref relPath))) (\<lambda>r l'. Q r (l @ l')) w'"
    using listed_names_ref [OF l] look
    by (auto simp: wp_bnd wp_of_result FindSpaceForPath_def wp_fail split_beta
        split: option.split result.split intro!: assms)
qed (rule assms(2))

subsection \<open>remove and rmdir\<close>

text \<open>
  The shape of a run of remove that reaches the Delete call: the path was resolved, the last
  two calls are a Stat that answered OK with something that is no directory and the Delete
  of the same reference, and the outcome is success exactly when Delete answered OK.
\<close>

definition guarded_remove where
  "guarded_remove X fs p r l \<longleftrightarrow> (\<exists>pre ref sr resp.
     resolved X fs p pre ref \<and>
     l = pre @ [EvStat (authCtx fs) ref (Inr sr), EvDelete (authCtx fs) ref resp] \<and>
     GetCode (StatStatus sr) = CODE_OK \<and>
     InfoType (info_or_zero (StatInfo sr)) \<noteq> RESOURCE_TYPE_CONTAINER \<and>
     (r = Ok () \<longleftrightarrow> (\<exists>st. resp = Inr st \<and> GetCode st = CODE_OK)))"

lemma guarded_removeI:
  assumes "resolved X fs p pre ref" "GetCode (StatStatus sr) = CODE_OK"
    "InfoType (info_or_zero (StatInfo sr)) \<noteq> RESOURCE_TYPE_CONTAINER"
    "r = Ok () \<longleftrightarrow> (\<exists>st. resp = Inr st \<and> GetCode st = CODE_OK)"
  shows "guarded_remove X fs p r
    (pre @ [EvNext e, EvStat (authCtx fs) ref (Inr sr), EvDelete (authCtx fs) ref resp])"
  unfolding guarded_remove_def
  by (rule exI [where x = "pre @ [EvNext e]"]) (use assms in \<open>auto intro: resolved_next\<close>)

lemma wp_remove:
  "wp (root_remove X fs p) (\<lambda>r l w'.
     guarded_remove X fs p r l \<or> (\<not> list_ex ev_mutates l \<and> r \<noteq> Ok ())) w"
  unfolding root_remove_def
proof (rule wp_resolving, goal_cases)
  case (1 l w' ref)
  then show ?case
    by (simp add: wp_rules result_of_sum_def split: rpc_splits) (auto intro!: guarded_removeI)
qed (simp add: lookups_no_mutation)

text \<open>
  The same for rmdir: Stat answered OK with a directory, ListContainer answered OK with no
  entries, and Delete came right after, all three on the same reference.
\<close>

definition guarded_rmdir where
  "guarded_rmdir X fs p r l \<longleftrightarrow> (\<exists>pre ref sr lr resp.
     resolved X fs p pre ref \<and>
     l = pre @ [EvStat (authCtx fs) ref (Inr sr), EvListContainer (authCtx fs) ref (Inr lr),
                EvDelete (authCtx fs) ref resp] \<and>
     GetCode (StatStatus sr) = CODE_OK \<and>
     InfoType (info_or_zero (StatInfo sr)) = RESOURCE_TYPE_CONTAINER \<and>
     GetCode (ListStatus lr) = CODE_OK \<and> ListInfos lr = [] \<and>
     (r = Ok () \<longleftrightarrow> (\<exists>st. resp = Inr st \<and> GetCode st = CODE_OK)))"

lemma guarded_rmdirI:
  assumes "resolved X fs p pre ref" "GetCode (StatStatus sr) = CODE_OK"
    "InfoType (info_or_zero (StatInfo sr)) = RESOURCE_TYPE_CONTAINER"
    "GetCode (ListStatus lr) = CODE_OK" "ListInfos lr = []"
    "r = Ok () \<longleftrightarrow> (\<exists>st. resp = Inr st \<and> GetCode st = CODE_OK)"
  shows "guarded_rmdir X fs p r (pre @ [EvNext e, EvStat (authCtx fs) ref (Inr sr),
      EvListContainer (authCtx fs) ref (Inr lr), EvDelete (authCtx fs) ref resp])"
  unfolding guarded_rmdir_def
  by (rule exI [where x = "pre @ [EvNext e]"]) (use assms in \<open>auto intro: resolved_next\<close>)

lemma wp_rmdir:
  "wp (root_rmdir X fs p) (\<lambda>r l w'.
     guarded_rmdir X fs p r l \<or> (\<not> list_ex ev_mutates l \<and> r \<noteq> Ok ())) w"
  unfolding root_rmdir_def
proof (rule wp_resolving, goal_cases)
  case (1 l w' ref)
  then show ?case
    by (simp add: wp_rules result_of_sum_def split: rpc_splits) (auto intro!: guarded_rmdirI)
qed (simp add: lookups_no_mutation)

subsection \<open>mkdir and rename\<close>

text \<open>
  mkdir reaches CreateContainer with the reference's resource id and the path inside the
  space; the answer decides the outcome, and an existing container gives an error that
  wraps os.ErrExist.
\<close>

definition mkdir_outcome :: "go_error + status option \<Rightarrow> unit result" where
  "mkdir_outcome resp = (case resp of
       Inl e \<Rightarrow> Err e
     | Inr st \<Rightarrow>
         (if GetCode st = CODE_OK then Ok ()
          else if GetCode st = CODE_ALREADY_EXISTS
            then Err (Errorf ''failed to create container: %w'' [FWrap ErrExist])
          else Err (Errorf ''failed to create container: %s'' [FStr (GetMessage st)])))"

definition guarded_mkdir where
  "guarded_mkdir X fs p r l \<longleftrightarrow> (\<exists>pre ref resp.
     resolved X fs p pre ref \<and>
     l = pre @ [EvCreateContainer (authCtx fs)
           \<lparr>RefResourceId = RefResourceId ref, RefPath = snd (SplitAbsolutePath p)\<rparr> resp] \<and>
     r = mkdir_outcome resp)"

lemma guarded_mkdirI:
  assumes "resolved X fs p pre ref" "r = mkdir_outcome resp"
  shows "guarded_mkdir X fs p r (pre @ [EvNext e, EvCreateContainer (authCtx fs)
           \<lparr>RefResourceId = RefResourceId ref, RefPath = snd (SplitAbsolutePath p)\<rparr> resp])"
  unfolding guarded_mkdir_def
  by (rule exI [where x = "pre @ [EvNext e]"]) (use assms in \<open>auto intro: resolved_next\<close>)

lemma wp_mkdir:
  "wp (root_mkdir X fs p) (\<lambda>r l w'.
     guarded_mkdir X fs p r l \<or> (\<not> list_ex ev_mutates l \<and> r \<noteq> Ok ())) w"
  unfolding root_mkdir_def
proof (rule wp_resolving, goal_cases)
  case (1 l w' ref)
  then show ?case
    by (simp add: wp_rules result_of_sum_def split: rpc_splits)
      (auto intro!: guarded_mkdirI simp: mkdir_outcome_def)
qed (simp add: lookups_no_mutation)

text \<open>
  rename reaches Move with both references inside one space. Without permission to overwrite
  a Stat of the target comes right before, and it did not answer OK.
\<close>

definition rename_outcome :: "go_error + status option \<Rightarrow> unit result" where
  "rename_outcome resp = (case resp of
       Inl e \<Rightarrow> Err e
     | Inr st \<Rightarrow> (case GetCode st of
           CODE_OK \<Rightarrow> Ok ()
         | CODE_NOT_FOUND \<Rightarrow> Err ErrNotExist
         | CODE_ALREADY_EXISTS \<Rightarrow> Err ErrExist
         | CODE_PERMISSION_DENIED \<Rightarrow> Err ErrPermission
         | CODE_OTHER n \<Rightarrow> Err (Errorf ''move failed: %s'' [FStr (GetMessage st)])))"

definition target_absent :: "go_error + stat_res \<Rightarrow> bool" where
  "target_absent resp \<longleftrightarrow> (case resp of Inl _ \<Rightarrow> True | Inr sr \<Rightarrow> GetCode (StatStatus sr) \<noteq> CODE_OK)"

definition guarded_rename where
  "guarded_rename X fs old new ow r l \<longleftrightarrow> (\<exists>pre src tgt chk resp.
     resolved X fs old pre src \<and> resolved X fs new pre tgt \<and>
     RefResourceId src = RefResourceId tgt \<and>
     l = pre @ chk @ [EvMove (authCtx fs) (src, tgt) resp] \<and>
     (if ow then chk = [] else (\<exists>sr. chk = [EvStat (authCtx fs) tgt sr] \<and> target_absent sr)) \<and>
     r = rename_outcome resp)"

lemma guarded_renameI:
  assumes "resolved X fs old pre src" "resolved X fs new pre tgt"
    "RefResourceId src = RefResourceId tgt"
    "if ow then chk = [] else (\<exists>sr. chk = [EvStat (authCtx fs) tgt sr] \<and> target_absent sr)"
    "r = rename_outcome resp"
  shows "guarded_rename X fs old new ow r
    (pre @ EvNext e # chk @ [EvMove (authCtx fs) (src, tgt) resp])"
  unfolding guarded_rename_def
  by (rule exI [where x = "pre @ [EvNext e]"]) (use assms in \<open>auto intro: resolved_next\<close>)

lemma same_space_same_id:
  assumes "MakeStorageSpaceReference R i p = Ok ref" "MakeStorageSpaceReference R i p' = Ok ref'"
  shows "RefResourceId ref = RefResourceId ref'"
  using assms by (auto simp: MakeStorageSpaceReference_def Let_def split: sum.splits)

lemma guarded_rename_overwrite:
  "resolved X fs old pre src \<Longrightarrow> resolved X fs new pre tgt \<Longrightarrow>
   RefResourceId src = RefResourceId tgt \<Longrightarrow> r = rename_outcome resp \<Longrightarrow>
   guarded_rename X fs old new True r (pre @ [EvNext e, EvMove (authCtx fs) (src, tgt) resp])"
  using guarded_renameI [of X fs old pre src new tgt True "[]" r resp e] by simp

lemma guarded_rename_checked:
  "resolved X fs old pre src \<Longrightarrow> resolved X fs new pre tgt \<Longrightarrow>
   RefResourceId src = RefResourceId tgt \<Longrightarrow> target_absent sr \<Longrightarrow> r = rename_outcome resp \<Longrightarrow>
   guarded_rename X fs old new False r
     (pre @ [EvNext e, EvStat (authCtx fs) tgt sr, EvMove (authCtx fs) (src, tgt) resp])"
  using guarded_renameI [of X fs old pre src new tgt False "[EvStat (authCtx fs) tgt sr]" r resp e]
  by simp

lemma rename_outcome_simps [simp]:
  "rename_outcome (Inl e) = Err e"
  "rename_outcome (Inr st) = (case GetCode st of
           CODE_OK \<Rightarrow> Ok ()
         | CODE_NOT_FOUND \<Rightarrow> Err ErrNotExist
         | CODE_ALREADY_EXISTS \<Rightarrow> Err ErrExist
         | CODE_PERMISSION_DENIED \<Rightarrow> Err ErrPermission
         | CODE_OTHER n \<Rightarrow> Err (Errorf ''move failed: %s'' [FStr (GetMessage st)]))"
  by (simp_all add: rename_outcome_def)

lemma target_absent_simps [simp]:
  "target_absent (Inl e)" "target_absent (Inr sr) \<longleftrightarrow> GetCode (StatStatus sr) \<noteq> CODE_OK"
  by (simp_all add: target_absent_def)

lemma wp_rename:
  "wp (root_renameFile X fs old new ow) (\<lambda>r l w'.
     guarded_rename X fs old new ow r l \<or> (\<not> list_ex ev_mutates l \<and> r \<noteq> Ok ())) w"
  unfolding root_renameFile_def
proof (rule wp_spaces, goal_cases)
  case (1 l w' sps)
  note name = listed_names_ref [OF 1]
  have "\<not> list_ex ev_mutates l"
    by (rule lookups_no_mutation [of "authCtx fs"]) (use 1 in \<open>simp add: listed_def\<close>)
  then show ?case
    by (cases ow) (simp_all add: wp_rules FindSpaceForPath_def result_of_sum_def split_beta
        split: rpc_splits rpc_code.split,
      (auto intro!: guarded_rename_overwrite guarded_rename_checked name dest: same_space_same_id)+)
qed (simp add: lookups_no_mutation)

end
