(* ===== verification/VfsContract.thy ===== *)
theory VfsContract
  imports VfsSafety
begin

text \<open>
  The contract every operation on paths keeps towards the session that calls it: it acts
  under the session's own context, and it touches nothing outside the spaces its paths
  name. The contract is a locale; each operation of cs3.go is an interpretation of it.
\<close>

subsection \<open>The contract\<close>

definition own_event :: "'c root \<Rightarrow> reference \<Rightarrow> 'c event \<Rightarrow> bool" where
  "own_event fs ref e \<longleftrightarrow> ev_ctx e \<in> {None, Some (authCtx fs)} \<and>
     (\<forall>r \<in> set (ev_refs e). RefResourceId r = RefResourceId ref)"

definition within :: "('w, 'c) env \<Rightarrow> 'c root \<Rightarrow> string list \<Rightarrow> 'c event list \<Rightarrow> bool" where
  "within X fs ps l \<longleftrightarrow> (\<forall>e \<in> set l. ev_ctx e \<in> {None, Some (authCtx fs)} \<and>
     (\<forall>r \<in> set (ev_refs e). \<exists>p \<in> set ps. \<exists>ref. names_ref X fs p l ref \<and>
        RefResourceId r = RefResourceId ref))"

lemma within_lookups: "list_all (lookup_event (authCtx fs)) l \<Longrightarrow> within X fs ps l"
  by (auto simp: within_def list_all_iff lookup_event_def)

lemma within_own:
  assumes "resolved X fs p l ref" "list_all (own_event fs ref) l'" "p \<in> set ps"
  shows "within X fs ps (l @ l')"
proof -
  have "names_ref X fs p (l @ l') ref"
    using assms(1) by (auto simp: resolved_def intro: names_ref_mono)
  then show ?thesis
    using assms by (fastforce simp: within_def resolved_def list_all_iff lookup_event_def own_event_def)
qed

lemma wp_within:
  assumes "\<And>ref rel. emits (own_event fs ref) (f ref rel)"
  shows "wp (resolving X fs p f) (\<lambda>r l w'. within X fs [p] l) w"
proof (rule wp_resolving)
  fix l w' ref assume "resolved X fs p l ref"
  then show "wp (f ref (snd (SplitAbsolutePath p))) (\<lambda>r l' w'. within X fs [p] (l @ l')) w'"
    using assms [of ref "snd (SplitAbsolutePath p)"]
    by (auto simp: emits_def wp_run intro!: within_own)
qed (rule within_lookups)

locale path_operation =
  fixes X :: "('w, 'c) env" and fs :: "'c root" and paths :: "string list"
    and op :: "('w, 'c event, 'a) go"
  assumes contained: "op w = (r, l, w') \<Longrightarrow> within X fs paths l"
begin

lemma own_context: "op w = (r, l, w') \<Longrightarrow> e \<in> set l \<Longrightarrow> ev_ctx e \<in> {None, Some (authCtx fs)}"
  using contained [of w r l w'] unfolding within_def by blast

text \<open>A reference the operation sends was made of a space that the gateway listed to it.\<close>

lemma sends_listed_space:
  assumes "op w = (r, l, w')" "e \<in> set l" "ref \<in> set (ev_refs e)"
  obtains p q res sp ref' where "p \<in> set paths"
    "EvListStorageSpaces (authCtx fs) q (Inr res) \<in> set l" "sp \<in> set (StorageSpaces res)"
    "SpaceName sp = fst (SplitAbsolutePath p)"
    "MakeStorageSpaceReference (E_reva X) (SpaceOpaqueId sp) (snd (SplitAbsolutePath p)) = Ok ref'"
    "RefResourceId ref = RefResourceId ref'"
  using contained [OF assms(1)] assms(2,3)
  unfolding within_def names_ref_def by (meson space_named_in)

text \<open>When no listed space has a name that a path starts with, nothing is touched.\<close>

lemma unnamed_untouched:
  assumes "op w = (r, l, w')"
    and "\<And>p q res. p \<in> set paths \<Longrightarrow> EvListStorageSpaces (authCtx fs) q (Inr res) \<in> set l \<Longrightarrow>
      fst (SplitAbsolutePath p) \<notin> SpaceName ` set (StorageSpaces res)"
  shows "list_all (\<lambda>e. ev_refs e = []) l"
proof -
  have "ev_refs e = []" if e: "e \<in> set l" for e
  proof (rule ccontr)
    assume "ev_refs e \<noteq> []"
    then obtain ref where "ref \<in> set (ev_refs e)" by (cases "ev_refs e") auto
    then obtain p q res sp ref' where p: "p \<in> set paths"
      "EvListStorageSpaces (authCtx fs) q (Inr res) \<in> set l"
      and sp: "sp \<in> set (StorageSpaces res)" "SpaceName sp = fst (SplitAbsolutePath p)"
      by (rule sends_listed_space [OF assms(1) e])
    from sp have "fst (SplitAbsolutePath p) \<in> SpaceName ` set (StorageSpaces res)"
      by (metis imageI)
    then show False using assms(2) [OF p] by simp
  qed
  then show ?thesis by (simp add: list_all_iff)
qed

end

text \<open>An operation that only looks: it makes no call that can change what is stored.\<close>

locale query_operation = path_operation X fs paths op
  for X :: "('w, 'c) env" and fs :: "'c root" and paths :: "string list"
    and op :: "('w, 'c event, 'a) go" +
  assumes looks: "op w = (r, l, w') \<Longrightarrow> \<not> list_ex ev_mutates l"
begin

lemma query_event: "op w = (r, l, w') \<Longrightarrow> e \<in> set l \<Longrightarrow> \<not> ev_mutates e"
  using looks by (auto simp: list_ex_iff)

end

subsection \<open>The operations keep it\<close>

lemma own_event_simps [simp]:
  "own_event fs ref (EvNext e)"
  "own_event fs ref (EvStat c ref' sr) \<longleftrightarrow> c = authCtx fs \<and> RefResourceId ref' = RefResourceId ref"
  "own_event fs ref (EvListContainer c ref' lr) \<longleftrightarrow> c = authCtx fs \<and> RefResourceId ref' = RefResourceId ref"
  "own_event fs ref (EvDelete c ref' dr) \<longleftrightarrow> c = authCtx fs \<and> RefResourceId ref' = RefResourceId ref"
  "own_event fs ref (EvCreateContainer c ref' dr) \<longleftrightarrow> c = authCtx fs \<and> RefResourceId ref' = RefResourceId ref"
  "own_event fs ref (EvTouchFile c ref' dr) \<longleftrightarrow> c = authCtx fs \<and> RefResourceId ref' = RefResourceId ref"
  "own_event fs ref (EvMove c (ref', ref'') dr) \<longleftrightarrow> c = authCtx fs \<and>
     RefResourceId ref' = RefResourceId ref \<and> RefResourceId ref'' = RefResourceId ref"
  by (auto simp: own_event_def)

lemma remove_within: "wp (root_remove X fs p) (\<lambda>r l w'. within X fs [p] l) w"
  unfolding root_remove_def by (rule wp_within) (intro emit_rules; simp)

lemma rmdir_within: "wp (root_rmdir X fs p) (\<lambda>r l w'. within X fs [p] l) w"
  unfolding root_rmdir_def by (rule wp_within) (intro emit_rules; simp)

lemma mkdir_within: "wp (root_mkdir X fs p) (\<lambda>r l w'. within X fs [p] l) w"
  unfolding root_mkdir_def by (rule wp_within) (intro emit_rules; simp)

lemma rename_within: "wp (root_renameFile X fs old new ow) (\<lambda>r l w'. within X fs [old, new] l) w"
  unfolding root_renameFile_def
proof (rule wp_spaces, goal_cases)
  case (1 l w' sps)
  note name = listed_names_ref [OF 1]
  have own: "within X fs [old, new] (l @ l')"
    if "resolved X fs old l src" "list_all (own_event fs src) l'" for src l'
    using that by (rule within_own) simp
  have "within X fs [old, new] l" using 1 by (simp add: listed_def within_lookups)
  then show ?case
    by (cases ow) (simp_all add: wp_rules FindSpaceForPath_def result_of_sum_def split_beta
        split: rpc_splits rpc_code.split,
      (auto intro!: own name dest: same_space_same_id)+)
qed (simp add: within_lookups)

lemma list_within: "wp (root_list X fs p) (\<lambda>r l w'. within X fs [p] l) w"
proof (cases "p = ''/''")
  case True
  have "wp (bnd (listStorageSpaces X fs) (\<lambda>sps. ret (storageSpacesToFileInfo sps)))
      (\<lambda>r l w'. within X fs [p] l) w"
    by (rule wp_spaces) (auto simp: wp_ret listed_def within_lookups)
  then show ?thesis using True by (simp add: root_list_def)
next
  case False
  have "wp (resolving X fs p (\<lambda>ref rel. bnd (call_Next X) (\<lambda>_.
     bnd (rpc_call (gw_ListContainer (E_gw X)) EvListContainer (authCtx fs) ref) (\<lambda>listResp.
     if GetCode (ListStatus listResp) \<noteq> CODE_OK then
       fail (Errorf ''list container failed: %s'' [FStr (GetMessage (ListStatus listResp))])
     else ret (toFileInfos (map Some (ListInfos listResp))))))) (\<lambda>r l w'. within X fs [p] l) w"
    by (rule wp_within) (intro emit_rules; simp)
  then show ?thesis using False by (simp add: root_list_def)
qed

lemma stat_within: "wp (root_stat X fs p) (\<lambda>r l w'. within X fs [p] l) w"
  unfolding root_stat_def
proof (rule wp_spaces, goal_cases)
  case (1 l w' sps)
  note name = listed_names_ref [OF 1]
  have own: "within X fs [p] (l @ l')"
    if "resolved X fs p l ref" "list_all (own_event fs ref) l'" for ref l'
    using that by (rule within_own) simp
  have "within X fs [p] l" "within X fs [p] (l @ [EvNext e])" for e
    using 1 by (simp_all add: listed_def within_lookups)
  then show ?case
    by (simp add: wp_rules FindSpaceForPath_def result_of_sum_def split_beta split: rpc_splits)
      (auto intro!: own name)
qed (simp add: within_lookups)

lemma list_looks: "wp (root_list X fs p) (\<lambda>r l w'. \<not> list_ex ev_mutates l) w"
  unfolding root_list_def
proof (rule wp_spaces, goal_cases)
  case (1 l w' sps)
  have "\<not> list_ex ev_mutates l"
    by (rule lookups_no_mutation [of "authCtx fs"]) (use 1 in \<open>simp add: listed_def\<close>)
  then show ?case
    by (simp add: wp_rules FindSpaceForPath_def result_of_sum_def split_beta split: rpc_splits)
qed (rule lookups_no_mutation)

lemma stat_looks: "wp (root_stat X fs p) (\<lambda>r l w'. \<not> list_ex ev_mutates l) w"
  unfolding root_stat_def
proof (rule wp_spaces, goal_cases)
  case (1 l w' sps)
  have "\<not> list_ex ev_mutates l"
    by (rule lookups_no_mutation [of "authCtx fs"]) (use 1 in \<open>simp add: listed_def\<close>)
  then show ?case
    by (simp add: wp_rules FindSpaceForPath_def result_of_sum_def split_beta split: rpc_splits)
qed (rule lookups_no_mutation)

interpretation vfs_remove: path_operation X fs "[p]" "root_remove X fs p" for X fs p
  by unfold_locales (rule wpD [OF remove_within])

interpretation vfs_rmdir: path_operation X fs "[p]" "root_rmdir X fs p" for X fs p
  by unfold_locales (rule wpD [OF rmdir_within])

interpretation vfs_mkdir: path_operation X fs "[p]" "root_mkdir X fs p" for X fs p
  by unfold_locales (rule wpD [OF mkdir_within])

interpretation vfs_rename: path_operation X fs "[old, new]" "root_renameFile X fs old new ow"
  for X fs old new ow
  by unfold_locales (rule wpD [OF rename_within])

interpretation vfs_list: query_operation X fs "[p]" "root_list X fs p" for X fs p
  by unfold_locales (erule wpD [OF list_within], erule wpD [OF list_looks])

interpretation vfs_stat: query_operation X fs "[p]" "root_stat X fs p" for X fs p
  by unfold_locales (erule wpD [OF stat_within], erule wpD [OF stat_looks])

end
