(* ===== verification/SftpContract.thy ===== *)
theory SftpContract
  imports SftpHandlers VfsContract
begin

text \<open>
  The request handlers keep the contract of the operations they run: what opening a file
  does, and that no request reaches outside the spaces its paths name. The lister that a
  listing returns is a positional reader.
\<close>

subsection \<open>Opening a file\<close>

text \<open>
  A successful open: the path was resolved, the handler is a fresh one on the reference, and
  at most one call changed something, the TouchFile that the flags ask for.
\<close>

definition touches :: "open_flags \<Rightarrow> bool" where
  "touches f \<longleftrightarrow> PfWrite f \<and> (PfCreat f \<or> PfTrunc f)"

definition opened where
  "opened X fs r res l \<longleftrightarrow> (\<exists>pre ref.
     resolved X fs (R_Filepath r) pre ref \<and>
     res = Ok (newSftpFileHandler ref (R_Filepath r) (R_Flags r)) \<and>
     (if touches (Pflags X r)
      then \<exists>resp. l = pre @ [EvTouchFile (authCtx fs)
        \<lparr>RefResourceId = RefResourceId ref, RefPath = snd (SplitAbsolutePath (R_Filepath r))\<rparr> resp]
      else l = pre))"

lemma wp_OpenFile:
  "wp (OpenFile X fs r) (\<lambda>res l w'.
     opened X fs r res l \<or> (\<not> list_ex ev_mutates l \<and> (\<exists>e. res = Err e))) w"
  unfolding OpenFile_def
proof (rule wp_resolving, goal_cases)
  case (1 l w' ref)
  have opn: "opened X fs r (Ok (newSftpFileHandler ref (R_Filepath r) (R_Flags r))) l"
    if "\<not> touches (Pflags X r)"
    using 1 that unfolding opened_def by auto
  have tch: "opened X fs r (Ok (newSftpFileHandler ref (R_Filepath r) (R_Flags r)))
     (l @ [EvNext e, EvTouchFile (authCtx fs)
        \<lparr>RefResourceId = RefResourceId ref, RefPath = snd (SplitAbsolutePath (R_Filepath r))\<rparr> resp])"
    if "touches (Pflags X r)" for e resp
    using 1 that unfolding opened_def
    by (intro exI [of _ "l @ [EvNext e]"] exI [of _ ref]) (auto intro: resolved_next)
  show ?case
    using opn tch 1
    by (auto simp: wp_rules Let_def result_of_sum_def touches_def split: rpc_splits)
qed (simp add: lookups_no_mutation)

lemma open_within: "wp (OpenFile X fs r) (\<lambda>res l w'. within X fs [R_Filepath r] l) w"
  unfolding OpenFile_def Let_def by (rule wp_within) (intro emit_rules; simp)

lemma wp_guarded_pure: "(b \<Longrightarrow> Q (Err e) [] w) \<Longrightarrow> (\<not> b \<Longrightarrow> wp m Q w) \<Longrightarrow> wp (if b then fail e else m) Q w"
  by (simp add: wp_fail)

lemma within_nil [simp]: "within X fs ps []"
  by (simp add: within_def)

lemma names_ref_any: "names_ref X fs p l ref \<Longrightarrow> p \<in> set ps \<Longrightarrow> \<exists>p \<in> set ps. names_ref X fs p l ref"
  by blast

lemma within_paths: "within X fs ps l \<Longrightarrow> set ps \<subseteq> set ps' \<Longrightarrow> within X fs ps' l"
  unfolding within_def by (meson subsetD)

lemma read_within: "wp (Fileread X fs r) (\<lambda>res l w'. within X fs [R_Filepath r] l) w"
  unfolding Fileread_def by (rule wp_guarded_pure) (simp, rule open_within)

lemma write_within: "wp (Filewrite X fs r) (\<lambda>res l w'. within X fs [R_Filepath r] l) w"
  unfolding Filewrite_def by (rule wp_guarded_pure) (simp, rule open_within)

interpretation vfs_read: path_operation X fs "[R_Filepath r]" "Fileread X fs r" for X fs r
  by unfold_locales (rule wpD [OF read_within])

interpretation vfs_write: path_operation X fs "[R_Filepath r]" "Filewrite X fs r" for X fs r
  by unfold_locales (rule wpD [OF write_within])

subsection \<open>Commands and listings\<close>

lemma cmd_within: "wp (Filecmd X fs r) (\<lambda>res l w'. within X fs [R_Filepath r, R_Target r] l) w"
proof -
  have one: "wp m (\<lambda>res l w'. within X fs [R_Filepath r, R_Target r] l) w"
    if "wp m (\<lambda>res l w'. within X fs [R_Filepath r] l) w" for m :: "('a, 'b event, unit) go"
    using that by (rule wp_mono) (erule within_paths, simp)
  show ?thesis
    by (simp add: Filecmd_def root_rename_def wp_fail rename_within one remove_within rmdir_within mkdir_within)
qed

lemma posix_rename_within: "wp (PosixRename X fs r) (\<lambda>res l w'. within X fs [R_Filepath r, R_Target r] l) w"
  by (simp add: PosixRename_def root_rename_def rename_within)

lemma filelist_query: "wp (Filelist X fs r) (\<lambda>res l w'. within X fs [R_Filepath r] l \<and> \<not> list_ex ev_mutates l) w"
proof -
  have stat: "wp (bnd (root_stat X fs p) (\<lambda>fi. ret [fi])) (\<lambda>res l w'. within X fs [p] l \<and> \<not> list_ex ev_mutates l) w" for p
    unfolding wp_bnd
    by (rule wp_mono [of _ "\<lambda>r l w'. within X fs [p] l \<and> \<not> list_ex ev_mutates l"])
      (auto simp: wp_conj stat_within stat_looks wp_ret split: result.split)
  show ?thesis
    by (simp add: Filelist_def wp_fail wp_conj list_within list_looks stat [unfolded wp_conj])
qed

interpretation vfs_cmd: path_operation X fs "[R_Filepath r, R_Target r]" "Filecmd X fs r" for X fs r
  by unfold_locales (rule wpD [OF cmd_within])

interpretation vfs_posix_rename: path_operation X fs "[R_Filepath r, R_Target r]" "PosixRename X fs r" for X fs r
  by unfold_locales (rule wpD [OF posix_rename_within])

interpretation vfs_filelist: query_operation X fs "[R_Filepath r]" "Filelist X fs r" for X fs r
  by unfold_locales (auto dest: wpD [OF filelist_query])

subsection \<open>The lister\<close>

text \<open>ListAt into a slice of \<open>n\<close> entries, as a reader.\<close>

definition ListAt_chunk :: "'a list \<Rightarrow> 'a \<Rightarrow> nat \<Rightarrow> nat \<Rightarrow> 'a list \<times> bool" where
  "ListAt_chunk f z n off = (case ListAt f (replicate n z) (int off) of
      Ok (m, ls, err) \<Rightarrow> (take m ls, err \<noteq> None) | _ \<Rightarrow> ([], True))"

interpretation lister: reader_at "ListAt_chunk f z" f for f :: "'a list" and z :: 'a
  by unfold_locales (auto simp: ListAt_chunk_def ListAt_def slice_from_def go_copy_def Let_def min_def
      split: if_splits)

end
