(* ===== verification/FileCache.thy ===== *)
theory FileCache
  imports FileHandler Sample
begin

text \<open>
  Correctness of the open-file handler: the invariant that ties the cache to the recorded
  size, the meaning of each operation on the cached bytes, and the uploads they make.
\<close>

subsection \<open>The invariant\<close>

text \<open>What is assumed of the runtime: its largest allocation fits a signed 64-bit size.\<close>

definition runtime_ok :: "('w, 'c) env \<Rightarrow> bool" where
  "runtime_ok X \<longleftrightarrow> 0 \<le> E_max_alloc X \<and> E_max_alloc X < 2 ^ 63"

text \<open>The part that holds while the lock is held, and the whole between operations.\<close>

definition cache_inv :: "('w, 'c) env \<Rightarrow> handler \<Rightarrow> bool" where
  "cache_inv X h \<longleftrightarrow> h_fileSize h = int (length (bytes_of h)) \<and>
     int (length (bytes_of h)) \<le> E_max_alloc X \<and> (h_cacheValid h \<longrightarrow> h_cache h \<noteq> None)"

definition handler_inv :: "('w, 'c) env \<Rightarrow> handler \<Rightarrow> bool" where
  "handler_inv X h \<longleftrightarrow> h_mu h = Unlocked \<and> cache_inv X h"

text \<open>The fields no operation writes.\<close>

definition same_file :: "handler \<Rightarrow> handler \<Rightarrow> bool" where
  "same_file h h' \<longleftrightarrow> h_ref h' = h_ref h \<and> h_filepath h' = h_filepath h \<and> h_flags h' = h_flags h"

lemma new_handler_inv: "runtime_ok X \<Longrightarrow> handler_inv X (newSftpFileHandler ref p f)"
  by (simp add: handler_inv_def cache_inv_def newSftpFileHandler_def bytes_of_def runtime_ok_def)

lemma mu_same [simp]: "h_mu h = m \<Longrightarrow> h\<lparr>h_mu := m\<rparr> = h"
  by (cases h) simp

lemma bytes_of_updates [simp]:
  "bytes_of (h\<lparr>h_mu := m\<rparr>) = bytes_of h" "bytes_of (h\<lparr>h_etag := e\<rparr>) = bytes_of h"
  "bytes_of (h\<lparr>h_fileSize := n\<rparr>) = bytes_of h" "bytes_of (h\<lparr>h_cacheValid := v\<rparr>) = bytes_of h"
  "bytes_of (h\<lparr>h_cache := Some c\<rparr>) = c"
  by (simp_all add: bytes_of_def)

lemma cache_inv_updates [simp]:
  "cache_inv X (h\<lparr>h_mu := m\<rparr>) = cache_inv X h" "cache_inv X (h\<lparr>h_etag := e\<rparr>) = cache_inv X h"
  by (simp_all add: cache_inv_def)

lemma same_file_refl [simp]: "same_file h h"
  by (simp add: same_file_def)

lemma same_file_trans: "same_file h h' \<Longrightarrow> same_file h' h'' \<Longrightarrow> same_file h h''"
  by (simp add: same_file_def)

lemma same_file_updates [simp]:
  "same_file h (h'\<lparr>h_mu := m\<rparr>) = same_file h h'" "same_file h (h'\<lparr>h_etag := e\<rparr>) = same_file h h'"
  "same_file h (h'\<lparr>h_cache := c\<rparr>) = same_file h h'"
  "same_file h (h'\<lparr>h_fileSize := n\<rparr>) = same_file h h'"
  "same_file h (h'\<lparr>h_cacheValid := v\<rparr>) = same_file h h'"
  by (simp_all add: same_file_def)

subsection \<open>Reading\<close>

text \<open>What a read of a file with contents \<open>c\<close> gives for a buffer and an offset.\<close>

definition read_spec :: "byte list \<Rightarrow> byte list \<Rightarrow> nat \<Rightarrow> read_res" where
  "read_spec c b off =
     (if length c \<le> off then (0, b, Some EOF)
      else let n = min (length b) (length c - off)
           in (n, take n (drop off c) @ drop n b, if length c \<le> off + n then Some EOF else None))"

lemma readFromCache_eq:
  assumes "handler_inv X h" "runtime_ok X" "0 \<le> off"
  shows "readFromCache b off (w, h) = (Ok (read_spec (bytes_of h) b (nat off)), [], (w, h))"
proof -
  have bnd: "int64 (off + int (min (length b) (length (bytes_of h) - nat off))) =
      off + int (min (length b) (length (bytes_of h) - nat off))"
    if "off < int (length (bytes_of h))"
    using that assms by (intro int64_id) (auto simp: handler_inv_def cache_inv_def runtime_ok_def)
  have "wp (readFromCache b off)
     (\<lambda>r l s. r = Ok (read_spec (bytes_of h) b (nat off)) \<and> l = [] \<and> s = (w, h)) (w, h)"
    using assms bnd
    by (auto simp: readFromCache_def wp_rules handler_inv_def cache_inv_def read_spec_def
        slice_from_def go_copy_def Let_def)
  then show ?thesis by (rule wp_eqD)
qed

lemma readFromCache_negative:
  assumes "handler_inv X h" "off < 0"
  shows "readFromCache b off (w, h) = (Abort SliceBounds, [], (w, h))"
  by (rule wp_eqD) (use assms in \<open>auto simp: readFromCache_def wp_rules handler_inv_def
    cache_inv_def slice_from_def Let_def\<close>)

lemma ReadAt_cached:
  assumes "handler_inv X h" "h_cacheValid h"
  shows "ReadAt X fs b off (w, h) = readFromCache b off (w, h)"
  using assms
  by (simp add: ReadAt_def bnd_def [of mu_RLock] bnd_def [of get_h] bnd_def [of mu_RUnlock] mu_RLock_def mu_RUnlock_def
      get_h_def set_h_def go_defs handler_inv_def cache_inv_def split: prod.splits)

subsection \<open>Downloading\<close>

text \<open>A download only looks at the storage; it fills the cache or leaves the handler alone.\<close>

definition download_event :: "'c root \<Rightarrow> handler \<Rightarrow> byte list \<Rightarrow> 'c event \<Rightarrow> bool" where
  "download_event fs h c e \<longleftrightarrow> (case e of
      EvStat ctx ref (Inr sr) \<Rightarrow> ctx = authCtx fs \<and> ref = h_ref h \<and>
        GetCode (StatStatus sr) = CODE_NOT_FOUND \<and> c = []
    | EvHttp q (Inr resp) \<Rightarrow> HttpMethod q = ''GET'' \<and> HttpStatusCode resp = 200 \<and>
        HttpResBody resp = c \<and> HttpResBodyErr resp = None
    | _ \<Rightarrow> False)"

lemma download_event_cases:
  assumes "download_event fs h c e"
  obtains (absent) sr where "e = EvStat (authCtx fs) (h_ref h) (Inr sr)"
      "GetCode (StatStatus sr) = CODE_NOT_FOUND" "c = []"
    | (sent) q resp where "e = EvHttp q (Inr resp)" "HttpMethod q = ''GET''" "HttpStatusCode resp = 200"
      "HttpResBody resp = c" "HttpResBodyErr resp = None"
proof (cases e)
  case (EvStat ctx r resp)
  then show ?thesis using assms absent by (cases resp) (auto simp: download_event_def)
next
  case (EvHttp q resp)
  then show ?thesis using assms sent by (cases resp) (auto simp: download_event_def)
qed (use assms in \<open>simp_all add: download_event_def\<close>)

text \<open>The log shows where the contents came from: the storage has no such file, or sent them.\<close>

definition downloaded :: "'c root \<Rightarrow> handler \<Rightarrow> byte list \<Rightarrow> 'c event list \<Rightarrow> bool" where
  "downloaded fs h c l \<longleftrightarrow> list_ex (download_event fs h c) l"

definition download_post where
  "download_post X fs h r l h' \<longleftrightarrow>
     handler_inv X h' \<and> same_file h h' \<and> \<not> list_ex ev_mutates l \<and>
     (case r of Ok _ \<Rightarrow> h_cacheValid h' \<and> downloaded fs h (bytes_of h') l | Err _ \<Rightarrow> h' = h | Abort a \<Rightarrow> h' = h \<and> a \<in> {NilDeref, MakeSlice})"

lemma download_post_fails [simp]:
  "handler_inv X h \<Longrightarrow> download_post X fs h (Err e) l h \<longleftrightarrow> \<not> list_ex ev_mutates l"
  "handler_inv X h \<Longrightarrow> download_post X fs h (Abort a) l h \<longleftrightarrow>
     \<not> list_ex ev_mutates l \<and> a \<in> {NilDeref, MakeSlice}"
  by (auto simp: download_post_def)

lemma download_post_fills [simp]:
  assumes "h_mu h = Unlocked" "0 \<le> E_max_alloc X"
  shows "download_post X fs h (Ok u) l (h\<lparr>h_cache := Some [], h_cacheValid := True, h_fileSize := 0\<rparr>)
      \<longleftrightarrow> \<not> list_ex ev_mutates l \<and> downloaded fs h [] l"
    and "int (length c) \<le> E_max_alloc X \<Longrightarrow>
      download_post X fs h (Ok u) l (h\<lparr>h_cache := Some c, h_cacheValid := True,
        h_fileSize := int (length c), h_etag := e\<rparr>) \<longleftrightarrow>
      \<not> list_ex ev_mutates l \<and> downloaded fs h c l"
  using assms by (auto simp add: download_post_def handler_inv_def cache_inv_def same_file_def bytes_of_def)

lemma wp_downloadFile:
  assumes inv: "handler_inv X h" and "runtime_ok X"
  shows "wp (downloadFile X fs) (\<lambda>r l (w', h'). download_post X fs h r l h') (w, h)"
proof -
  have "h_mu h = Unlocked" "0 \<le> E_max_alloc X"
    using assms by (simp_all add: handler_inv_def runtime_ok_def)
  with inv show ?thesis
    by (simp add: downloadFile_def wp_rules result_of_sum_def deref_def ReadAll_def NewRequest_def
        downloaded_def download_event_def split: rpc_splits)
qed

subsection \<open>Uploading\<close>

text \<open>
  An upload changes at most the etag; what it sends is the whole cache, with its length as
  the content length and, in decimal, as the announced upload length.
\<close>

definition uploads :: "'c root \<Rightarrow> handler \<Rightarrow> byte list \<Rightarrow> 'c event \<Rightarrow> bool" where
  "uploads fs h c e \<longleftrightarrow> (case e of
      EvNext _ \<Rightarrow> True
    | EvInitiateFileUpload ctx q _ \<Rightarrow> ctx = authCtx fs \<and> UploadRef q = h_ref h \<and>
        UploadOpaque q = [(''Upload-Length'', ''plain'', FormatInt (int (length c)))] \<and>
        IfMatch q = (if h_etag h = [] then None else Some (h_etag h))
    | EvHttp q _ \<Rightarrow> HttpMethod q = ''PUT'' \<and> HttpBody q = c \<and> HttpContentLength q = int (length c)
    | _ \<Rightarrow> False)"

lemma uploads_simps [simp]:
  "uploads fs h c (EvNext e)"
  "uploads fs h c (EvInitiateFileUpload ctx q resp) \<longleftrightarrow> ctx = authCtx fs \<and> UploadRef q = h_ref h \<and>
        UploadOpaque q = [(''Upload-Length'', ''plain'', FormatInt (int (length c)))] \<and>
        IfMatch q = (if h_etag h = [] then None else Some (h_etag h))"
  "uploads fs h c (EvHttp hq resp') \<longleftrightarrow>
     HttpMethod hq = ''PUT'' \<and> HttpBody hq = c \<and> HttpContentLength hq = int (length c)"
  by (simp_all add: uploads_def)

lemma uploads_put:
  "list_all (uploads fs h c) l \<Longrightarrow> EvHttp q resp \<in> set l \<Longrightarrow> HttpMethod q = ''PUT'' \<and> HttpBody q = c"
  by (fastforce simp: list_all_iff)

text \<open>The data gateway answered 200 to a request of the log.\<close>

definition acked :: "'c event list \<Rightarrow> bool" where
  "acked l \<longleftrightarrow> (\<exists>q resp. EvHttp q (Inr resp) \<in> set l \<and> HttpStatusCode resp = 200)"

definition upload_post where
  "upload_post fs h r l h' \<longleftrightarrow>
     h' = h\<lparr>h_etag := h_etag h'\<rparr> \<and> list_all (uploads fs h (bytes_of h)) l \<and>
     (case r of Ok _ \<Rightarrow> acked l | Err _ \<Rightarrow> h' = h \<and> \<not> acked l | Abort a \<Rightarrow> a \<in> {NilDeref, MakeSlice})"

lemma etag_same [simp]: "h\<lparr>h_etag := h_etag h\<rparr> = h"
  by (cases h) simp

lemma wp_uploadFile:
  assumes "cache_inv X h"
  shows "wp (uploadFile X fs) (\<lambda>r l (w', h'). upload_post fs h r l h') (w, h)"
proof -
  have "h_fileSize h = int (length (bytes_of h))" using assms by (simp add: cache_inv_def)
  then show ?thesis
    by (simp add: uploadFile_def wp_rules result_of_sum_def deref_def ReadAll_def NewRequest_def
        slice_to_def upload_post_def acked_def split: rpc_splits)
qed

subsection \<open>Writing\<close>

text \<open>
  The meaning of a write on the contents: a gap before the offset is filled with zeros, the
  bytes are put at the offset, and what lies behind them stays.
\<close>

definition put_at :: "byte list \<Rightarrow> nat \<Rightarrow> byte list \<Rightarrow> byte list" where
  "put_at c off b = take off (c @ replicate (off - length c) 0) @ b @ drop (off + length b) c"

lemma length_put_at: "length (put_at c off b) = max (length c) (off + length b)"
  by (auto simp: put_at_def max_def)

lemma put_at_fits:
  "off + length b \<le> length c \<Longrightarrow> put_at c off b = take off c @ b @ drop (length b) (drop off c)"
  by (simp add: put_at_def add.commute)

lemma put_at_grows:
  assumes "length c < off + length b"
  shows "put_at c off b =
    take off (c @ replicate (off + length b - length c) 0) @ b @
    drop (length b) (drop off (c @ replicate (off + length b - length c) 0))"
proof -
  have "take off (c @ replicate (off - length c) 0) =
      take off (c @ replicate (off + length b - length c) (0 :: byte))"
    using assms by (simp add: take_replicate min_def)
  then show ?thesis using assms by (simp add: put_at_def)
qed

lemma put_at_nth_inside: "k < length b \<Longrightarrow> put_at c off b ! (off + k) = b ! k"
  by (auto simp: put_at_def nth_append min_def)

lemma put_at_nth_outside:
  assumes "k < length c" "k < off \<or> off + length b \<le> k"
  shows "put_at c off b ! k = c ! k"
  using assms
  by (cases "k < off") (auto simp: put_at_def nth_append min_def)

lemma put_at_nth_gap: "length c \<le> k \<Longrightarrow> k < off \<Longrightarrow> put_at c off b ! k = 0"
  by (auto simp: put_at_def nth_append min_def)

lemma put_at_window: "take (length b) (drop off (put_at c off b)) = b"
  by (simp add: put_at_def)

text \<open>The state after the locked section: new contents, everything else but the etag as before.\<close>

definition stored where
  "stored X fs h c l h' \<longleftrightarrow>
     bytes_of h' = c \<and> cache_inv X h' \<and> same_file h h' \<and> h_mu h' = h_mu h \<and>
     h_cacheValid h' = h_cacheValid h \<and> list_all (uploads fs h c) l"

definition write_post where
  "write_post X fs h c n r l h' \<longleftrightarrow> stored X fs h c l h' \<and>
     (case r of Ok (m, err) \<Rightarrow> m = n \<and> (err = None \<longleftrightarrow> acked l)
      | Err _ \<Rightarrow> False | Abort a \<Rightarrow> a \<in> {NilDeref, MakeSlice})"

definition resize_post where
  "resize_post X fs h c r l h' \<longleftrightarrow> stored X fs h c l h' \<and>
     (case r of Ok _ \<Rightarrow> acked l | Err _ \<Rightarrow> \<not> acked l | Abort a \<Rightarrow> a \<in> {NilDeref, MakeSlice})"

lemma wp_commit:
  assumes "cache_inv X h1" "bytes_of h1 = c"
    "same_file h h1" "h_mu h1 = h_mu h" "h_cacheValid h1 = h_cacheValid h" "h_etag h1 = h_etag h"
  shows "wp (uploadFile X fs) (\<lambda>r l (w', h'). resize_post X fs h c r l h') (w, h1)"
proof -
  have up: "list_all (uploads fs h1 c) l = list_all (uploads fs h c) l" for l
    using assms(3,6) unfolding uploads_def same_file_def by simp
  have post: "resize_post X fs h c r l h'" if u: "upload_post fs h1 r l h'" for r :: "unit result" and l h'
  proof -
    obtain e where h': "h' = h1\<lparr>h_etag := e\<rparr>" using u by (auto simp: upload_post_def)
    show ?thesis using u assms up
      unfolding resize_post_def stored_def upload_post_def h'
      by (auto split: result.splits)
  qed
  show ?thesis
    by (rule wp_mono [OF wp_uploadFile [OF assms(1)]]) (auto intro: post)
qed

lemma wp_upload_counted:
  assumes "cache_inv X h1" "bytes_of h1 = c"
    "same_file h h1" "h_mu h1 = h_mu h" "h_cacheValid h1 = h_cacheValid h" "h_etag h1 = h_etag h"
  shows "wp (upload_counted X fs n) (\<lambda>r l (w', h'). write_post X fs h c n r l h') (w, h1)"
  unfolding upload_counted_def wp_bnd wp_try_go
  by (rule wp_mono [OF wp_commit [OF assms]])
    (auto simp: wp_ret resize_post_def write_post_def split: result.splits prod.splits)

lemma write_bounds:
  assumes "runtime_ok X" "0 \<le> off" "off + int (length b) \<le> E_max_alloc X"
  shows "int64 (off + int (length b)) = off + int (length b)"
  using assms by (intro int64_id) (simp_all add: runtime_ok_def)

lemma make_copy:
  assumes "length c \<le> n"
  shows "snd (go_copy (replicate n (0 :: byte)) c) = c @ replicate (n - length c) 0"
  using assms by (simp add: go_copy_fits)

lemma go_copy_window:
  assumes "length b \<le> length c - off"
  shows "go_copy (drop off c) b = (length b, b @ drop (length b) (drop off c))"
  using assms by (simp add: go_copy_def Let_def min_def)

text \<open>The cache after the bytes were put into it, all else as before.\<close>

definition cache_written where
  "cache_written X h c n r l h' \<longleftrightarrow> r = Ok n \<and> l = [] \<and> bytes_of h' = c \<and> cache_inv X h' \<and>
     same_file h h' \<and> h_mu h' = h_mu h \<and> h_cacheValid h' = h_cacheValid h \<and> h_etag h' = h_etag h"

lemma wp_put_chunk:
  assumes inv: "cache_inv X h1" and fits: "0 \<le> off" "off + int (length b) \<le> int (length (bytes_of h1))"
    and same: "same_file h h1" "h_mu h1 = h_mu h" "h_cacheValid h1 = h_cacheValid h" "h_etag h1 = h_etag h"
    and c: "c = take (nat off) (bytes_of h1) @ b @ drop (length b) (drop (nat off) (bytes_of h1))"
  shows "wp (bnd get_h (\<lambda>h.
     bnd (of_result (slice_from (bytes_of h) off)) (\<lambda>dst.
     case go_copy dst b of (n, dst') \<Rightarrow>
     bnd (set_h (\<lambda>h. h\<lparr>h_cache := map_option (\<lambda>c. take (nat off) c @ dst') (h_cache h)\<rparr>)) (\<lambda>_.
     ret n))))
     (\<lambda>r l (w', h'). w' = w \<and> cache_written X h c (length b) r l h') (w, h1)"
proof -
  let ?c = "bytes_of h1"
  have win: "go_copy (drop (nat off) ?c) b = (length b, b @ drop (length b) (drop (nat off) ?c))"
    by (rule go_copy_window) (use fits in linarith)
  have sl: "slice_from ?c off = Ok (drop (nat off) ?c)"
    using fits by (simp add: slice_from_def)
  have n: "nat off + length b \<le> length ?c" using fits by arith
  then have lc: "length c = length ?c" unfolding c by simp
  define h2 where "h2 = h1\<lparr>h_cache :=
    map_option (\<lambda>c. take (nat off) c @ b @ drop (length b) (drop (nat off) ?c)) (h_cache h1)\<rparr>"
  have cache: "bytes_of h2 = c"
    using lc by (cases "h_cache h1") (auto simp: h2_def c bytes_of_def)
  then have inv2: "cache_inv X h2"
    using inv lc by (auto simp: cache_inv_def h2_def)
  have "cache_written X h c (length b) (Ok (length b)) [] h2"
    using cache inv2 same by (simp add: cache_written_def h2_def same_file_def)
  then show ?thesis
    unfolding h2_def by (simp add: wp_handler_step sl win wp_ret del: drop_drop)
qed

lemma wp_write_cache:
  assumes inv: "cache_inv X h" and ok: "runtime_ok X"
    and off: "0 \<le> off" "off + int (length b) \<le> E_max_alloc X"
  shows "wp (write_cache X b off) (\<lambda>r l (w', h'). w' = w \<and>
     cache_written X h (put_at (bytes_of h) (nat off) b) (length b) r l h') (w, h)"
proof -
  let ?c = "bytes_of h" and ?n = "nat off + length b"
  note req = write_bounds [OF ok off]
  show ?thesis
  proof (cases "int (length ?c) < off + int (length b)")
    case grow: True
    define g where "g = ?c @ replicate (?n - length ?c) (0 :: byte)"
    define h1 where "h1 = h\<lparr>h_cache := Some g, h_fileSize := off + int (length b)\<rparr>"
    have mk: "make_bytes (E_max_alloc X) (off + int (length b)) = Ok (replicate ?n 0)"
      using off by (simp add: make_bytes_def nat_add_distrib)
    have copy: "snd (go_copy (replicate ?n 0) ?c) = g"
      unfolding g_def by (rule make_copy) (use grow in linarith)
    have len: "length g = ?n" using grow by (simp add: g_def)
    have c': "put_at ?c (nat off) b = take (nat off) g @ b @ drop (length b) (drop (nat off) g)"
      unfolding g_def by (rule put_at_grows) (use grow in linarith)
    have b1: "bytes_of h1 = g" by (simp add: h1_def bytes_of_def)
    have "wp (bnd get_h (\<lambda>h.
       bnd (of_result (slice_from (bytes_of h) off)) (\<lambda>dst.
       case go_copy dst b of (n, dst') \<Rightarrow>
       bnd (set_h (\<lambda>h. h\<lparr>h_cache := map_option (\<lambda>c. take (nat off) c @ dst') (h_cache h)\<rparr>)) (\<lambda>_.
       ret n))))
       (\<lambda>r l (w', h'). w' = w \<and> cache_written X h (put_at ?c (nat off) b) (length b) r l h') (w, h1)"
      by (rule wp_put_chunk)
        (use off len b1 c' in \<open>simp_all add: cache_inv_def h1_def same_file_def\<close>)
    then show ?thesis
      unfolding write_cache_def
      by (subst wp_handler_step, unfold Let_def req, subst if_P [OF grow], unfold mk of_result_simps bnd_ret,
          subst wp_handler_step) (unfold copy, fold h1_def)
  next
    case fits: False
    have c': "put_at ?c (nat off) b = take (nat off) ?c @ b @ drop (length b) (drop (nat off) ?c)"
      by (rule put_at_fits) (use fits off in arith)
    have "wp (bnd get_h (\<lambda>h.
       bnd (of_result (slice_from (bytes_of h) off)) (\<lambda>dst.
       case go_copy dst b of (n, dst') \<Rightarrow>
       bnd (set_h (\<lambda>h. h\<lparr>h_cache := map_option (\<lambda>c. take (nat off) c @ dst') (h_cache h)\<rparr>)) (\<lambda>_.
       ret n))))
       (\<lambda>r l (w', h'). w' = w \<and> cache_written X h (put_at ?c (nat off) b) (length b) r l h') (w, h)"
      by (rule wp_put_chunk) (use off fits inv c' in \<open>simp_all add: same_file_def\<close>)
    then show ?thesis
      unfolding write_cache_def
      by (subst wp_handler_step) (simp add: Let_def req fits)
  qed
qed

lemma wp_write_locked:
  assumes inv: "cache_inv X h" and ok: "runtime_ok X"
    and off: "0 \<le> off" "off + int (length b) \<le> E_max_alloc X"
  shows "wp (write_locked X fs b off) (\<lambda>r l (w', h').
     write_post X fs h (put_at (bytes_of h) (nat off) b) (length b) r l h') (w, h)"
  unfolding write_locked_def wp_bnd
  by (rule wp_mono [OF wp_write_cache [OF assms]])
    (auto simp: cache_written_def intro!: wp_upload_counted)

end
