(* ===== verification/FileOps.thy ===== *)
theory FileOps
  imports FileCache Reader
begin

text \<open>
  The operations of an open file as a whole, and sequences of them: each keeps the
  handler's invariant, acts on the contents as on an array of bytes, and uploads the whole
  new contents or says that it could not.
\<close>

subsection \<open>Resizing\<close>

text \<open>Cut to \<open>n\<close> bytes, or filled with zeros up to \<open>n\<close> bytes.\<close>

definition resize :: "byte list \<Rightarrow> nat \<Rightarrow> byte list" where
  "resize c n = take n (c @ replicate (n - length c) 0)"

lemma length_resize [simp]: "length (resize c n) = n"
  by (simp add: resize_def)

lemma resize_nth: "k < n \<Longrightarrow> resize c n ! k = (if k < length c then c ! k else 0)"
  by (auto simp: resize_def nth_append)

lemma resize_resize_down: "m \<le> n \<Longrightarrow> resize (resize c n) m = resize c m"
  by (rule nth_equalityI) (simp_all add: resize_nth)

lemma resize_cache_run:
  assumes "0 \<le> sz" "sz \<le> E_max_alloc X"
  shows "resize_cache X sz (w, h) =
    (Ok (), [], (w, h\<lparr>h_cache := Some (resize (bytes_of h) (nat sz)), h_fileSize := sz\<rparr>))"
proof -
  consider "sz = 0" | "sz \<noteq> 0" "sz < int (length (bytes_of h))" | "sz \<noteq> 0" "int (length (bytes_of h)) \<le> sz"
    by linarith
  then show ?thesis
  proof cases
    case 1 then show ?thesis by (simp add: resize_cache_def bnd_get_h bnd_set_h set_h_run resize_def)
  next
    case 2 then show ?thesis using assms
      by (simp add: resize_cache_def bnd_get_h bnd_set_h set_h_run resize_def slice_to_def)
  next
    case 3 then show ?thesis using assms
      by (simp add: resize_cache_def bnd_get_h bnd_assoc bnd_set_h set_h_run resize_def make_bytes_def
          go_copy_fits nat_le_iff)
  qed
qed

lemma wp_resize_locked:
  assumes inv: "cache_inv X h" and valid: "h_cacheValid h"
    and sz: "0 \<le> sz" "sz \<le> E_max_alloc X"
  shows "wp (resize_locked X fs sz) (\<lambda>r l (w', h').
     resize_post X fs h (resize (bytes_of h) (nat sz)) r l h') (w, h)"
proof -
  let ?c = "resize (bytes_of h) (nat sz)"
  have "wp (uploadFile X fs) (\<lambda>r l (w', h'). resize_post X fs h ?c r l h') (w, h\<lparr>h_cache := Some ?c, h_fileSize := sz\<rparr>)"
    by (rule wp_commit) (use sz in \<open>simp_all add: cache_inv_def same_file_def bytes_of_def\<close>)
  then show ?thesis
    by (simp add: resize_locked_def wp_bnd wp_def [of "resize_cache X sz"] resize_cache_run [OF sz])
qed

subsection \<open>WriteAt\<close>

text \<open>
  What a write works on: the cached contents, what a download fetched, or, when the download
  failed, whatever the handler had before.
\<close>

definition base_of :: "'c root \<Rightarrow> handler \<Rightarrow> byte list \<Rightarrow> 'c event list \<Rightarrow> bool" where
  "base_of fs h c l \<longleftrightarrow>
     (if h_cacheValid h then c = bytes_of h \<and> l = []
      else \<not> list_ex ev_mutates l \<and> (downloaded fs h c l \<or> c = bytes_of h))"

definition WriteAt_post where
  "WriteAt_post X fs h b off r l h' \<longleftrightarrow> handler_inv X h' \<and> same_file h h' \<and>
     ((\<exists>pre c l' e. l = pre @ l' \<and> base_of fs h c pre \<and> (h_cacheValid h \<longrightarrow> h_cacheValid h') \<and>
         bytes_of h' = put_at c (nat off) b \<and>
         list_all (uploads fs (h\<lparr>h_etag := e\<rparr>) (bytes_of h')) l' \<and>
         (case r of Ok (m, err) \<Rightarrow> m = length b \<and> (err = None \<longrightarrow> acked l')
          | Err _ \<Rightarrow> False | Abort a \<Rightarrow> a \<in> {NilDeref, MakeSlice})) \<or>
      (\<not> h_cacheValid h \<and> h' = h \<and> \<not> list_ex ev_mutates l \<and> r \<in> {Abort NilDeref, Abort MakeSlice}))"

lemma uploads_cong:
  "h_ref h = h_ref h' \<Longrightarrow> h_etag h = h_etag h' \<Longrightarrow> uploads fs h = uploads fs h'"
  by (intro ext) (simp only: uploads_def)

lemma wp_locked_write:
  assumes inv: "handler_inv X h1" and ok: "runtime_ok X"
    and off: "0 \<le> off" "off + int (length b) \<le> E_max_alloc X"
    and pre: "same_file h h1" "base_of fs h (bytes_of h1) pre" "h_cacheValid h \<longrightarrow> h_cacheValid h1"
  shows "wp (bnd mu_Lock (\<lambda>_. with_defer mu_Unlock (write_locked X fs b off)))
     (\<lambda>r l (w', h'). WriteAt_post X fs h b off r (pre @ l) h') (w, h1)"
proof -
  let ?h = "h1\<lparr>h_mu := WLocked\<rparr>"
  have post: "h_mu h' = WLocked \<and> WriteAt_post X fs h b off r (pre @ l) (h'\<lparr>h_mu := Unlocked\<rparr>) \<and>
      r \<noteq> Abort FatalUnlock \<and> r \<noteq> Abort Blocked"
    if w: "write_post X fs ?h (put_at (bytes_of h1) (nat off) b) (length b) r l h'" for r l h'
  proof -
    have "h_ref ?h = h_ref h" using pre(1) by (simp add: same_file_def)
    then have up: "uploads fs ?h = uploads fs (h\<lparr>h_etag := h_etag h1\<rparr>)"
      by (intro uploads_cong) simp_all
    have "same_file h (h'\<lparr>h_mu := Unlocked\<rparr>)"
      using w pre(1) by (simp add: write_post_def stored_def same_file_def)
    moreover have "handler_inv X (h'\<lparr>h_mu := Unlocked\<rparr>)" "h_cacheValid h' = h_cacheValid h1"
      "bytes_of h' = put_at (bytes_of h1) (nat off) b"
      "list_all (uploads fs (h\<lparr>h_etag := h_etag h1\<rparr>) (bytes_of h')) l"
      using w up by (simp_all add: write_post_def stored_def handler_inv_def)
    moreover have "case r of Ok (m, err) \<Rightarrow> m = length b \<and> (err = None \<longrightarrow> acked l)
        | Err _ \<Rightarrow> False | Abort a \<Rightarrow> a \<in> {NilDeref, MakeSlice}"
      using w by (auto simp: write_post_def split: result.splits)
    ultimately have "WriteAt_post X fs h b off r (pre @ l) (h'\<lparr>h_mu := Unlocked\<rparr>)"
      unfolding WriteAt_post_def using pre
      by (intro conjI disjI1 exI [of _ pre] exI [of _ "bytes_of h1"] exI [of _ l] exI [of _ "h_etag h1"])
        simp_all
    then show ?thesis using w by (auto simp: write_post_def stored_def)
  qed
  have "wp (write_locked X fs b off) (\<lambda>r l (w', h').
     write_post X fs ?h (put_at (bytes_of h1) (nat off) b) (length b) r l h') (w, ?h)"
    using wp_write_locked [of X ?h off b fs w] inv ok off by (simp add: handler_inv_def)
  then have "wp (with_defer mu_Unlock (write_locked X fs b off))
     (\<lambda>r l (w', h'). WriteAt_post X fs h b off r (pre @ l) h') (w, ?h)"
    unfolding wp_with_defer
    by (rule wp_mono) (use post in \<open>fastforce simp: wp_mu\<close>)
  then show ?thesis
    using inv by (simp add: wp_bnd wp_mu handler_inv_def)
qed

lemma wp_WriteAt:
  assumes inv: "handler_inv X h" and ok: "runtime_ok X"
    and off: "0 \<le> off" "off + int (length b) \<le> E_max_alloc X"
  shows "wp (WriteAt X fs b off) (\<lambda>r l (w', h'). WriteAt_post X fs h b off r l h') (w, h)"
proof (cases "h_cacheValid h")
  case True
  then show ?thesis
    using wp_locked_write [OF inv ok off, of h fs "[]" w]
    by (simp add: WriteAt_def wp_handler_step base_of_def)
next
  case False
  have go_on: "wp (bnd mu_Lock (\<lambda>_. with_defer mu_Unlock (write_locked X fs b off)))
     (\<lambda>r' l' (w', h'). WriteAt_post X fs h b off r' (l @ l') h') (w1, h1)"
    if d: "download_post X fs h r l h1" and r: "\<And>a. r \<noteq> Abort a" for r :: "unit result" and l w1 h1
    by (rule wp_locked_write [OF _ ok off])
      (use d r False in \<open>auto simp: download_post_def base_of_def split: result.splits\<close>)
  have stop: "WriteAt_post X fs h b off (Abort a) l h1" if "download_post X fs h (Abort a) l h1" for a l h1
    using that False unfolding WriteAt_post_def download_post_def by auto
  have "wp (downloadFile X fs) (\<lambda>r l (w', h'). download_post X fs h r l h') (w, h)"
    by (rule wp_downloadFile [OF inv ok])
  then show ?thesis
    using False
    by (simp add: WriteAt_def wp_handler_step)
      (simp add: wp_bnd [where m = "bnd (try_go (downloadFile X fs)) F" for F]
        wp_bnd [where m = "try_go (downloadFile X fs)"] wp_try_go,
       erule wp_mono, auto simp: wp_ret split: result.splits dest: stop intro!: go_on)
qed

subsection \<open>ReadAt\<close>

definition ReadAt_post where
  "ReadAt_post fs h b off r l h' \<longleftrightarrow>
     (r = Ok (read_spec (bytes_of h') b (nat off)) \<and> h_cacheValid h' \<and>
        (if h_cacheValid h then h' = h \<and> l = [] else downloaded fs h (bytes_of h') l)) \<or>
     (\<not> h_cacheValid h \<and> h' = h \<and>
        ((\<exists>e. r = Ok (0, b, Some e)) \<or> r \<in> {Abort NilDeref, Abort MakeSlice}))"

lemma ReadAt_uncached:
  assumes "handler_inv X h" "\<not> h_cacheValid h"
  shows "ReadAt X fs b off (w, h) = bnd (try_go (downloadFile X fs)) (\<lambda>d.
     case d of Inl err \<Rightarrow> ret (0, b, Some err) | Inr _ \<Rightarrow> readFromCache b off) (w, h)"
  using assms
  by (simp add: ReadAt_def mu_RLock_def mu_RUnlock_def bnd_assoc bnd_get_h bnd_set_h handler_inv_def)

lemma wp_ReadAt:
  assumes inv: "handler_inv X h" and ok: "runtime_ok X" and off: "0 \<le> off"
  shows "wp (ReadAt X fs b off) (\<lambda>r l (w', h').
     handler_inv X h' \<and> same_file h h' \<and> \<not> list_ex ev_mutates l \<and> ReadAt_post fs h b off r l h') (w, h)"
proof (cases "h_cacheValid h")
  case True
  then show ?thesis
    using assms by (simp add: wp_def ReadAt_cached readFromCache_eq ReadAt_post_def)
next
  case False
  have run: "wp (readFromCache b off) Q (w1, h1) = Q (Ok (read_spec (bytes_of h1) b (nat off))) [] (w1, h1)"
    if "handler_inv X h1" for Q w1 h1
    using that ok off by (simp add: wp_def readFromCache_eq)
  have "wp (downloadFile X fs) (\<lambda>r l (w', h'). download_post X fs h r l h') (w, h)"
    by (rule wp_downloadFile [OF inv ok])
  then have "wp (bnd (try_go (downloadFile X fs)) (\<lambda>d.
     case d of Inl err \<Rightarrow> ret (0, b, Some err) | Inr _ \<Rightarrow> readFromCache b off)) (\<lambda>r l (w', h').
     handler_inv X h' \<and> same_file h h' \<and> \<not> list_ex ev_mutates l \<and> ReadAt_post fs h b off r l h') (w, h)"
    unfolding wp_bnd wp_try_go
    by (rule wp_mono) (use False in \<open>auto simp: wp_ret run download_post_def ReadAt_post_def split: result.splits\<close>)
  then show ?thesis
    using False inv by (simp add: wp_def ReadAt_uncached)
qed

subsection \<open>Truncate\<close>

lemma Truncate_negative:
  assumes "handler_inv X h" "sz < 0"
  shows "Truncate X fs sz (w, h) = (Err (Errorf ''negative size not allowed'' []), [], (w, h))"
  by (rule wp_eqD) (use assms in \<open>simp add: Truncate_def wp_rules handler_inv_def\<close>)

definition Truncate_post where
  "Truncate_post X fs h sz r l h' \<longleftrightarrow> handler_inv X h' \<and> same_file h h' \<and>
     ((\<exists>pre c l' e. l = pre @ l' \<and> base_of fs h c pre \<and> h_cacheValid h' \<and>
         bytes_of h' = resize c (nat sz) \<and>
         list_all (uploads fs (h\<lparr>h_etag := e\<rparr>) (bytes_of h')) l' \<and>
         (case r of Ok _ \<Rightarrow> acked l' | Err _ \<Rightarrow> True | Abort a \<Rightarrow> a \<in> {NilDeref, MakeSlice})) \<or>
      (\<not> h_cacheValid h \<and> h' = h \<and> \<not> list_ex ev_mutates l \<and> r = Abort FatalUnlock))"

lemma wp_locked_resize:
  assumes inv: "handler_inv X h1" and valid: "h_cacheValid h1"
    and sz: "0 \<le> sz" "sz \<le> E_max_alloc X"
    and pre: "same_file h h1" "base_of fs h (bytes_of h1) pre"
  shows "wp (with_defer mu_Unlock (resize_locked X fs sz))
     (\<lambda>r l (w', h'). Truncate_post X fs h sz r (pre @ l) h') (w, h1\<lparr>h_mu := WLocked\<rparr>)"
proof -
  let ?h = "h1\<lparr>h_mu := WLocked\<rparr>"
  have post: "h_mu h' = WLocked \<and> Truncate_post X fs h sz r (pre @ l) (h'\<lparr>h_mu := Unlocked\<rparr>) \<and>
      r \<noteq> Abort FatalUnlock \<and> r \<noteq> Abort Blocked"
    if w: "resize_post X fs ?h (resize (bytes_of h1) (nat sz)) r l h'" for r l h'
  proof -
    have "h_ref ?h = h_ref h" using pre(1) by (simp add: same_file_def)
    then have up: "uploads fs ?h = uploads fs (h\<lparr>h_etag := h_etag h1\<rparr>)"
      by (intro uploads_cong) simp_all
    have "same_file h (h'\<lparr>h_mu := Unlocked\<rparr>)"
      using w pre(1) by (simp add: resize_post_def stored_def same_file_def)
    moreover have "handler_inv X (h'\<lparr>h_mu := Unlocked\<rparr>)" "h_cacheValid h' = h_cacheValid h1"
      "bytes_of h' = resize (bytes_of h1) (nat sz)"
      "list_all (uploads fs (h\<lparr>h_etag := h_etag h1\<rparr>) (bytes_of h')) l"
      using w up by (simp_all add: resize_post_def stored_def handler_inv_def)
    moreover have "case r of Ok _ \<Rightarrow> acked l | Err _ \<Rightarrow> True | Abort a \<Rightarrow> a \<in> {NilDeref, MakeSlice}"
      using w by (auto simp: resize_post_def split: result.splits)
    ultimately have "Truncate_post X fs h sz r (pre @ l) (h'\<lparr>h_mu := Unlocked\<rparr>)"
      unfolding Truncate_post_def using pre valid
      by (intro conjI disjI1 exI [of _ pre] exI [of _ "bytes_of h1"] exI [of _ l] exI [of _ "h_etag h1"])
        simp_all
    then show ?thesis using w by (auto simp: resize_post_def stored_def)
  qed
  have "wp (resize_locked X fs sz) (\<lambda>r l (w', h').
     resize_post X fs ?h (resize (bytes_of h1) (nat sz)) r l h') (w, ?h)"
    using wp_resize_locked [of X ?h sz fs w] inv valid sz by (simp add: handler_inv_def)
  then show ?thesis
    unfolding wp_with_defer
    by (rule wp_mono) (use post in \<open>fastforce simp: wp_mu\<close>)
qed

lemma wp_Truncate:
  assumes inv: "handler_inv X h" and ok: "runtime_ok X"
    and sz: "0 \<le> sz" "sz \<le> E_max_alloc X"
  shows "wp (Truncate X fs sz) (\<lambda>r l (w', h'). Truncate_post X fs h sz r l h') (w, h)"
proof -
  let ?locked = "bnd get_h (\<lambda>h. bnd (if \<not> h_cacheValid h then
            bnd mu_Unlock (\<lambda>_. bnd (downloadFile X fs) (\<lambda>_. mu_Lock)) else ret ())
          (\<lambda>_. resize_locked X fs sz))"
  have "wp (with_defer mu_Unlock ?locked) (\<lambda>r l (w', h'). Truncate_post X fs h sz r l h')
      (w, h\<lparr>h_mu := WLocked\<rparr>)"
  proof (cases "h_cacheValid h")
    case True
    then have "?locked (w, h\<lparr>h_mu := WLocked\<rparr>) = resize_locked X fs sz (w, h\<lparr>h_mu := WLocked\<rparr>)"
      by (simp add: bnd_get_h)
    then show ?thesis
      using wp_locked_resize [OF inv True sz, of h fs "[]" w] True
      by (simp add: base_of_def wp_def with_defer_def)
  next
    case False
    let ?refresh = "bnd mu_Unlock (\<lambda>_. bnd (downloadFile X fs) (\<lambda>_. mu_Lock))"
    have free: "h_mu h = Unlocked" using inv by (simp add: handler_inv_def)
    obtain r l w1 h1 where run: "downloadFile X fs (w, h) = (r, l, (w1, h1))"
      by (metis surj_pair)
    have post: "download_post X fs h r l h1"
      using wpD [OF wp_downloadFile [OF inv ok] run] by simp
    then have free1: "h_mu h1 = Unlocked" by (simp add: download_post_def handler_inv_def)
    have start: "?locked (w, h\<lparr>h_mu := WLocked\<rparr>) =
        bnd ?refresh (\<lambda>_. resize_locked X fs sz) (w, h\<lparr>h_mu := WLocked\<rparr>)"
      using False by (simp add: bnd_get_h)
    have refresh: "?refresh (w, h\<lparr>h_mu := WLocked\<rparr>) = (case r of
        Ok _ \<Rightarrow> (Ok (), l, (w1, h1\<lparr>h_mu := WLocked\<rparr>)) | Err e \<Rightarrow> (Err e, l, (w1, h1))
      | Abort a \<Rightarrow> (Abort a, l, (w1, h1)))"
      using run free free1
      by (simp add: go_defs mu_Unlock_def mu_Lock_def get_h_def set_h_def split: result.splits)
    have stop: "wp (with_defer mu_Unlock ?locked) (\<lambda>r l (w', h'). Truncate_post X fs h sz r l h')
        (w, h\<lparr>h_mu := WLocked\<rparr>)" if r: "\<And>u. r \<noteq> Ok u"
      using r post refresh free1 start False
      by (cases r) (auto simp: wp_def go_defs mu_Unlock_def get_h_def set_h_def download_post_def
          Truncate_post_def bnd_def [of ?refresh])
    show ?thesis
    proof (cases r)
      case (Ok u)
      have "wp (with_defer mu_Unlock (resize_locked X fs sz))
          (\<lambda>r' l' (w', h'). Truncate_post X fs h sz r' (l @ l') h') (w1, h1\<lparr>h_mu := WLocked\<rparr>)"
        by (rule wp_locked_resize [OF _ _ sz])
          (use post Ok False in \<open>simp_all add: download_post_def base_of_def\<close>)
      moreover have "?refresh (w, h\<lparr>h_mu := WLocked\<rparr>) = (Ok (), l, (w1, h1\<lparr>h_mu := WLocked\<rparr>))"
        using refresh Ok by simp
      ultimately show ?thesis
        using start by (simp add: wp_def with_defer_def bnd_def [of ?refresh] split: prod.splits)
          (auto split: if_splits result.splits)
    qed (auto intro: stop)
  qed
  then show ?thesis
    using inv sz by (simp add: Truncate_def wp_bnd wp_mu handler_inv_def)
qed

subsection \<open>Sequences of operations\<close>

text \<open>The calls a client makes on an open file, and what it is answered.\<close>

datatype file_op = OpRead "byte list" int | OpWrite "byte list" int | OpTruncate int

datatype file_out = OutRead read_res | OutWrite nat "go_error option" | OutTruncate "go_error option"

definition file_step :: "('w, 'c) env \<Rightarrow> 'c root \<Rightarrow> file_op \<Rightarrow> ('w, 'c, file_out) hgo" where
  "file_step X fs op = (case op of
      OpRead b off \<Rightarrow> bnd (ReadAt X fs b off) (\<lambda>res. ret (OutRead res))
    | OpWrite b off \<Rightarrow> bnd (WriteAt X fs b off) (\<lambda>(n, err). ret (OutWrite n err))
    | OpTruncate sz \<Rightarrow> bnd (try_go (Truncate X fs sz)) (\<lambda>res.
        ret (OutTruncate (case res of Inl err \<Rightarrow> Some err | Inr _ \<Rightarrow> None))))"

fun run_file :: "('w, 'c) env \<Rightarrow> 'c root \<Rightarrow> file_op list \<Rightarrow> ('w, 'c, file_out list) hgo" where
  "run_file X fs [] = ret []"
| "run_file X fs (op # ops) =
     bnd (file_step X fs op) (\<lambda>out. bnd (run_file X fs ops) (\<lambda>outs. ret (out # outs)))"

text \<open>The arguments within which no operation overflows or panics by itself.\<close>

definition op_ok :: "('w, 'c) env \<Rightarrow> file_op \<Rightarrow> bool" where
  "op_ok X op = (case op of
      OpRead b off \<Rightarrow> 0 \<le> off
    | OpWrite b off \<Rightarrow> 0 \<le> off \<and> off + int (length b) \<le> E_max_alloc X
    | OpTruncate sz \<Rightarrow> sz \<le> E_max_alloc X)"

text \<open>The abstract file: an array of bytes. A truncation to a negative size is refused.\<close>

definition abs_op :: "file_op \<Rightarrow> byte list \<Rightarrow> byte list" where
  "abs_op op c = (case op of
      OpRead b off \<Rightarrow> c
    | OpWrite b off \<Rightarrow> put_at c (nat off) b
    | OpTruncate sz \<Rightarrow> if sz < 0 then c else resize c (nat sz))"

definition abs_out :: "file_op \<Rightarrow> byte list \<Rightarrow> file_out \<Rightarrow> bool" where
  "abs_out op c out = (case op of
      OpRead b off \<Rightarrow> out = OutRead (read_spec c b (nat off))
    | OpWrite b off \<Rightarrow> (case out of OutWrite n err \<Rightarrow> n = length b | _ \<Rightarrow> False)
    | OpTruncate sz \<Rightarrow> (case out of OutTruncate err \<Rightarrow> sz < 0 \<longrightarrow> err \<noteq> None | _ \<Rightarrow> False))"

fun abs_run :: "file_op list \<Rightarrow> byte list \<Rightarrow> file_out list \<Rightarrow> bool" where
  "abs_run [] c outs = (outs = [])"
| "abs_run (op # ops) c outs =
     (case outs of [] \<Rightarrow> False | out # outs \<Rightarrow> abs_out op c out \<and> abs_run ops (abs_op op c) outs)"

text \<open>An open file whose contents \<open>c\<close> are cached.\<close>

definition cached :: "('w, 'c) env \<Rightarrow> byte list \<Rightarrow> handler \<Rightarrow> bool" where
  "cached X c h \<longleftrightarrow> handler_inv X h \<and> h_cacheValid h \<and> bytes_of h = c"

text \<open>
  A run that returns with \<open>P\<close>, unless a service answered without a status or with more than
  fits in memory.
\<close>

definition returns_or_services_fail :: "('a \<Rightarrow> bool) \<Rightarrow> 'a result \<Rightarrow> bool" where
  "returns_or_services_fail P r = (case r of
      Ok x \<Rightarrow> P x | Err _ \<Rightarrow> False | Abort a \<Rightarrow> a \<in> {NilDeref, MakeSlice})"

lemma returns_or_services_fail_simps [simp]:
  "returns_or_services_fail P (Ok x) = P x" "\<not> returns_or_services_fail P (Err e)"
  "returns_or_services_fail P (Abort a) \<longleftrightarrow> a \<in> {NilDeref, MakeSlice}"
  by (simp_all add: returns_or_services_fail_def)

text \<open>One step on a cached file: the abstract step, or a panic that the services caused.\<close>

lemma wp_file_step:
  assumes c: "cached X c h" and ok: "runtime_ok X" and op: "op_ok X op"
  shows "wp (file_step X fs op) (\<lambda>r l (w', h'). same_file h h' \<and> handler_inv X h' \<and>
     returns_or_services_fail (\<lambda>out. cached X (abs_op op c) h' \<and> abs_out op c out) r) (w, h)"
proof -
  have inv: "handler_inv X h" and valid: "h_cacheValid h" and b: "bytes_of h = c"
    using c by (simp_all add: cached_def)
  show ?thesis
  proof (cases op)
    case (OpRead buf off)
    then show ?thesis using inv valid b ok op
      by (simp add: file_step_def wp_bnd wp_def ReadAt_cached readFromCache_eq ret_def bnd_def op_ok_def
          cached_def abs_op_def abs_out_def)
  next
    case (OpWrite buf off)
    have "wp (WriteAt X fs buf off) (\<lambda>r l (w', h'). WriteAt_post X fs h buf off r l h') (w, h)"
      using OpWrite op by (intro wp_WriteAt [OF inv ok]) (simp_all add: op_ok_def)
    then show ?thesis
      unfolding file_step_def OpWrite file_op.case wp_bnd
      by (rule wp_mono) (use valid b in \<open>auto simp: wp_ret WriteAt_post_def base_of_def cached_def
          abs_op_def abs_out_def split: result.splits prod.splits\<close>)
  next
    case (OpTruncate sz)
    show ?thesis
    proof (cases "sz < 0")
      case True
      then show ?thesis using inv valid b OpTruncate
        by (simp add: file_step_def wp_def go_defs Truncate_negative cached_def abs_op_def abs_out_def)
    next
      case False
      have "wp (Truncate X fs sz) (\<lambda>r l (w', h'). Truncate_post X fs h sz r l h') (w, h)"
        using OpTruncate op False by (intro wp_Truncate [OF inv ok]) (simp_all add: op_ok_def)
      then show ?thesis
        unfolding file_step_def OpTruncate file_op.case wp_bnd wp_try_go
        by (rule wp_mono) (use valid b False in \<open>auto simp: wp_ret Truncate_post_def base_of_def cached_def
          abs_op_def abs_out_def split: result.splits prod.splits\<close>)
    qed
  qed
qed

lemma wp_run_file:
  assumes "cached X c h" "runtime_ok X" "list_all (op_ok X) ops"
  shows "wp (run_file X fs ops) (\<lambda>r l (w', h'). same_file h h' \<and> handler_inv X h' \<and>
     returns_or_services_fail (\<lambda>outs. cached X (fold abs_op ops c) h' \<and> abs_run ops c outs) r) (w, h)"
  using assms
proof (induction ops arbitrary: c h w)
  case Nil
  then show ?case by (simp add: wp_ret cached_def)
next
  case (Cons op ops)
  have step: "wp (bnd (run_file X fs ops) (\<lambda>outs. ret (out # outs)))
      (\<lambda>r l (w', h'). same_file h h' \<and> handler_inv X h' \<and>
       returns_or_services_fail (\<lambda>outs. cached X (fold abs_op (op # ops) c) h' \<and>
         abs_run (op # ops) c outs) r) (w1, h1)"
    if "same_file h h1" "cached X (abs_op op c) h1" "abs_out op c out" for out w1 h1
    unfolding wp_bnd
    by (rule wp_mono [OF Cons.IH [OF that(2)]])
      (use Cons.prems that in \<open>auto simp: wp_ret same_file_def split: result.splits\<close>)
  have "wp (file_step X fs op) (\<lambda>r l (w', h'). same_file h h' \<and> handler_inv X h' \<and>
     returns_or_services_fail (\<lambda>out. cached X (abs_op op c) h' \<and> abs_out op c out) r) (w, h)"
    using Cons.prems by (intro wp_file_step) simp_all
  then show ?case
    unfolding run_file.simps wp_bnd [of "file_step X fs op"]
    by (rule wp_mono) (auto split: result.splits intro!: step simp del: abs_run.simps fold.simps)
qed

subsection \<open>Reading in chunks\<close>

text \<open>ReadAt on a buffer of \<open>n\<close> bytes, as a reader: the bytes read, and whether the end was reported.\<close>

definition reader_of :: "read_res \<Rightarrow> byte list \<times> bool" where
  "reader_of res = (case res of (n, b, err) \<Rightarrow> (take n b, err \<noteq> None))"

interpretation file_reader: reader_at "\<lambda>n off. reader_of (read_spec c (replicate n 0) off)" c
  for c :: "byte list"
  by unfold_locales (auto simp: reader_of_def read_spec_def Let_def min_def split: if_splits)

definition ReadAt_chunk :: "('w, 'c) env \<Rightarrow> 'c root \<Rightarrow> 'w \<times> handler \<Rightarrow> nat \<Rightarrow> nat \<Rightarrow> byte list \<times> bool" where
  "ReadAt_chunk X fs s n off = (case ReadAt X fs (replicate n 0) (int off) s of
      (Ok res, _, _) \<Rightarrow> reader_of res | _ \<Rightarrow> ([], True))"

lemma ReadAt_chunk_cached:
  assumes "cached X c h" "runtime_ok X"
  shows "ReadAt_chunk X fs (w, h) = (\<lambda>n off. reader_of (read_spec c (replicate n 0) off))"
proof -
  have h: "handler_inv X h" "h_cacheValid h" "bytes_of h = c" using assms by (simp_all add: cached_def)
  show ?thesis
    by (intro ext) (simp add: ReadAt_chunk_def ReadAt_cached [OF h(1,2)] readFromCache_eq [OF h(1) assms(2)] h(3))
qed

subsection \<open>Offsets that crash\<close>

lemma write_locked_bad_offset:
  assumes "bytes_of h = c" "int64 (off + int (length b)) \<le> int (length c)"
    "off < 0 \<or> int (length c) < off"
  shows "write_locked X fs b off (w, h) = (Abort SliceBounds, [], (w, h))"
  using assms
  by (auto simp: write_locked_def write_cache_def bnd_assoc bnd_get_h Let_def slice_from_def abort_apply)

lemma WriteAt_bad_offset:
  assumes "cached X c h" "int64 (off + int (length b)) \<le> int (length c)"
    "off < 0 \<or> int (length c) < off"
  shows "WriteAt X fs b off (w, h) = (Abort SliceBounds, [], (w, h))"
proof -
  have u: "h_mu h = Unlocked" and v: "h_cacheValid h"
    using assms by (simp_all add: cached_def handler_inv_def)
  have "write_locked X fs b off (w, h\<lparr>h_mu := WLocked\<rparr>) = (Abort SliceBounds, [], (w, h\<lparr>h_mu := WLocked\<rparr>))"
    using assms by (intro write_locked_bad_offset) (auto simp: cached_def)
  then show ?thesis
    using u v by (simp add: WriteAt_def mu_Lock_def mu_Unlock_def bnd_get_h bnd_set_h with_defer_def
        bnd_def [of mu_Lock] get_h_def set_h_def go_defs)
qed

subsection \<open>A write after a failed download\<close>

lemma wp_WriteAt_failed_download:
  assumes inv: "handler_inv X h" "\<not> h_cacheValid h" and ok: "runtime_ok X"
    and off: "0 \<le> off" "off + int (length b) \<le> E_max_alloc X"
    and dl: "downloadFile X fs (w, h) = (Err e, ld, (w1, h))"
  shows "wp (WriteAt X fs b off) (\<lambda>r l (w', h').
     \<exists>l'. l = ld @ l' \<and> bytes_of h' = put_at (bytes_of h) (nat off) b \<and>
       list_all (uploads fs h (bytes_of h')) l' \<and>
       returns_or_services_fail (\<lambda>(m, err). m = length b \<and> (err = None \<longleftrightarrow> acked l')) r) (w, h)"
proof -
  let ?h = "h\<lparr>h_mu := WLocked\<rparr>"
  have u: "h_mu h = Unlocked" using inv by (simp add: handler_inv_def)
  obtain r l w2 h2 where run: "write_locked X fs b off (w1, ?h) = (r, l, (w2, h2))"
    by (metis surj_pair)
  have post: "write_post X fs ?h (put_at (bytes_of h) (nat off) b) (length b) r l h2"
    using wpD [OF wp_write_locked [of X ?h off b fs w1] run] inv ok off
    by (simp add: handler_inv_def)
  have "uploads fs ?h = uploads fs h" by (rule uploads_cong) simp_all
  with post have "WriteAt X fs b off (w, h) = (r, ld @ l, (w2, h2\<lparr>h_mu := Unlocked\<rparr>))"
    "list_all (uploads fs h (put_at (bytes_of h) (nat off) b)) l"
    "bytes_of h2 = put_at (bytes_of h) (nat off) b"
    "returns_or_services_fail (\<lambda>(m, err). m = length b \<and> (err = None \<longleftrightarrow> acked l)) r"
    using inv(2) dl u run
    by (auto simp: WriteAt_def bnd_get_h write_post_def stored_def mu_Lock_def mu_Unlock_def go_defs
        get_h_def set_h_def returns_or_services_fail_def split: result.splits)
  then show ?thesis by (simp add: wp_def)
qed

end
