(* ===== verification/Session.thy ===== *)
theory Session
  imports SftpContract FileOps
begin

text \<open>
  A whole SFTP session: the client sends requests in any order and works on any of the files
  it has open. The step relation runs one handler per step and records, for each, the paths
  the client named and the calls made; the containment of the session is an invariant of its
  reachable states.
\<close>

subsection \<open>What an open file sends\<close>

text \<open>
  A computation on a handler of \<open>ref\<close> that keeps the reference and the path it was opened with,
  and sends no other reference.
\<close>

definition file_event :: "'c root \<Rightarrow> reference \<Rightarrow> 'c event \<Rightarrow> bool" where
  "file_event fs ref e \<longleftrightarrow> ev_ctx e \<in> {None, Some (authCtx fs)} \<and> set (ev_refs e) \<subseteq> {ref}"

definition same_name :: "handler \<Rightarrow> handler \<Rightarrow> bool" where
  "same_name h h' \<longleftrightarrow> h_ref h' = h_ref h \<and> h_filepath h' = h_filepath h"

lemma same_name_refl [simp]: "same_name h h"
  by (simp add: same_name_def)

definition steady :: "'c root \<Rightarrow> reference \<Rightarrow> ('w, 'c, 'a) hgo \<Rightarrow> bool" where
  "steady fs ref m \<longleftrightarrow> (\<forall>w h. h_ref h = ref \<longrightarrow>
     wp m (\<lambda>r l (w', h'). same_name h h' \<and> list_all (file_event fs ref) l) (w, h))"

text \<open>Started from a handler of the same name, it keeps the name.\<close>

lemma steadyD:
  assumes "steady fs ref m" "h_ref h = ref" "same_name h h1"
  shows "wp m (\<lambda>r l (w', h'). same_name h h' \<and> list_all (file_event fs ref) l) (w, h1)"
proof -
  have "wp m (\<lambda>r l (w', h'). same_name h1 h' \<and> list_all (file_event fs ref) l) (w, h1)"
    using assms unfolding steady_def by (metis same_name_def)
  then show ?thesis by (rule wp_mono) (use assms(3) in \<open>auto simp: same_name_def\<close>)
qed

named_theorems steady_rules \<open>introduction rules for steady computations\<close>

lemma steady_pure [steady_rules]:
  "steady fs ref (ret x)" "steady fs ref (fail e)" "steady fs ref (abort a)" "steady fs ref (of_result res)"
  by (simp_all add: steady_def wp_rules)

lemma steady_get [steady_rules]:
  "(\<And>h. h_ref h = ref \<Longrightarrow> steady fs ref (f h)) \<Longrightarrow> steady fs ref (bnd get_h f)"
  by (simp add: steady_def wp_handler_step)

lemma steady_set [steady_rules]:
  "(\<And>h. same_name h (g h)) \<Longrightarrow> steady fs ref (set_h g)"
  by (simp add: steady_def wp_set_h)

lemma steady_mu [steady_rules]:
  "steady fs ref mu_Lock" "steady fs ref mu_Unlock" "steady fs ref mu_RLock" "steady fs ref mu_RUnlock"
  by (simp_all add: steady_def same_name_def wp_mu split: rwmutex.split)

lemma steady_world [steady_rules]:
  "emits (file_event fs ref) m \<Longrightarrow> steady fs ref (on_world m)"
  by (auto simp: steady_def wp_on_world emits_def elim: wp_mono)

lemma steady_bnd [steady_rules]:
  assumes "steady fs ref m" "\<And>x. steady fs ref (f x)"
  shows "steady fs ref (bnd m f)"
  unfolding steady_def
proof (intro allI impI)
  fix w and h :: handler assume h: "h_ref h = ref"
  have f: "wp (f x) (\<lambda>r' l' (w', h'). same_name h h' \<and> list_all (file_event fs ref) (l @ l')) (w1, h1)"
    if "list_all (file_event fs ref) l" "same_name h h1" for x l w1 h1
    by (rule wp_mono [OF steadyD [OF assms(2) h that(2)]]) (use that(1) in auto)
  have "wp m (\<lambda>r l (w', h'). same_name h h' \<and> list_all (file_event fs ref) l) (w, h)"
    using assms(1) h by (simp add: steady_def)
  then show "wp (bnd m f) (\<lambda>r l (w', h'). same_name h h' \<and> list_all (file_event fs ref) l) (w, h)"
    unfolding wp_bnd
    by (rule wp_mono) (use f in \<open>auto simp del: list_all_append split: result.splits\<close>)
qed

lemma steady_try [steady_rules]: "steady fs ref m \<Longrightarrow> steady fs ref (try_go m)"
  unfolding steady_def wp_try_go
proof (intro allI impI)
  fix w and h :: handler
  assume m: "\<forall>w h. h_ref h = ref \<longrightarrow> wp m (\<lambda>r l (w', h'). same_name h h' \<and> list_all (file_event fs ref) l) (w, h)"
    and "h_ref h = ref"
  then have "wp m (\<lambda>r l (w', h'). same_name h h' \<and> list_all (file_event fs ref) l) (w, h)" by blast
  then show "wp m (\<lambda>r l s'. case r of
      Ok x \<Rightarrow> (\<lambda>(w', h'). same_name h h' \<and> list_all (file_event fs ref) l) s'
    | Err e \<Rightarrow> (\<lambda>(w', h'). same_name h h' \<and> list_all (file_event fs ref) l) s'
    | Abort a \<Rightarrow> (\<lambda>(w', h'). same_name h h' \<and> list_all (file_event fs ref) l) s') (w, h)"
    by (rule wp_mono) (auto split: result.splits)
qed

lemma steady_defer [steady_rules]:
  assumes "steady fs ref d" "steady fs ref m"
  shows "steady fs ref (with_defer d m)"
  unfolding steady_def
proof (intro allI impI)
  fix w and h :: handler assume h: "h_ref h = ref"
  have d: "wp d (\<lambda>r' l' (w', h'). same_name h h' \<and> list_all (file_event fs ref) l') (w1, h1)"
    if "same_name h h1" for w1 h1
    by (rule steadyD [OF assms(1) h that])
  have "wp m (\<lambda>r l (w', h'). same_name h h' \<and> list_all (file_event fs ref) l) (w, h)"
    using assms(2) h by (simp add: steady_def)
  then show "wp (with_defer d m) (\<lambda>r l (w', h'). same_name h h' \<and> list_all (file_event fs ref) l) (w, h)"
    unfolding wp_with_defer
    by (rule wp_mono) (auto split: result.splits intro: wp_mono [OF d])
qed

lemma steady_if [steady_rules]:
  "(b \<Longrightarrow> steady fs ref m) \<Longrightarrow> (\<not> b \<Longrightarrow> steady fs ref m') \<Longrightarrow> steady fs ref (if b then m else m')"
  by simp

lemma steady_case_prod [steady_rules]:
  "(\<And>a b. steady fs ref (f a b)) \<Longrightarrow> steady fs ref (case x of (a, b) \<Rightarrow> f a b)"
  by (cases x) simp

lemma steady_case_sum [steady_rules]:
  "(\<And>y. steady fs ref (f y)) \<Longrightarrow> (\<And>y. steady fs ref (g y)) \<Longrightarrow>
   steady fs ref (case x of Inl y \<Rightarrow> f y | Inr y \<Rightarrow> g y)"
  by (cases x) simp_all

lemma steady_case_option [steady_rules]:
  "steady fs ref m \<Longrightarrow> (\<And>y. steady fs ref (g y)) \<Longrightarrow>
   steady fs ref (case x of None \<Rightarrow> m | Some y \<Rightarrow> g y)"
  by (cases x) simp_all

lemma steady_deref [steady_rules]: "steady fs ref (deref p)"
  by (cases p) (simp_all add: steady_rules)

lemma file_event_simps [simp]:
  "file_event fs ref (EvNext e)" "file_event fs ref (EvHttp hq resp)"
  "file_event fs ref (EvStat c ref' sr) \<longleftrightarrow> c = authCtx fs \<and> ref' = ref"
  "file_event fs ref (EvInitiateFileDownload c ref' dr) \<longleftrightarrow> c = authCtx fs \<and> ref' = ref"
  "file_event fs ref (EvInitiateFileUpload c q ur) \<longleftrightarrow> c = authCtx fs \<and> UploadRef q = ref"
  by (auto simp: file_event_def)

lemma steady_download [steady_rules]: "steady fs ref (downloadFile X fs)"
  unfolding downloadFile_def by (intro steady_rules emit_rules; simp add: same_name_def)

lemma steady_upload [steady_rules]: "steady fs ref (uploadFile X fs)"
  unfolding uploadFile_def by (intro steady_rules emit_rules; simp add: same_name_def)

lemma steady_read_cache [steady_rules]: "steady fs ref (readFromCache b off)"
  unfolding readFromCache_def by (intro steady_rules)

lemma steady_file_step: "steady fs ref (file_step X fs op)"
proof (cases op)
  case (OpRead b off)
  then show ?thesis unfolding file_step_def OpRead file_op.case ReadAt_def by (intro steady_rules)
next
  case (OpWrite b off)
  show ?thesis
    unfolding file_step_def OpWrite file_op.case WriteAt_def write_locked_def write_cache_def upload_counted_def Let_def
    by (intro steady_rules; simp add: same_name_def)
next
  case (OpTruncate sz)
  show ?thesis
    unfolding file_step_def OpTruncate file_op.case Truncate_def resize_locked_def resize_cache_def
    by (intro steady_rules; simp add: same_name_def)
qed

subsection \<open>The step relation\<close>

text \<open>
  \<open>S_trace\<close> has one entry per request, oldest first: the paths it is about and the calls it
  made. A read, write or truncation of an open file is about the path the file was opened with.
\<close>

type_synonym 'c trace = "(string list \<times> 'c event list) list"

record ('w, 'c) session =
  S_world :: 'w
  S_files :: "nat \<Rightarrow> handler option"
  S_trace :: "'c trace"

text \<open>All calls of a trace, in order.\<close>

definition calls_of :: "'c trace \<Rightarrow> 'c event list" where
  "calls_of T = concat (map snd T)"

definition add_file :: "(nat \<Rightarrow> handler option) \<Rightarrow> nat \<Rightarrow> handler result \<Rightarrow> nat \<Rightarrow> handler option" where
  "add_file H i res = (case res of Ok h \<Rightarrow> H(i := Some h) | _ \<Rightarrow> H)"

inductive session_step :: "('w, 'c) env \<Rightarrow> 'c root \<Rightarrow> ('w, 'c) session \<Rightarrow> ('w, 'c) session \<Rightarrow> bool"
  for X :: "('w, 'c) env" and fs :: "'c root" where
  Open_read: "Fileread X fs r w = (res, l, w') \<Longrightarrow>
    session_step X fs \<lparr>S_world = w, S_files = H, S_trace = T\<rparr>
      \<lparr>S_world = w', S_files = add_file H i res, S_trace = T @ [([R_Filepath r], l)]\<rparr>"
| Open_write: "Filewrite X fs r w = (res, l, w') \<Longrightarrow>
    session_step X fs \<lparr>S_world = w, S_files = H, S_trace = T\<rparr>
      \<lparr>S_world = w', S_files = add_file H i res, S_trace = T @ [([R_Filepath r], l)]\<rparr>"
| Command: "Filecmd X fs r w = (res', l, w') \<Longrightarrow>
    session_step X fs \<lparr>S_world = w, S_files = H, S_trace = T\<rparr>
      \<lparr>S_world = w', S_files = H, S_trace = T @ [([R_Filepath r, R_Target r], l)]\<rparr>"
| Posix_rename: "PosixRename X fs r w = (res', l, w') \<Longrightarrow>
    session_step X fs \<lparr>S_world = w, S_files = H, S_trace = T\<rparr>
      \<lparr>S_world = w', S_files = H, S_trace = T @ [([R_Filepath r, R_Target r], l)]\<rparr>"
| Listing: "Filelist X fs r w = (infos, l, w') \<Longrightarrow>
    session_step X fs \<lparr>S_world = w, S_files = H, S_trace = T\<rparr>
      \<lparr>S_world = w', S_files = H, S_trace = T @ [([R_Filepath r], l)]\<rparr>"
| File_io: "H i = Some h \<Longrightarrow> file_step X fs op (w, h) = (out, l, (w', h')) \<Longrightarrow>
    session_step X fs \<lparr>S_world = w, S_files = H, S_trace = T\<rparr>
      \<lparr>S_world = w', S_files = H(i := Some h'), S_trace = T @ [([h_filepath h], l)]\<rparr>"
| Close: "session_step X fs \<lparr>S_world = w, S_files = H, S_trace = T\<rparr>
      \<lparr>S_world = w, S_files = H(i := None), S_trace = T\<rparr>"
| Outside: "session_step X fs \<lparr>S_world = w, S_files = H, S_trace = T\<rparr>
      \<lparr>S_world = w', S_files = H, S_trace = T\<rparr>"

definition session_start :: "'w \<Rightarrow> ('w, 'c) session" where
  "session_start w = \<lparr>S_world = w, S_files = (\<lambda>_. None), S_trace = []\<rparr>"

abbreviation session_run :: "('w, 'c) env \<Rightarrow> 'c root \<Rightarrow> ('w, 'c) session \<Rightarrow> ('w, 'c) session \<Rightarrow> bool" where
  "session_run X fs \<equiv> (session_step X fs)\<^sup>*\<^sup>*"

lemma calls_of_simps [simp]: "calls_of [] = []" "calls_of (T @ [(ps, l)]) = calls_of T @ l"
  by (simp_all add: calls_of_def)

subsection \<open>The invariant\<close>

text \<open>The calls \<open>l\<close> of a request on the paths \<open>ps\<close>, after the calls \<open>L\<close>, stay inside what the paths name.\<close>

definition stays_within :: "('w, 'c) env \<Rightarrow> 'c root \<Rightarrow> 'c event list \<Rightarrow> string list \<Rightarrow> 'c event list \<Rightarrow> bool" where
  "stays_within X fs L ps l \<longleftrightarrow> (\<forall>e \<in> set l. ev_ctx e \<in> {None, Some (authCtx fs)} \<and>
     (\<forall>r \<in> set (ev_refs e). \<exists>p \<in> set ps. \<exists>ref. names_ref X fs p (L @ l) ref \<and>
        RefResourceId r = RefResourceId ref))"

definition contained_trace :: "('w, 'c) env \<Rightarrow> 'c root \<Rightarrow> 'c trace \<Rightarrow> bool" where
  "contained_trace X fs T \<longleftrightarrow> (\<forall>before ps l after. T = before @ (ps, l) # after \<longrightarrow>
     stays_within X fs (calls_of before) ps l)"

text \<open>A handler's reference was resolved from the path it was opened with.\<close>

definition opened_by_name :: "('w, 'c) env \<Rightarrow> 'c root \<Rightarrow> 'c event list \<Rightarrow> handler \<Rightarrow> bool" where
  "opened_by_name X fs L h \<longleftrightarrow>
     (\<exists>ref. names_ref X fs (h_filepath h) L ref \<and> RefResourceId (h_ref h) = RefResourceId ref)"

definition session_inv :: "('w, 'c) env \<Rightarrow> 'c root \<Rightarrow> ('w, 'c) session \<Rightarrow> bool" where
  "session_inv X fs s \<longleftrightarrow> contained_trace X fs (S_trace s) \<and>
     (\<forall>i h. S_files s i = Some h \<longrightarrow> opened_by_name X fs (calls_of (S_trace s)) h)"

lemma snoc_split:
  "T @ [x] = before @ y # after \<longleftrightarrow>
     (after = [] \<and> before = T \<and> x = y) \<or> (\<exists>after'. after = after' @ [x] \<and> T = before @ y # after')"
  by (cases after rule: rev_cases) auto

lemma contained_snoc:
  "contained_trace X fs (T @ [(ps, l)]) \<longleftrightarrow> contained_trace X fs T \<and> stays_within X fs (calls_of T) ps l"
  unfolding contained_trace_def snoc_split by auto

lemma within_stays: "within X fs ps l \<Longrightarrow> stays_within X fs L ps l"
  unfolding within_def stays_within_def
  by (meson names_ref_mono Un_upper2 set_append [THEN equalityD2] subset_trans)

lemma opened_by_name_mono: "opened_by_name X fs L h \<Longrightarrow> set L \<subseteq> set L' \<Longrightarrow> opened_by_name X fs L' h"
  unfolding opened_by_name_def by (blast intro: names_ref_mono)

lemma file_io_stays:
  assumes "opened_by_name X fs L h" "list_all (file_event fs (h_ref h)) l"
  shows "stays_within X fs L [h_filepath h] l"
proof -
  have "opened_by_name X fs (L @ l) h" using assms(1) by (rule opened_by_name_mono) simp
  then show ?thesis
    using assms(2) unfolding stays_within_def opened_by_name_def list_all_iff file_event_def by fastforce
qed

lemma opened_handle_listed:
  assumes "OpenFile X fs r w = (Ok h, l, w')"
  shows "opened_by_name X fs l h"
proof -
  have "opened X fs r (Ok h) l" using wpD [OF wp_OpenFile assms] by simp
  then obtain pre ref where ref: "resolved X fs (R_Filepath r) pre ref"
    and h: "h = newSftpFileHandler ref (R_Filepath r) (R_Flags r)"
    and l: "if touches (Pflags X r) then \<exists>resp. l = pre @ [EvTouchFile (authCtx fs)
        \<lparr>RefResourceId = RefResourceId ref, RefPath = snd (SplitAbsolutePath (R_Filepath r))\<rparr> resp]
      else l = pre"
    unfolding opened_def by blast
  have "set pre \<subseteq> set l" using l by (cases "touches (Pflags X r)") auto
  then show ?thesis
    using ref h unfolding resolved_def opened_by_name_def
    by (auto simp: newSftpFileHandler_def intro: names_ref_mono)
qed

lemma open_handle_listed:
  "Fileread X fs r w = (Ok h, l, w') \<Longrightarrow> opened_by_name X fs l h"
  "Filewrite X fs r w = (Ok h, l, w') \<Longrightarrow> opened_by_name X fs l h"
  by (auto simp: Fileread_def Filewrite_def fail_def split: if_splits dest: opened_handle_listed)

text \<open>A request with one more entry in the trace keeps the invariant when it stays within its paths.\<close>

lemma session_inv_extend:
  assumes "session_inv X fs \<lparr>S_world = w, S_files = H, S_trace = T\<rparr>"
    "stays_within X fs (calls_of T) ps l"
    "\<And>i h. H' i = Some h \<Longrightarrow>
      H i = Some h \<or> opened_by_name X fs (calls_of T) h \<or> opened_by_name X fs l h"
  shows "session_inv X fs \<lparr>S_world = w', S_files = H', S_trace = T @ [(ps, l)]\<rparr>"
proof -
  have "opened_by_name X fs (calls_of T @ l) h" if "opened_by_name X fs (calls_of T) h \<or> opened_by_name X fs l h" for h
    using that by (auto elim: opened_by_name_mono)
  with assms show ?thesis unfolding session_inv_def by (fastforce simp: contained_snoc)
qed

lemma session_step_inv:
  assumes "session_step X fs s t" "session_inv X fs s"
  shows "session_inv X fs t"
  using assms
proof (induction rule: session_step.induct)
  case (Open_read r w res l w' H T i)
  then show ?case using open_handle_listed(1) [of X fs r w _ l w']
    by (intro session_inv_extend [OF Open_read(2)] within_stays [OF vfs_read.contained [OF Open_read(1)]])
      (auto simp: add_file_def split: result.splits if_splits)
next
  case (Open_write r w res l w' H T i)
  then show ?case using open_handle_listed(2) [of X fs r w _ l w']
    by (intro session_inv_extend [OF Open_write(2)] within_stays [OF vfs_write.contained [OF Open_write(1)]])
      (auto simp: add_file_def split: result.splits if_splits)
next
  case (Command r w res' l w' H T)
  then show ?case
    by (intro session_inv_extend [OF Command(2)] within_stays [OF vfs_cmd.contained [OF Command(1)]]) simp
next
  case (Posix_rename r w res' l w' H T)
  then show ?case
    by (intro session_inv_extend [OF Posix_rename(2)] within_stays [OF vfs_posix_rename.contained [OF Posix_rename(1)]]) simp
next
  case (Listing r w infos l w' H T)
  then show ?case
    by (intro session_inv_extend [OF Listing(2)] within_stays [OF vfs_filelist.contained [OF Listing(1)]]) simp
next
  case (File_io H i h op w out l w' h' T)
  then have h: "opened_by_name X fs (calls_of T) h" by (auto simp: session_inv_def)
  have "wp (file_step X fs op) (\<lambda>r l (w', h'). same_name h h' \<and> list_all (file_event fs (h_ref h)) l) (w, h)"
    using steady_file_step [of fs "h_ref h" X op] by (simp add: steady_def)
  from wpD [OF this File_io(2)] have io: "same_name h h'" "list_all (file_event fs (h_ref h)) l"
    by simp_all
  have "opened_by_name X fs (calls_of T) h'" using h io(1) by (simp add: opened_by_name_def same_name_def)
  then show ?case
    by (intro session_inv_extend [OF File_io(3)] file_io_stays [OF h io(2)]) (auto split: if_splits)
next
  case (Close w H T i)
  then show ?case by (auto simp: session_inv_def split: if_splits)
next
  case (Outside w H T w')
  then show ?case by (auto simp: session_inv_def)
qed

lemma session_start_inv: "session_inv X fs (session_start w)"
  by (simp add: session_inv_def session_start_def contained_trace_def)

lemma session_run_inv: "session_run X fs (session_start w) s \<Longrightarrow> session_inv X fs s"
  by (induction rule: rtranclp_induct) (auto intro: session_start_inv session_step_inv)

end
