(* ===== verification/Server.thy ===== *)
theory Server
  imports AuthContract Session Config Os
begin

text \<open>
  pkg/server/sftp.go: the SSH server. It loads the host key, installs the public-key handler
  and runs one SFTP session per client under the identity the authentication left in the
  connection's context.
\<close>

subsection \<open>Sessions\<close>

text \<open>The ways a session ends; the code logs them and returns.\<close>

datatype session_end = NoUid | NoToken | ClientExited | ServeFailed go_error | ServeEnded

definition session_ctx :: "'c ctxlib \<Rightarrow> userid option \<Rightarrow> string \<Rightarrow> 'c" where
  "session_ctx C uid token =
     (let authCtx = ContextSetUser C (Background C) \<lparr>UserIdOf = uid\<rparr>
      in AppendToOutgoingContext C authCtx (TokenHeader C) token)"

text \<open>
  \<open>serve\<close> is Serve of the request server that the SFTP library makes of the handlers. A
  stored nil user id passes the type assertion; a value that was never stored does not.
\<close>

definition SFTPHandler ::
    "('w, 'c) env \<Rightarrow> ('c handlers \<Rightarrow> ('w, 'c event, unit) go) \<Rightarrow> 'c ssh_ctx \<Rightarrow> ('w, 'c event, session_end) go" where
  "SFTPHandler X serve ctx = (case ssh_uid ctx of
      None \<Rightarrow> ret NoUid
    | Some uid \<Rightarrow> (case ssh_token ctx of
        None \<Rightarrow> ret NoToken
      | Some token \<Rightarrow>
          bnd (try_go (serve (OpenCloudHandler (session_ctx (E_ctx X) uid token)))) (\<lambda>r.
          case r of
            Inl err \<Rightarrow> if err = EOF then ret ClientExited else ret (ServeFailed err)
          | Inr _ \<Rightarrow> ret ServeEnded)))"

subsection \<open>The server\<close>

record ('w, 'c) sftp_server =
  SrvAddr :: string
  SrvCfg :: config
  SrvSubsystems :: "string \<Rightarrow> ('c ssh_ctx \<Rightarrow> ('w, 'c event, session_end) go) option"
  SrvHostKeys :: "signer list"
  SrvHasSelector :: bool
  SrvPublicKeyHandler :: "(public_key \<Rightarrow> ('w \<times> 'c ssh_ctx, 'c event, bool) go) option"

definition NewSFTPServer ::
    "('w, 'c) env \<Rightarrow> ('c handlers \<Rightarrow> ('w, 'c event, unit) go) \<Rightarrow> config \<Rightarrow> ('w, 'c) sftp_server" where
  "NewSFTPServer X serve cfg =
     \<lparr>SrvAddr = SFTPAddress cfg, SrvCfg = cfg,
      SrvSubsystems = [''sftp'' \<mapsto> SFTPHandler X serve],
      SrvHostKeys = [], SrvHasSelector = False, SrvPublicKeyHandler = None\<rparr>"

definition readPrivateKeyFromFile :: "sshlib \<Rightarrow> string \<Rightarrow> os_state \<Rightarrow> signer result" where
  "readPrivateKeyFromFile S certPath os = (case os_ReadFile certPath os of
      Err err \<Rightarrow> Err err
    | Abort a \<Rightarrow> Abort a
    | Ok privateBytes \<Rightarrow> result_of_sum (ParsePrivateKey S privateBytes))"

text \<open>
  \<open>gsel\<close> is pool.GatewaySelector, \<open>listen\<close> ListenAndServe of the embedded ssh.Server. The
  result is the error returned and the server as it is left.
\<close>

definition ListenAndServe ::
    "('w, 'c) env \<Rightarrow> (string \<Rightarrow> go_error option) \<Rightarrow> (('w, 'c) sftp_server \<Rightarrow> unit result) \<Rightarrow>
     os_state \<Rightarrow> ('w, 'c) sftp_server \<Rightarrow> unit result \<times> ('w, 'c) sftp_server" where
  "ListenAndServe X gsel listen os s =
     (case readPrivateKeyFromFile (E_ssh X) (HostPrivateKeyPath (SrvCfg s)) os of
        Err err \<Rightarrow> (Err err, s)
      | Abort a \<Rightarrow> (Abort a, s)
      | Ok key \<Rightarrow>
          (let s = s\<lparr>SrvHostKeys := SrvHostKeys s @ [key]\<rparr>
           in case Reva (SrvCfg s) of
                None \<Rightarrow> (Abort NilDeref, s)
              | Some reva \<Rightarrow> (case gsel (Address reva) of
                    Some err \<Rightarrow> (Err err, s)
                  | None \<Rightarrow>
                      (let s = s\<lparr>SrvHasSelector := True,
                         SrvPublicKeyHandler := Some (NewPubKeyAuthHandler X (NewSpaceKeyStorage X)
                           (MachineAuthAPIKey (SrvCfg s)))\<rparr>
                       in (listen s, s)))))"

end
