(* ===== verification/Cli.thy ===== *)
theory Cli
  imports Command Server
begin

text \<open>
  The process: main.go, pkg/command (root, server, health, version, and the command init
  around its action) and pkg/logging. The command-line library, OpenCloud's helpers, the
  registry and the group of run routines are parameters: the record \<open>libs\<close>.
\<close>

subsection \<open>The process and its libraries\<close>

text \<open>How a command ends: it returns, or the process exits with a code inside it.\<close>

datatype cli_end = Returns "unit result" | Exits nat

text \<open>The arguments of log.NewLogger.\<close>

record log_options =
  LoName :: string
  LoLevel :: string
  LoPretty :: bool
  LoColor :: bool
  LoFile :: string

text \<open>The map given to sharedconf.Decode; \<open>'g\<close> are reva's gRPC client settings.\<close>

record 'g shared_conf =
  Sc_jwt_secret :: string
  Sc_gatewaysvc :: string
  Sc_skip_user_groups_in_token :: bool
  Sc_grpc_client_options :: 'g

record reg_node =
  NodeAddress :: string
  NodeId :: string

record reg_service =
  SvcVersion :: string
  SvcNodes :: "reg_node list"

datatype out_item = Line string | ErrLine go_error | Table "string list" "string list list"

text \<open>
  \<open>LoggerExit\<close> tells whether log.NewLogger ends the process, which it does when the log file
  cannot be opened. \<open>ReturnFatal\<close> and \<open>ReturnError\<close> are those of configlog; \<open>GroupRun\<close> is
  Run of run.Group, on what its actors return; \<open>HttpGet\<close> gives the status code of the
  answer; \<open>Compiled\<close> is version.Compiled, printed; \<open>Serve\<close>, \<open>Selector\<close> and \<open>Listen\<close> are the
  parameters of NewSFTPServer and ListenAndServe.
\<close>

record ('w, 'c, 'k, 'p, 'g) libs =
  Oc :: oclib
  Env :: "('w, 'c) env"
  Crypto :: "('k, 'p) cryptolib"
  YamlMarshal :: "(string \<times> field_value) list \<Rightarrow> go_error + byte list"
  Serve :: "'c handlers \<Rightarrow> ('w, 'c event, unit) go"
  Selector :: "string \<Rightarrow> go_error option"
  Listen :: "('w, 'c) sftp_server \<Rightarrow> unit result"
  LoggerExit :: "log_options \<Rightarrow> nat option"
  ReturnFatal :: "go_error option \<Rightarrow> cli_end"
  ReturnError :: "go_error option \<Rightarrow> go_error option"
  SharedDecode :: "'g shared_conf \<Rightarrow> go_error option"
  GetGRPCClientConfig :: "reva_config \<Rightarrow> 'g"
  GroupRun :: "go_error option list \<Rightarrow> go_error option"
  HttpGet :: "string \<Rightarrow> go_error + int"
  GetService :: "string \<Rightarrow> go_error + reg_service list"
  Compiled :: string

text \<open>
  What the commands share and leave behind: the one configuration all of them point to, the
  host's files, what the shared configuration of reva took over, the server as ListenAndServe
  left it, the addresses asked, and the output of the command version.
\<close>

record ('w, 'c, 'g) process =
  P_cfg :: config
  P_os :: os_state
  P_shared :: "'g shared_conf list"
  P_server :: "('w, 'c) sftp_server option"
  P_asked :: "string list"
  P_output :: "out_item list"

type_synonym ('w, 'c, 'g) command =
  "(string \<Rightarrow> bool) \<Rightarrow> ('w, 'c, 'g) process \<Rightarrow> cli_end \<times> ('w, 'c, 'g) process"

subsection \<open>Logging\<close>

definition Configure :: "string \<Rightarrow> log_config option \<Rightarrow> log_options result" where
  "Configure name cfg = (case cfg of
      None \<Rightarrow> Abort NilDeref
    | Some lg \<Rightarrow> Ok \<lparr>LoName = name, LoLevel = Level lg, LoPretty = Pretty lg, LoColor = Color lg, LoFile = File lg\<rparr>)"

text \<open>\<open>logger := logging.Configure(cfg.Service.Name, cfg.Log)\<close>, and the rest of the action.\<close>

definition with_logger ::
    "('w, 'c, 'k, 'p, 'g) libs \<Rightarrow> (('w, 'c, 'g) process \<Rightarrow> cli_end \<times> ('w, 'c, 'g) process) \<Rightarrow>
     ('w, 'c, 'g) process \<Rightarrow> cli_end \<times> ('w, 'c, 'g) process" where
  "with_logger W rest p = (case Configure (Name (Service (P_cfg p))) (Log (P_cfg p)) of
      Ok opts \<Rightarrow> (case LoggerExit W opts of Some n \<Rightarrow> (Exits n, p) | None \<Rightarrow> rest p)
    | Err e \<Rightarrow> (Returns (Err e), p)
    | Abort a \<Rightarrow> (Returns (Abort a), p))"

subsection \<open>The server command\<close>

text \<open>\<open>return f(parser.ParseConfig(cfg))\<close>, where f looks at the error.\<close>

definition parse_before ::
    "oclib \<Rightarrow> (go_error option \<Rightarrow> cli_end) \<Rightarrow> ('w, 'c, 'g) process \<Rightarrow> cli_end \<times> ('w, 'c, 'g) process" where
  "parse_before L f p = (case ParseConfig L (P_cfg p) of (r, cfg) \<Rightarrow>
     ((case r of Ok _ \<Rightarrow> f None | Err e \<Rightarrow> f (Some e) | Abort a \<Rightarrow> Returns (Abort a)), p\<lparr>P_cfg := cfg\<rparr>))"

definition server_before :: "('w, 'c, 'k, 'p, 'g) libs \<Rightarrow> ('w, 'c, 'g) process \<Rightarrow> cli_end \<times> ('w, 'c, 'g) process" where
  "server_before W = parse_before (Oc W) (ReturnFatal W)"

text \<open>The execute function of the only actor. An error of Decode is logged only.\<close>

definition server_execute ::
    "('w, 'c, 'k, 'p, 'g) libs \<Rightarrow> ('w, 'c, 'g) process \<Rightarrow> unit result \<times> ('w, 'c, 'g) process" where
  "server_execute W p = (case TokenManager (P_cfg p) of
      None \<Rightarrow> (Abort NilDeref, p)
    | Some tm \<Rightarrow> (case Reva (P_cfg p) of
        None \<Rightarrow> (Abort NilDeref, p)
      | Some reva \<Rightarrow>
         (let sc = \<lparr>Sc_jwt_secret = JWTSecret tm, Sc_gatewaysvc = Address reva,
                    Sc_skip_user_groups_in_token = SkipUserGroupsInToken (P_cfg p),
                    Sc_grpc_client_options = GetGRPCClientConfig W reva\<rparr>;
              p = (case SharedDecode W sc of Some err \<Rightarrow> p | None \<Rightarrow> p\<lparr>P_shared := P_shared p @ [sc]\<rparr>);
              p = p\<lparr>P_cfg := (P_cfg p)\<lparr>GatewaySelector := ''eu.opencloud.api.gateway''\<rparr>\<rparr>;
              srv = NewSFTPServer (Env W) (Serve W) (P_cfg p)
          in case ListenAndServe (Env W) (Selector W) (Listen W) (P_os p) srv of
               (r, srv) \<Rightarrow> (r, p\<lparr>P_server := Some srv\<rparr>))))"

text \<open>
  The interrupt function of the actor logs and cancels a context that nothing uses. A panic
  of the actor ends the process before Run returns, and an actor that never returns keeps
  Run from returning.
\<close>

definition server_action :: "('w, 'c, 'k, 'p, 'g) libs \<Rightarrow> ('w, 'c, 'g) command" where
  "server_action W c = with_logger W (\<lambda>p. case server_execute W p of
      (Abort a, p) \<Rightarrow> (Returns (Abort a), p)
    | (Err e, p) \<Rightarrow> (Returns (case GroupRun W [Some e] of None \<Rightarrow> Ok () | Some e \<Rightarrow> Err e), p)
    | (Ok _, p) \<Rightarrow> (Returns (case GroupRun W [None] of None \<Rightarrow> Ok () | Some e \<Rightarrow> Err e), p))"

subsection \<open>The health command\<close>

definition return_error :: "('w, 'c, 'k, 'p, 'g) libs \<Rightarrow> go_error option \<Rightarrow> cli_end" where
  "return_error W err = Returns (case ReturnError W err of None \<Rightarrow> Ok () | Some e \<Rightarrow> Err e)"

definition health_before :: "('w, 'c, 'k, 'p, 'g) libs \<Rightarrow> ('w, 'c, 'g) process \<Rightarrow> cli_end \<times> ('w, 'c, 'g) process" where
  "health_before W = parse_before (Oc W) (return_error W)"

definition health_url :: "config \<Rightarrow> string" where
  "health_url cfg = ''http://'' @ Addr (Debug cfg) @ ''/healthz''"

text \<open>logger.Fatal exits with code 1.\<close>

definition health_action :: "('w, 'c, 'k, 'p, 'g) libs \<Rightarrow> ('w, 'c, 'g) command" where
  "health_action W c = with_logger W (\<lambda>p.
     let url = health_url (P_cfg p); p = p\<lparr>P_asked := P_asked p @ [url]\<rparr>
     in case HttpGet W url of
          Inl err \<Rightarrow> (Exits 1, p)
        | Inr code \<Rightarrow> if code \<noteq> 200 then (Exits 1, p) else (Returns (Ok ()), p))"

subsection \<open>The version command\<close>

text \<open>The two loops that append the rows of the table.\<close>

fun append_nodes :: "string \<Rightarrow> reg_node list \<Rightarrow> string list list \<Rightarrow> string list list" where
  "append_nodes v [] rows = rows"
| "append_nodes v (n # ns) rows = append_nodes v ns (rows @ [[v, NodeAddress n, NodeId n]])"

fun append_services :: "reg_service list \<Rightarrow> string list list \<Rightarrow> string list list" where
  "append_services [] rows = rows"
| "append_services (s # ss) rows = append_services ss (append_nodes (SvcVersion s) (SvcNodes s) rows)"

definition version_action :: "('w, 'c, 'k, 'p, 'g) libs \<Rightarrow> ('w, 'c, 'g) command" where
  "version_action W c p =
     (let name = Name (Service (P_cfg p));
          out = P_output p @ [Line (''Version: '' @ GetString (Oc W)), Line (''Compiled: '' @ Compiled W), Line []]
      in case GetService W (''SFTP'' @ ''.'' @ name) of
           Inl err \<Rightarrow>
             (Returns (Err err), p\<lparr>P_output := out @
               [ErrLine (Errorf ''could not get %s services from the registry: %v'' [FStr name, FErr (Some err)])]\<rparr>)
         | Inr services \<Rightarrow>
             if length services = 0 then
               (Returns (Ok ()), p\<lparr>P_output := out @ [Line (''No running '' @ name @ '' service found.'')]\<rparr>)
             else
               (Returns (Ok ()), p\<lparr>P_output := out @
                 [Table [''Version'', ''Address'', ''Id''] (append_services services [])]\<rparr>))"

subsection \<open>The commands\<close>

text \<open>A string flag has a default value and the field it is stored into.\<close>

datatype flag_kind = StringFlag string "string \<Rightarrow> config \<Rightarrow> config" | BoolFlag bool

record cli_flag =
  FlagName :: string
  FlagAliases :: "string list"
  FlagEnvVars :: "string list"
  FlagRequired :: bool
  FlagKind :: flag_kind

text \<open>Usage texts are left out. \<open>CmdBefore\<close> is \<open>None\<close> for a command without Before.\<close>

record ('w, 'c, 'g) cli_command =
  CmdName :: string
  CmdCategory :: string
  CmdFlags :: "cli_flag list"
  CmdBefore :: "(('w, 'c, 'g) process \<Rightarrow> cli_end \<times> ('w, 'c, 'g) process) option"
  CmdAction :: "('w, 'c, 'g) command"

definition Server_cmd :: "('w, 'c, 'k, 'p, 'g) libs \<Rightarrow> ('w, 'c, 'g) cli_command" where
  "Server_cmd W = \<lparr>CmdName = ''server'', CmdCategory = ''server'', CmdFlags = [],
     CmdBefore = Some (server_before W), CmdAction = server_action W\<rparr>"

definition Health_cmd :: "('w, 'c, 'k, 'p, 'g) libs \<Rightarrow> ('w, 'c, 'g) cli_command" where
  "Health_cmd W = \<lparr>CmdName = ''health'', CmdCategory = ''info'', CmdFlags = [],
     CmdBefore = Some (health_before W), CmdAction = health_action W\<rparr>"

definition Version_cmd :: "('w, 'c, 'k, 'p, 'g) libs \<Rightarrow> ('w, 'c, 'g) cli_command" where
  "Version_cmd W = \<lparr>CmdName = ''version'', CmdCategory = ''info'', CmdFlags = [],
     CmdBefore = None, CmdAction = version_action W\<rparr>"

text \<open>The flags are declared when the command is made, with the configuration as it is then.\<close>

definition init_flags :: "oclib \<Rightarrow> config \<Rightarrow> cli_flag list" where
  "init_flags L cfg =
     [\<lparr>FlagName = ''sftp-addr'', FlagAliases = [], FlagEnvVars = [], FlagRequired = True,
       FlagKind = StringFlag [] (\<lambda>v c. c\<lparr>SFTPAddress := v\<rparr>)\<rparr>,
      \<lparr>FlagName = ''host-private-key-path'', FlagAliases = [''k''], FlagEnvVars = [], FlagRequired = False,
       FlagKind = StringFlag (path_Join [BaseDataPath L, Name (Service cfg), ''id_rsa''])
         (\<lambda>v c. c\<lparr>HostPrivateKeyPath := v\<rparr>)\<rparr>,
      \<lparr>FlagName = ''force-overwrite'', FlagAliases = [''f''],
       FlagEnvVars = [''OC_FORCE_CONFIG_OVERWRITE'', ''OCSFTP_FORCE_CONFIG_OVERWRITE''],
       FlagRequired = False, FlagKind = BoolFlag False\<rparr>]"

definition Init_cmd :: "('w, 'c, 'k, 'p, 'g) libs \<Rightarrow> config \<Rightarrow> ('w, 'c, 'g) cli_command" where
  "Init_cmd W cfg = \<lparr>CmdName = ''init'', CmdCategory = ''service'', CmdFlags = init_flags (Oc W) cfg,
     CmdBefore = Some (\<lambda>p. case init_before (Oc W) (ReturnError W) (P_cfg p) of
       (r, cfg) \<Rightarrow> (Returns r, p\<lparr>P_cfg := cfg\<rparr>)),
     CmdAction = (\<lambda>c p. case init_action (Oc W) (Crypto W) (YamlMarshal W) (P_cfg p) (c ''force-overwrite'') (P_os p) of
       (r, os) \<Rightarrow> (Returns r, p\<lparr>P_os := os\<rparr>))\<rparr>"

definition GetCommands :: "('w, 'c, 'k, 'p, 'g) libs \<Rightarrow> config \<Rightarrow> ('w, 'c, 'g) cli_command list" where
  "GetCommands W cfg = [Server_cmd W, Init_cmd W cfg, Health_cmd W, Version_cmd W]"

text \<open>\<open>app\<close> is RunContext of the command-line application, on the commands and the arguments.\<close>

definition Execute ::
    "(('w, 'c, 'g) cli_command list \<Rightarrow> string list \<Rightarrow> ('w, 'c, 'g) process \<Rightarrow> cli_end \<times> ('w, 'c, 'g) process) \<Rightarrow>
     ('w, 'c, 'k, 'p, 'g) libs \<Rightarrow> string list \<Rightarrow> ('w, 'c, 'g) process \<Rightarrow> cli_end \<times> ('w, 'c, 'g) process" where
  "Execute app W args p = app (GetCommands W (P_cfg p)) args p"

text \<open>The process's exit code; \<open>None\<close> when it never ends. A panic exits with 2.\<close>

definition exit_code :: "cli_end \<Rightarrow> nat option" where
  "exit_code e = (case e of
      Exits n \<Rightarrow> Some n
    | Returns r \<Rightarrow> (case r of
        Ok _ \<Rightarrow> Some 0
      | Err _ \<Rightarrow> Some 1
      | Abort a \<Rightarrow> if a = Blocked then None else Some 2))"

definition main ::
    "(('w, 'c, 'g) cli_command list \<Rightarrow> string list \<Rightarrow> ('w, 'c, 'g) process \<Rightarrow> cli_end \<times> ('w, 'c, 'g) process) \<Rightarrow>
     ('w, 'c, 'k, 'p, 'g) libs \<Rightarrow> string list \<Rightarrow> os_state \<Rightarrow> nat option \<times> ('w, 'c, 'g) process" where
  "main app W args os =
     (case Execute app W args \<lparr>P_cfg = DefaultConfig (Oc W), P_os = os, P_shared = [], P_server = None,
        P_asked = [], P_output = []\<rparr> of (e, p) \<Rightarrow> (exit_code e, p))"

end
