(* ===== verification/FileProps.thy ===== *)
theory FileProps
  imports FileOps
begin

text \<open>
  The properties of an open file, with runs on the sample environment as witnesses.
\<close>

subsection \<open>A sample file\<close>

definition mem_root :: "mctx root" where
  "mem_root = \<lparr>authCtx = mem_ctx\<rparr>"

definition mem_new :: "string \<Rightarrow> handler" where
  "mem_new p = newSftpFileHandler \<lparr>RefResourceId = mem_rid, RefPath = p\<rparr> (''/Admin'' @ p) 3"

text \<open>The file /a.txt after its first read.\<close>

definition mem_open :: handler where
  "mem_open = (mem_new ''/a.txt'')\<lparr>h_cache := Some [104, 105], h_cacheValid := True, h_fileSize := 2\<rparr>"

lemma mem_runtime_ok: "runtime_ok mem_env"
  by (simp add: runtime_ok_def mem_env_def)

lemma mem_open_cached: "cached mem_env [104, 105] mem_open"
  by (simp add: cached_def handler_inv_def cache_inv_def mem_open_def mem_new_def
      newSftpFileHandler_def bytes_of_def mem_env_def)

lemma mem_new_inv: "handler_inv mem_env (mem_new p)"
  unfolding mem_new_def by (rule new_handler_inv) (rule mem_runtime_ok)

text \<open>A gateway that loses the connection: every lookup of a file fails.\<close>

definition flaky_env :: "(mem, mctx) env" where
  "flaky_env = mem_env\<lparr>E_gw := mem_gateway\<lparr>gw_Stat := (\<lambda>c r w. (Inl (Ext ''unavailable''), w))\<rparr>\<rparr>"

lemma flaky_download:
  "downloadFile flaky_env mem_root (mem0, mem_new ''/a.txt'') =
     (Err (Ext ''unavailable''), [EvNext None, EvStat mem_ctx \<lparr>RefResourceId = mem_rid, RefPath = ''/a.txt''\<rparr>
        (Inl (Ext ''unavailable''))], (mem0, mem_new ''/a.txt''))"
  by (simp add: downloadFile_def bnd_get_h)
    (simp add: mem_new_def newSftpFileHandler_def flaky_env_def mem_env_def mem_gateway_def mem_root_def
      rpc_call_def call_Next_def go_defs)

lemma flaky_inv: "handler_inv flaky_env (mem_new p)"
  using mem_new_inv [of p] by (simp add: flaky_env_def handler_inv_def cache_inv_def)

subsection \<open>Properties\<close>

text \<open>
  C4: an open file refines an array of bytes, for requests that fit it. Take any sequence of
  reads, writes and truncations on a cached file in which no offset of a read or write is negative
  and no write ends, and no truncation reaches, beyond the largest allocation. A run that
  returns gives one reply per request, each that of the abstract operation at its place in
  the order: a read exactly the bytes, count and end-of-file of the abstract file, a write
  the count of all its bytes, a truncation to a negative size an error; and the cache then holds what
  the abstract operations leave, whatever the gateways answered and whether or not uploads
  failed. The run returns no error of its own; the only ways it can end early are a nil
  dereference and a failed allocation, so it never blocks, never unlocks a free lock and
  never leaves a slice's bounds. The handler's invariant holds at the end in any case.
\<close>

theorem open_file_refines_bytes:
  assumes "cached X c h" "runtime_ok X" "list_all (op_ok X) ops"
  shows "wp (run_file X fs ops) (\<lambda>r l (w', h'). handler_inv X h' \<and>
     (case r of Ok outs \<Rightarrow> cached X (fold abs_op ops c) h' \<and> abs_run ops c outs
      | Err _ \<Rightarrow> False | Abort a \<Rightarrow> a \<in> {NilDeref, MakeSlice})) (w, h)"
  by (rule wp_mono [OF wp_run_file [OF assms]])
    (auto simp: returns_or_services_fail_def split: result.splits)

theorem open_file_refines_bytes_witness:
  "(let ops = [OpWrite [1, 2] 3, OpRead [0, 0, 0] 1, OpTruncate 1, OpTruncate (- 1)] in
    wp (run_file mem_env mem_root ops) (\<lambda>r l (w', h'). handler_inv mem_env h' \<and>
     (case r of Ok outs \<Rightarrow> cached mem_env (fold abs_op ops [104, 105]) h' \<and> abs_run ops [104, 105] outs
      | Err _ \<Rightarrow> False | Abort a \<Rightarrow> a \<in> {NilDeref, MakeSlice})) (mem0, mem_open)) \<and>
   fst (run_file mem_env mem_root [OpWrite [1, 2] 3, OpRead [0, 0, 0] 1, OpTruncate 1, OpTruncate (- 1)]
     (mem0, mem_open)) =
   Ok [OutWrite 2 None, OutRead (3, [105, 0, 1], None), OutTruncate None,
       OutTruncate (Some (Errorf ''negative size not allowed'' []))]"
  unfolding Let_def
proof (rule conjI, rule open_file_refines_bytes [OF mem_open_cached mem_runtime_ok])
  show "list_all (op_ok mem_env) [OpWrite [1, 2] 3, OpRead [0, 0, 0] 1, OpTruncate 1, OpTruncate (- 1)]"
    by (simp add: op_ok_def mem_env_def)
qed code_simp



text \<open>
  C13: the first read of an opened file, at an offset that is not negative, downloads it and
  changes nothing in the storage. It ends as the download does: when the download returns an
  error, the read answers zero bytes and that error; when the download panics, on a nil
  status or on a body too large for memory, so does the read; both leave the handler as it was.
  Otherwise it answers with the bytes at the offset of contents that the log shows to come
  from the storage (a 200 answer to a GET, or empty contents when a stat of the file's
  reference says NOT_FOUND), and these contents are cached from then on.
\<close>

theorem first_read_downloads:
  assumes "runtime_ok X" "0 \<le> off"
  shows "wp (ReadAt X fs b off) (\<lambda>r l (w', h'). handler_inv X h' \<and> \<not> list_ex ev_mutates l \<and>
     (case fst (downloadFile X fs (w, newSftpFileHandler ref p fl)) of
        Err e \<Rightarrow> r = Ok (0, b, Some e) \<and> h' = newSftpFileHandler ref p fl
      | Abort a \<Rightarrow> a \<in> {NilDeref, MakeSlice} \<and> r = Abort a \<and> h' = newSftpFileHandler ref p fl
      | Ok _ \<Rightarrow> (\<exists>c. cached X c h' \<and> r = Ok (read_spec c b (nat off)) \<and>
        ((\<exists>q resp. EvHttp q (Inr resp) \<in> set l \<and> HttpMethod q = ''GET'' \<and>
            HttpStatusCode resp = 200 \<and> HttpResBody resp = c \<and> HttpResBodyErr resp = None) \<or>
         (c = [] \<and> (\<exists>sr. EvStat (authCtx fs) ref (Inr sr) \<in> set l \<and>
            GetCode (StatStatus sr) = CODE_NOT_FOUND))))))
     (w, newSftpFileHandler ref p fl)"
proof -
  let ?h = "newSftpFileHandler ref p fl"
  have inv: "handler_inv X ?h" by (rule new_handler_inv) (rule assms(1))
  have valid: "\<not> h_cacheValid ?h" by (simp add: newSftpFileHandler_def)
  have from_log: "(\<exists>q resp. EvHttp q (Inr resp) \<in> set l \<and> HttpMethod q = ''GET'' \<and>
            HttpStatusCode resp = 200 \<and> HttpResBody resp = c \<and> HttpResBodyErr resp = None) \<or>
         (c = [] \<and> (\<exists>sr. EvStat (authCtx fs) ref (Inr sr) \<in> set l \<and>
            GetCode (StatStatus sr) = CODE_NOT_FOUND))" if d: "downloaded fs ?h c l" for c l
  proof -
    obtain e where "download_event fs ?h c e" "e \<in> set l"
      using d by (auto simp: downloaded_def list_ex_iff)
    then show ?thesis
      by (cases rule: download_event_cases) (auto simp: newSftpFileHandler_def)
  qed
  obtain d l w1 h1 where run: "downloadFile X fs (w, ?h) = (d, l, (w1, h1))" by (metis surj_pair)
  have post: "download_post X fs ?h d l h1" using wpD [OF wp_downloadFile [OF inv assms(1)] run] by simp
  then have h1: "handler_inv X h1" "\<not> list_ex ev_mutates l" by (simp_all add: download_post_def)
  have "ReadAt X fs b off (w, ?h) = (case d of
      Ok _ \<Rightarrow> (Ok (read_spec (bytes_of h1) b (nat off)), l, (w1, h1))
    | Err e \<Rightarrow> (Ok (0, b, Some e), l, (w1, h1)) | Abort a \<Rightarrow> (Abort a, l, (w1, h1)))"
    unfolding ReadAt_uncached [OF inv valid] using run
    by (simp add: bnd_def try_go_def ret_apply readFromCache_eq [OF h1(1) assms] split: result.split)
  then show ?thesis
    using post h1 run by (auto simp: wp_def download_post_def cached_def dest: from_log split: result.splits)
qed

theorem first_read_downloads_witness:
  "wp (ReadAt mem_env mem_root [0, 0, 0] 0) (\<lambda>r l (w', h'). \<not> list_ex ev_mutates l \<and>
      (\<exists>c. cached mem_env c h' \<and> r = Ok (read_spec c [0, 0, 0] 0)))
     (mem0, newSftpFileHandler \<lparr>RefResourceId = mem_rid, RefPath = ''/a.txt''\<rparr> ''/Admin/a.txt'' 1) \<and>
   fst (ReadAt mem_env mem_root [0, 0, 0] 0
     (mem0, newSftpFileHandler \<lparr>RefResourceId = mem_rid, RefPath = ''/a.txt''\<rparr> ''/Admin/a.txt'' 1)) =
     Ok (2, [104, 105, 0], Some EOF)"
proof (rule conjI)
  have d: "fst (downloadFile mem_env mem_root (mem0, newSftpFileHandler
      \<lparr>RefResourceId = mem_rid, RefPath = ''/a.txt''\<rparr> ''/Admin/a.txt'' 1)) = Ok ()"
    by code_simp
  show "wp (ReadAt mem_env mem_root [0, 0, 0] 0) (\<lambda>r l (w', h'). \<not> list_ex ev_mutates l \<and>
      (\<exists>c. cached mem_env c h' \<and> r = Ok (read_spec c [0, 0, 0] 0)))
     (mem0, newSftpFileHandler \<lparr>RefResourceId = mem_rid, RefPath = ''/a.txt''\<rparr> ''/Admin/a.txt'' 1)"
    by (rule wp_mono [OF first_read_downloads [OF mem_runtime_ok]]) (auto simp: d)
qed code_simp

text \<open>
  C19: the reads of an open file are a correct io.ReaderAt. Reading chunks of any positive
  size one after the other until the end is reported gives exactly the contents, after at
  most one read more than the chunks the contents fill.
\<close>

theorem read_loop_gives_file:
  assumes "cached X c h" "runtime_ok X" "0 < n"
  shows "drain (ReadAt_chunk X fs (w, h)) n (length c div n + 1) 0 = c"
  unfolding ReadAt_chunk_cached [OF assms(1,2)]
  by (rule file_reader.drain_all) (use assms(3) in simp_all)

theorem read_loop_gives_file_witness:
  "drain (ReadAt_chunk mem_env mem_root (mem0, mem_open)) 1 (length [104 :: byte, 105] div 1 + 1) 0 = [104, 105]"
  by (rule read_loop_gives_file [OF mem_open_cached mem_runtime_ok]) simp



text \<open>
  C33: a truncation of a file that is not cached yet crashes the server when the download
  fails. Truncate gives its lock up for the download, returns the download's error without
  taking it again, and the deferred Unlock then unlocks a free lock, which Go treats as fatal.
\<close>

theorem truncate_crashes_when_download_fails:
  assumes "handler_inv X h" "\<not> h_cacheValid h" "0 \<le> sz"
    "downloadFile X fs (w, h) = (Err e, ld, (w1, h))"
  shows "Truncate X fs sz (w, h) = (Abort FatalUnlock, ld, (w1, h))"
  using assms
  by (simp add: Truncate_def handler_inv_def mu_Lock_def mu_Unlock_def get_h_def set_h_def go_defs)

theorem truncate_crashes_when_download_fails_witness:
  "Truncate flaky_env mem_root 0 (mem0, mem_new ''/a.txt'') =
     (Abort FatalUnlock, [EvNext None, EvStat mem_ctx \<lparr>RefResourceId = mem_rid, RefPath = ''/a.txt''\<rparr>
        (Inl (Ext ''unavailable''))], (mem0, mem_new ''/a.txt''))"
  by (rule truncate_crashes_when_download_fails [OF flaky_inv _ _ flaky_download])
    (simp_all add: mem_new_def newSftpFileHandler_def)

text \<open>
  C34: a write to a file whose download fails, for any reason, is carried out on what the
  handler has. For a handler just opened this is nothing: with an offset that is not negative and an
  end that fits the memory, the cache becomes zeros up to the offset and the bytes written,
  and every request sent to the data gateway after the failed download is a PUT of exactly
  these bytes. Unless the write panics, on a nil status or on a body too large for memory, it
  counts all its bytes, and it reports no error exactly when the data gateway answered such
  a PUT with 200.
\<close>

theorem write_after_failed_download_overwrites:
  assumes "runtime_ok X" "0 \<le> off" "off + int (length b) \<le> E_max_alloc X"
    "downloadFile X fs (w, newSftpFileHandler ref p fl) = (Err e, ld, (w1, newSftpFileHandler ref p fl))"
  shows "wp (WriteAt X fs b off) (\<lambda>r l (w', h').
     bytes_of h' = replicate (nat off) 0 @ b \<and>
     (\<exists>l'. l = ld @ l' \<and>
        (\<forall>q resp. EvHttp q resp \<in> set l' \<longrightarrow> HttpMethod q = ''PUT'' \<and> HttpBody q = replicate (nat off) 0 @ b) \<and>
        (case r of
           Ok (n, err) \<Rightarrow> n = length b \<and> (err = None \<longleftrightarrow>
             (\<exists>q resp. EvHttp q (Inr resp) \<in> set l' \<and> HttpMethod q = ''PUT'' \<and>
               HttpBody q = replicate (nat off) 0 @ b \<and> HttpStatusCode resp = 200))
         | Err _ \<Rightarrow> False | Abort a \<Rightarrow> a \<in> {NilDeref, MakeSlice})))
     (w, newSftpFileHandler ref p fl)"
proof -
  let ?h = "newSftpFileHandler ref p fl"
  have h: "handler_inv X ?h" "\<not> h_cacheValid ?h" "bytes_of ?h = []"
    using new_handler_inv [OF assms(1)] by (auto simp: newSftpFileHandler_def bytes_of_def)
  have put: "put_at [] (nat off) b = replicate (nat off) 0 @ b" by (simp add: put_at_def)
  have acked: "acked l' \<longleftrightarrow> (\<exists>q resp. EvHttp q (Inr resp) \<in> set l' \<and> HttpMethod q = ''PUT'' \<and>
      HttpBody q = c \<and> HttpStatusCode resp = 200)" if "list_all (uploads fs ?h c) l'" for c l'
    using uploads_put [OF that] unfolding acked_def by blast
  show ?thesis
    by (rule wp_mono [OF wp_WriteAt_failed_download [OF h(1,2) assms]])
      (use uploads_put acked in \<open>fastforce simp: h(3) put returns_or_services_fail_def split: result.splits\<close>)
qed

theorem write_after_failed_download_overwrites_witness:
  "wp (WriteAt flaky_env mem_root [1] 1) (\<lambda>r l (w', h'). bytes_of h' = [0, 1] \<and>
      (\<forall>n. r = Ok (n, None) \<longrightarrow> (\<exists>q resp. EvHttp q (Inr resp) \<in> set l \<and> HttpBody q = [0, 1] \<and>
        HttpStatusCode resp = 200))) (mem0, mem_new ''/a.txt'') \<and>
   (let (r, l, w', h') = WriteAt flaky_env mem_root [1] 1 (mem0, mem_new ''/a.txt'')
    in r = Ok (1, None) \<and> map_of (m_nodes mem0) ''/a.txt'' = Some (MFile [104, 105]) \<and>
       map_of (m_nodes w') ''/a.txt'' = Some (MFile [0, 1]))"
proof (rule conjI)
  show "wp (WriteAt flaky_env mem_root [1] 1) (\<lambda>r l (w', h'). bytes_of h' = [0, 1] \<and>
      (\<forall>n. r = Ok (n, None) \<longrightarrow> (\<exists>q resp. EvHttp q (Inr resp) \<in> set l \<and> HttpBody q = [0, 1] \<and>
        HttpStatusCode resp = 200))) (mem0, mem_new ''/a.txt'')"
    unfolding mem_new_def
    by (rule wp_mono [OF write_after_failed_download_overwrites [OF _ _ _ flaky_download [unfolded mem_new_def]]])
      (auto simp: runtime_ok_def flaky_env_def mem_env_def, blast)
qed code_simp

text \<open>
  C35: offsets a client may send crash the server. An SFTP offset is an unsigned 64-bit
  number that becomes an int64: one of at least 2^63 is negative, passes the end-of-file
  test of a read and slices the cache at a negative index; the same holds for a write there
  whose end does not lie beyond the contents.
\<close>

theorem wrapped_offset_crashes:
  assumes "cached X c h" "runtime_ok X" "2 ^ 63 \<le> uint (u :: 64 word)" "int (length b) < 2 ^ 63"
  shows "ReadAt X fs b (int64_of_u64 u) (w, h) = (Abort SliceBounds, [], (w, h)) \<and>
     (int64_of_u64 u + int (length b) \<le> int (length c) \<longrightarrow>
      WriteAt X fs b (int64_of_u64 u) (w, h) = (Abort SliceBounds, [], (w, h)))"
proof -
  have neg: "- (2 ^ 63) \<le> int64_of_u64 u" "int64_of_u64 u < 0"
  proof -
    have "uint u < 2 ^ 64" using uint_lt2p [of u] by simp
    then have "int64 (uint u) = uint u - 2 ^ 64" using assms(3) by (rule int64_wraps [rotated])
    then have u: "int64_of_u64 u = uint u - 2 ^ 64" by (simp add: int64_def int64_of_u64_def)
    show "- (2 ^ 63) \<le> int64_of_u64 u" "int64_of_u64 u < 0"
      using u assms(3) \<open>uint u < 2 ^ 64\<close> by simp_all
  qed
  have h: "handler_inv X h" "h_cacheValid h" using assms(1) by (simp_all add: cached_def)
  have "int64 (int64_of_u64 u + int (length b)) = int64_of_u64 u + int (length b)"
    by (rule int64_id) (use neg assms(4) in simp_all)
  then show ?thesis
    using ReadAt_cached [OF h] readFromCache_negative [OF h(1) neg(2)]
      WriteAt_bad_offset [OF assms(1), of "int64_of_u64 u" b] neg by simp
qed

theorem wrapped_offset_crashes_witness:
  "ReadAt mem_env mem_root [0] (int64_of_u64 (2 ^ 63)) (mem0, mem_open) = (Abort SliceBounds, [], (mem0, mem_open))"
  by (rule wrapped_offset_crashes [THEN conjunct1, OF mem_open_cached mem_runtime_ok]) simp_all

end
