(* ===== verification/VfsProps.thy ===== *)
theory VfsProps
  imports Session FileProps
begin

text \<open>
  The properties of the virtual file system: containment of a session, the guards of the
  operations that change the storage, and what listing, stat and open really do.
\<close>

subsection \<open>Containment\<close>

text \<open>
  C1: a session is contained. A client may send requests in any order and on any open files,
  and the services may answer anything. For every request of the session: each gateway call
  it makes carries the context of the session's own user or none, and each reference it names lies in
  the storage space that one of the request's own paths names. That is, a listing of the
  spaces under that context, answered OK in the session before or during this request, holds
  a space whose name is the first component of the path, and the reference has the resource
  id made of the id of the first such space. The paths of a read, write or truncation of an
  open file are the one path the file was opened with.
\<close>

theorem session_contained:
  assumes "session_run X fs (session_start w) s" "S_trace s = before @ (ps, l) # after" "e \<in> set l"
  shows "ev_ctx e \<in> {None, Some (authCtx fs)} \<and>
     (\<forall>r \<in> set (ev_refs e). \<exists>p \<in> set ps. \<exists>res sps sp sps' ref.
        EvListStorageSpaces (authCtx fs) \<lparr>FieldMaskPaths = [''*''], Filters = []\<rparr> (Inr res)
          \<in> set (calls_of before @ l) \<and> GetCode (SpacesStatus res) = CODE_OK \<and>
        StorageSpaces res = sps @ sp # sps' \<and> SpaceName sp = fst (SplitAbsolutePath p) \<and>
        fst (SplitAbsolutePath p) \<notin> SpaceName ` set sps \<and>
        MakeStorageSpaceReference (E_reva X) (SpaceOpaqueId sp) (snd (SplitAbsolutePath p)) = Ok ref \<and>
        RefResourceId r = RefResourceId ref)"
proof -
  have "contained_trace X fs (S_trace s)"
    using session_run_inv [OF assms(1)] by (simp add: session_inv_def)
  then have stays: "stays_within X fs (calls_of before) ps l"
    using assms(2) unfolding contained_trace_def by blast
  show ?thesis
  proof (intro conjI ballI)
    show "ev_ctx e \<in> {None, Some (authCtx fs)}" using stays assms(3) unfolding stays_within_def by blast
  next
    fix r assume "r \<in> set (ev_refs e)"
    then obtain p ref where "p \<in> set ps" "names_ref X fs p (calls_of before @ l) ref" "RefResourceId r = RefResourceId ref"
      using stays assms(3) unfolding stays_within_def by blast
    then show "\<exists>p \<in> set ps. \<exists>res sps sp sps' ref.
        EvListStorageSpaces (authCtx fs) \<lparr>FieldMaskPaths = [''*''], Filters = []\<rparr> (Inr res)
          \<in> set (calls_of before @ l) \<and> GetCode (SpacesStatus res) = CODE_OK \<and>
        StorageSpaces res = sps @ sp # sps' \<and> SpaceName sp = fst (SplitAbsolutePath p) \<and>
        fst (SplitAbsolutePath p) \<notin> SpaceName ` set sps \<and>
        MakeStorageSpaceReference (E_reva X) (SpaceOpaqueId sp) (snd (SplitAbsolutePath p)) = Ok ref \<and>
        RefResourceId r = RefResourceId ref"
      unfolding names_ref_def space_named_Some by blast
  qed
qed

definition mem_req :: "string \<Rightarrow> string \<Rightarrow> request" where
  "mem_req m p = \<lparr>R_Method = m, R_Filepath = p, R_Target = ''/Admin/b.txt'', R_Flags = 26\<rparr>"

theorem session_contained_witness:
  "\<exists>s l. session_run mem_env mem_root (session_start mem0) s \<and>
     S_trace s = [([''/Admin/a.txt'', ''/Admin/b.txt''], l)] \<and> list_ex ev_mutates l \<and>
     (\<forall>e \<in> set l. ev_ctx e \<in> {None, Some mem_ctx} \<and> (\<forall>r \<in> set (ev_refs e). RefResourceId r = mem_rid))"
proof -
  obtain r l w' where run: "Filecmd mem_env mem_root (mem_req ''Remove'' ''/Admin/a.txt'') mem0 = (r, l, w')"
    by (metis surj_pair)
  define s where "s = \<lparr>S_world = w', S_files = (\<lambda>_. None :: handler option),
    S_trace = [([''/Admin/a.txt'', ''/Admin/b.txt''], l)]\<rparr>"
  have "session_step mem_env mem_root (session_start mem0) s"
    using session_step.Command [OF run, of "\<lambda>_. None" "[]"] by (simp add: session_start_def s_def mem_req_def)
  then have s: "session_run mem_env mem_root (session_start mem0) s" by blast
  have "list_ex ev_mutates (fst (snd (Filecmd mem_env mem_root (mem_req ''Remove'' ''/Admin/a.txt'') mem0)))"
    by code_simp
  then have m: "list_ex ev_mutates l" using run by simp
  have "list_all (\<lambda>e. case e of EvListStorageSpaces _ _ (Inr res) \<Rightarrow>
      list_all (\<lambda>sp. SpaceOpaqueId sp = ''st$sp1'') (StorageSpaces res) | _ \<Rightarrow> True)
    (fst (snd (Filecmd mem_env mem_root (mem_req ''Remove'' ''/Admin/a.txt'') mem0)))"
    by code_simp
  then have sp1: "SpaceOpaqueId sp = ''st$sp1''"
    if "EvListStorageSpaces c q (Inr res) \<in> set l" "sp \<in> set (StorageSpaces res)" for c q res sp
    using run that by (fastforce simp: list_all_iff)
  have rid: "RefResourceId ref = mem_rid"
    if "MakeStorageSpaceReference (E_reva mem_env) ''st$sp1'' p = Ok ref" for p ref
  proof -
    have "ParseID (E_reva mem_env) ''st$sp1'' = Inr mem_rid" "StorageId mem_rid \<noteq> []" by code_simp+
    then show ?thesis using that by (auto simp: MakeStorageSpaceReference_def)
  qed
  have tr: "S_trace s = [] @ ([''/Admin/a.txt'', ''/Admin/b.txt''], l) # []" by (simp add: s_def)
  have "ev_ctx e \<in> {None, Some mem_ctx} \<and> (\<forall>r \<in> set (ev_refs e). RefResourceId r = mem_rid)" if e: "e \<in> set l" for e
    using session_contained [OF s tr e] sp1 rid by (fastforce simp: mem_root_def)
  then show ?thesis using s m tr by auto
qed

subsection \<open>The operations that change the storage\<close>

lemma wp_guarded:
  assumes "wp m (\<lambda>r l w'. G r l \<or> (\<not> list_ex ev_mutates l \<and> r \<noteq> Ok ())) w"
    and "\<And>r l. G r l \<Longrightarrow> P r l" "\<And>r l. G r l \<Longrightarrow> list_ex ev_mutates l"
  shows "wp m (\<lambda>r l w'. if list_ex ev_mutates l then P r l else r \<noteq> Ok ()) w"
  by (rule wp_mono [OF assms(1)]) (use assms(2,3) in auto)

lemma rename_outcome_holds:
  "r = rename_outcome resp \<longleftrightarrow> (case resp of Inl e \<Rightarrow> r = Err e
     | Inr st \<Rightarrow> (case GetCode st of
          CODE_OK \<Rightarrow> r = Ok () | CODE_NOT_FOUND \<Rightarrow> r = Err ErrNotExist
        | CODE_ALREADY_EXISTS \<Rightarrow> r = Err ErrExist | CODE_PERMISSION_DENIED \<Rightarrow> r = Err ErrPermission
        | CODE_OTHER _ \<Rightarrow> r = Err (Errorf ''move failed: %s'' [FStr (GetMessage st)])))"
  by (simp split: sum.split rpc_code.split)

lemma mkdir_outcome_holds:
  "r = mkdir_outcome resp \<Longrightarrow> (case resp of Inl e \<Rightarrow> r = Err e
     | Inr st \<Rightarrow>
         (if GetCode st = CODE_OK then r = Ok ()
          else if GetCode st = CODE_ALREADY_EXISTS then \<exists>e. r = Err e \<and> errors_Is e ErrExist
          else r = Err (Errorf ''failed to create container: %s'' [FStr (GetMessage st)])))"
  by (simp add: mkdir_outcome_def errors_Is.simps wraps_Is.simps split: sum.split)

text \<open>
  C8: remove deletes files only, and only what it has just looked at. A run either makes no
  call that changes anything and fails, or resolves the path, gets the answer OK and a type
  other than directory from a Stat of the reference, and sends the Delete of the same
  reference right after it; it succeeds exactly when that Delete is answered OK.
\<close>

theorem remove_only_files:
  "wp (root_remove X fs p) (\<lambda>r l w'.
     if list_ex ev_mutates l then
       \<exists>pre ref sr resp. resolved X fs p pre ref \<and>
         l = pre @ [EvStat (authCtx fs) ref (Inr sr), EvDelete (authCtx fs) ref resp] \<and>
         GetCode (StatStatus sr) = CODE_OK \<and>
         InfoType (info_or_zero (StatInfo sr)) \<noteq> RESOURCE_TYPE_CONTAINER \<and>
         (r = Ok () \<longleftrightarrow> (\<exists>st. resp = Inr st \<and> GetCode st = CODE_OK))
     else r \<noteq> Ok ()) w"
  by (rule wp_guarded [OF wp_remove]) (auto simp: guarded_remove_def)

text \<open>
  C9: rmdir deletes empty directories only. A run that changes anything had a Stat of the
  reference answered OK with a directory, then a listing of it answered OK with no entries,
  and then sends the Delete of the same reference; it succeeds exactly when that is answered OK.
\<close>

theorem rmdir_only_empty_directories:
  "wp (root_rmdir X fs p) (\<lambda>r l w'.
     if list_ex ev_mutates l then
       \<exists>pre ref sr lr resp. resolved X fs p pre ref \<and>
         l = pre @ [EvStat (authCtx fs) ref (Inr sr), EvListContainer (authCtx fs) ref (Inr lr),
                    EvDelete (authCtx fs) ref resp] \<and>
         GetCode (StatStatus sr) = CODE_OK \<and>
         InfoType (info_or_zero (StatInfo sr)) = RESOURCE_TYPE_CONTAINER \<and>
         GetCode (ListStatus lr) = CODE_OK \<and> ListInfos lr = [] \<and>
         (r = Ok () \<longleftrightarrow> (\<exists>st. resp = Inr st \<and> GetCode st = CODE_OK))
     else r \<noteq> Ok ()) w"
  by (rule wp_guarded [OF wp_rmdir]) (auto simp: guarded_rmdir_def)

text \<open>
  C10: a rename moves inside one space, and without permission to overwrite it looks first. A
  run that changes anything resolved both paths to references with one resource id, and the
  Move of the one to the other is its last call; when overwriting is not allowed, the call
  before is a Stat of the target that was not answered OK (an error of the call counts as
  absent). The Move's answer decides the outcome: NOT_FOUND, ALREADY_EXISTS and
  PERMISSION_DENIED become the matching os errors.
\<close>

theorem rename_guarded:
  "wp (root_renameFile X fs old new allowOverwrite) (\<lambda>r l w'.
     if list_ex ev_mutates l then
       \<exists>pre src tgt chk resp. resolved X fs old pre src \<and> resolved X fs new pre tgt \<and>
         RefResourceId src = RefResourceId tgt \<and>
         l = pre @ chk @ [EvMove (authCtx fs) (src, tgt) resp] \<and>
         (if allowOverwrite then chk = []
          else \<exists>sr. chk = [EvStat (authCtx fs) tgt sr] \<and>
            (case sr of Inl _ \<Rightarrow> True | Inr res \<Rightarrow> GetCode (StatStatus res) \<noteq> CODE_OK)) \<and>
         (case resp of Inl e \<Rightarrow> r = Err e
          | Inr st \<Rightarrow> (case GetCode st of
               CODE_OK \<Rightarrow> r = Ok () | CODE_NOT_FOUND \<Rightarrow> r = Err ErrNotExist
             | CODE_ALREADY_EXISTS \<Rightarrow> r = Err ErrExist | CODE_PERMISSION_DENIED \<Rightarrow> r = Err ErrPermission
             | CODE_OTHER _ \<Rightarrow> r = Err (Errorf ''move failed: %s'' [FStr (GetMessage st)])))
     else r \<noteq> Ok ()) w"
  by (rule wp_guarded [OF wp_rename]; unfold guarded_rename_def target_absent_def rename_outcome_holds)
    (blast, auto)

text \<open>
  C15: mkdir creates the container at the path inside the space the path names and nothing
  else; a container that exists already gives an error that errors.Is recognises as
  os.ErrExist, and success is reported only for the answer OK.
\<close>

theorem mkdir_creates_in_space:
  "wp (root_mkdir X fs p) (\<lambda>r l w'.
     if list_ex ev_mutates l then
       \<exists>pre ref resp. resolved X fs p pre ref \<and>
         l = pre @ [EvCreateContainer (authCtx fs)
               \<lparr>RefResourceId = RefResourceId ref, RefPath = snd (SplitAbsolutePath p)\<rparr> resp] \<and>
         (case resp of Inl e \<Rightarrow> r = Err e
          | Inr st \<Rightarrow>
              (if GetCode st = CODE_OK then r = Ok ()
               else if GetCode st = CODE_ALREADY_EXISTS then \<exists>e. r = Err e \<and> errors_Is e ErrExist
               else r = Err (Errorf ''failed to create container: %s'' [FStr (GetMessage st)])))
     else r \<noteq> Ok ()) w"
  by (rule wp_guarded [OF wp_mkdir]; unfold guarded_mkdir_def)
    (use mkdir_outcome_holds in blast, auto)

subsection \<open>Opening\<close>

text \<open>
  C14: opening a file changes nothing but for one TouchFile, which is sent when the flags ask
  to write and to create or truncate, on the reference the path resolves to. A successful
  open gives a handler on that reference with nothing cached and an unlocked mutex, whatever
  TouchFile answered and whether or not the file exists; a failed one sent no call that
  changes anything.
\<close>

theorem open_touches_at_most:
  "wp (OpenFile X fs r) (\<lambda>res l w'. case res of
      Ok h \<Rightarrow> (\<exists>pre ref. resolved X fs (R_Filepath r) pre ref \<and>
        h = newSftpFileHandler ref (R_Filepath r) (R_Flags r) \<and> h_mu h = Unlocked \<and> \<not> h_cacheValid h \<and>
        (if PfWrite (Pflags X r) \<and> (PfCreat (Pflags X r) \<or> PfTrunc (Pflags X r))
         then \<exists>resp. l = pre @ [EvTouchFile (authCtx fs)
           \<lparr>RefResourceId = RefResourceId ref, RefPath = snd (SplitAbsolutePath (R_Filepath r))\<rparr> resp]
         else l = pre \<and> \<not> list_ex ev_mutates l))
    | Err e \<Rightarrow> \<not> list_ex ev_mutates l
    | Abort a \<Rightarrow> False) w"
proof (rule wp_mono [OF wp_OpenFile])
  fix res l and s' :: 'a
  assume "opened X fs r res l \<or> \<not> list_ex ev_mutates l \<and> (\<exists>e. res = Err e)"
  then show "case res of
      Ok h \<Rightarrow> (\<exists>pre ref. resolved X fs (R_Filepath r) pre ref \<and>
        h = newSftpFileHandler ref (R_Filepath r) (R_Flags r) \<and> h_mu h = Unlocked \<and> \<not> h_cacheValid h \<and>
        (if PfWrite (Pflags X r) \<and> (PfCreat (Pflags X r) \<or> PfTrunc (Pflags X r))
         then \<exists>resp. l = pre @ [EvTouchFile (authCtx fs)
           \<lparr>RefResourceId = RefResourceId ref, RefPath = snd (SplitAbsolutePath (R_Filepath r))\<rparr> resp]
         else l = pre \<and> \<not> list_ex ev_mutates l))
    | Err e \<Rightarrow> \<not> list_ex ev_mutates l
    | Abort a \<Rightarrow> False"
    unfolding opened_def touches_def
    by (auto simp: newSftpFileHandler_def dest: resolved_no_mutation split: if_splits)
qed

text \<open>
  A request to read that lacks the read flag, and a request to write that lacks the write
  flag, is refused with os.ErrInvalid before any call is made; with the flag both are OpenFile.
\<close>

lemma open_checks_access_flag:
  "Fileread X fs r w = (if PfRead (Pflags X r) then OpenFile X fs r w else (Err ErrInvalid, [], w)) \<and>
   Filewrite X fs r w = (if PfWrite (Pflags X r) then OpenFile X fs r w else (Err ErrInvalid, [], w))"
  by (simp add: Fileread_def Filewrite_def fail_def)

subsection \<open>Commands and listings\<close>

text \<open>
  Filecmd runs the operation its method names, renames without permission to overwrite
  (PosixRename with it), and answers every other method, Setstat, Link and Symlink among
  them, with an error and without a single call.
\<close>

lemma filecmd_dispatch:
  "(case R_Method r of m \<Rightarrow>
     Filecmd X fs r w =
      (if m = ''Rename'' then root_renameFile X fs (R_Filepath r) (R_Target r) False w
       else if m = ''Rmdir'' then root_rmdir X fs (R_Filepath r) w
       else if m = ''Remove'' then root_remove X fs (R_Filepath r) w
       else if m = ''Mkdir'' then root_mkdir X fs (R_Filepath r) w
       else (Err (New (if m = ''Setstat'' then ''setstat not supported''
                       else if m = ''Link'' then ''hard links are not supported''
                       else if m = ''Symlink'' then ''symbolic links are not supported''
                       else ''unsupported'')), [], w))) \<and>
   PosixRename X fs r w = root_renameFile X fs (R_Filepath r) (R_Target r) True w"
  by (simp add: Filecmd_def root_rename_def PosixRename_def fail_def)

text \<open>
  Listing requests never change the storage, and reach only the spaces their path names.
\<close>

lemma filelist_only_looks:
  "wp (Filelist X fs r) (\<lambda>res l w'. within X fs [R_Filepath r] l \<and> \<not> list_ex ev_mutates l) w"
  using vfs_filelist.contained [of X fs r w] vfs_filelist.looks [of X fs r w] by (auto intro!: wpI)

text \<open>
  C20: a directory listing reaches the client complete and in order: reading it through
  ListAt, any positive number of entries at a time from the start until the end is reported,
  gives exactly the listing after at most one call more than the blocks it fills.
\<close>

theorem list_loop_gives_listing:
  assumes "0 < n"
  shows "drain (ListAt_chunk f z) n (length f div n + 1) 0 = f"
  by (rule lister.drain_all) (use assms in simp_all)

theorem list_loop_gives_listing_witness:
  "drain (ListAt_chunk [1, 2, 3 :: nat] 0) 2 (length [1, 2, 3 :: nat] div 2 + 1) 0 = [1, 2, 3]"
  by (rule list_loop_gives_listing) simp

text \<open>
  C30: stat does not look at the answer's status. Every Stat that is answered at all, with
  NOT_FOUND or PERMISSION_DENIED too, makes stat succeed with the info of the answer: its
  name, its size as an int64, its modification time, and, for a container, the mode of a
  directory with permissions 0755, otherwise that of a regular file with 0644. When the answer has no
  info, it succeeds with a nameless empty regular file of mode 0644 without a time.
\<close>

theorem stat_ignores_status:
  "wp (root_stat X fs p) (\<lambda>r l w'.
     \<forall>ref sr. EvStat (authCtx fs) ref (Inr sr) \<in> set l \<longrightarrow>
       (\<exists>fi. r = Ok fi \<and> (case StatInfo sr of
          None \<Rightarrow> fi_name fi = [] \<and> fi_size fi = 0 \<and> fi_mode fi = 420 \<and> fi_mtime fi = None \<and> \<not> fi_isDir fi
        | Some i \<Rightarrow> fi_name fi = InfoName i \<and> fi_size fi = int64_of_u64 (InfoSize i) \<and>
            fi_mtime fi = map_option int64_of_u64 (InfoMtime i) \<and>
            fi_isDir fi = (InfoType i = RESOURCE_TYPE_CONTAINER) \<and>
            fi_mode fi = (if InfoType i = RESOURCE_TYPE_CONTAINER then 2 ^ 31 + 493 else 420)))) w"
  unfolding root_stat_def
proof (rule wp_spaces, goal_cases)
  case (1 l w' sps)
  then have l: "EvStat c ref sr \<notin> set l" for c ref sr
    by (auto simp: listed_def list_all_iff lookup_event_def)
  have dir: "or (octal3 7 5 5) ModeDir = 2 ^ 31 + 493" by (simp add: octal3_def ModeDir_def)
  have reg: "octal3 6 4 4 = 420" by (simp add: octal3_def)
  show ?case
    using l by (auto simp: wp_rules FindSpaceForPath_def result_of_sum_def split_beta toFileInfo_def Let_def dir reg
        info_or_zero_def int64_of_u64_def split: rpc_splits)
qed (auto simp: list_all_iff lookup_event_def)

theorem stat_ignores_status_witness:
  "wp (root_stat mem_env mem_root ''/Admin/nope'') (\<lambda>r l w'. \<exists>fi. r = Ok fi \<and> fi_name fi = []) mem0 \<and>
   mem_lookup mem0 \<lparr>RefResourceId = mem_rid, RefPath = ''./nope''\<rparr> = None"
proof (rule conjI)
  have "EvStat (authCtx mem_root) \<lparr>RefResourceId = mem_rid, RefPath = ''./nope''\<rparr>
      (Inr \<lparr>StatStatus = st_of CODE_NOT_FOUND, StatInfo = None\<rparr>)
    \<in> set (fst (snd (root_stat mem_env mem_root ''/Admin/nope'' mem0)))"
    by code_simp
  then show "wp (root_stat mem_env mem_root ''/Admin/nope'') (\<lambda>r l w'. \<exists>fi. r = Ok fi \<and> fi_name fi = []) mem0"
    using stat_ignores_status [of mem_env mem_root "''/Admin/nope''" mem0]
    by (cases "root_stat mem_env mem_root ''/Admin/nope'' mem0") (fastforce simp: wp_def)
qed code_simp

text \<open>
  C31: a failed listing of the spaces looks like an account without spaces. When
  ListStorageSpaces is answered with any status but OK, listing the root succeeds with no
  entries, and remove, rmdir and stat report that the path does not exist.
\<close>

theorem failed_space_listing_is_swallowed:
  assumes "gw_Next (E_gw X) w = (None, w1)"
    "gw_ListStorageSpaces (E_gw X) (authCtx fs) \<lparr>FieldMaskPaths = [''*''], Filters = []\<rparr> w1 = (Inr res, w2)"
    "GetCode (SpacesStatus res) \<noteq> CODE_OK"
  shows "fst (root_list X fs ''/'' w) = Ok [] \<and> fst (root_remove X fs p w) = Err ErrNotExist \<and>
     fst (root_rmdir X fs p w) = Err ErrNotExist \<and> fst (root_stat X fs p w) = Err ErrNotExist"
proof -
  have ls: "listStorageSpaces X fs w = (Ok [], [EvNext None,
      EvListStorageSpaces (authCtx fs) \<lparr>FieldMaskPaths = [''*''], Filters = []\<rparr> (Inr res)], w2)"
    using assms by (simp add: listStorageSpaces_def call_Next_def rpc_call_def go_defs)
  have find: "FindSpaceForPath p [] = Ok (None, [])"
    by (simp add: FindSpaceForPath_def split: prod.split)
  show ?thesis
    by (simp add: root_list_def root_remove_def root_rmdir_def root_stat_def
        bnd_def [of "listStorageSpaces X fs"] ls find ret_apply fail_apply)
qed

definition closed_env :: "(mem, mctx) env" where
  "closed_env = mem_env\<lparr>E_gw := mem_gateway\<lparr>gw_ListStorageSpaces := (\<lambda>c q w.
     (Inr \<lparr>SpacesStatus = st_of CODE_PERMISSION_DENIED, StorageSpaces = []\<rparr>, w))\<rparr>\<rparr>"

theorem failed_space_listing_is_swallowed_witness:
  "fst (root_list closed_env mem_root ''/'' mem0) = Ok []"
  by (rule failed_space_listing_is_swallowed [where X = closed_env and w = mem0 and fs = mem_root and res = "\<lparr>SpacesStatus = st_of CODE_PERMISSION_DENIED, StorageSpaces = []\<rparr>",
        THEN conjunct1])
    (simp_all add: closed_env_def mem_gateway_def st_of_def)

lemma spaces_listed_as_directories:
  "map fi_name (storageSpacesToFileInfo sps) = map SpaceName sps \<and> list_all fi_isDir (storageSpacesToFileInfo sps)"
  by (induction sps) simp_all

lemma wp_stat_root:
  "wp (root_stat X fs ''/'') (\<lambda>r l w'. (\<exists>fi. r = Ok fi) \<longrightarrow>
     (\<exists>q res. EvListStorageSpaces (authCtx fs) q (Inr res) \<in> set l \<and> [] \<in> SpaceName ` set (StorageSpaces res))) w"
  unfolding root_stat_def
proof (rule wp_spaces, goal_cases)
  case (1 l w' sps)
  have "\<exists>q res. EvListStorageSpaces (authCtx fs) q (Inr res) \<in> set l \<and> [] \<in> SpaceName ` set (StorageSpaces res)"
    if "space_named [] sps = Some sp" for sp
    using 1 space_named_in [OF that] by (force simp: listed_def)
  then show ?case
    by (auto simp: wp_rules FindSpaceForPath_def result_of_sum_def split_beta split: rpc_splits)
qed simp

text \<open>
  C32: the root directory can be listed but not looked at. When the spaces are listed and none of
  them is nameless, a List of "/" answers with one directory per space, in order and under
  its name, and a Stat of "/" answers that it does not exist; whatever happens, a Stat of "/"
  succeeds only after a listing with a nameless space.
\<close>

theorem stat_root_fails:
  assumes "listStorageSpaces X fs w = (Ok sps, ll, w1)" "[] \<notin> SpaceName ` set sps" "R_Filepath r = ''/''"
  shows "(R_Method r = ''List'' \<longrightarrow> (\<exists>fis. fst (Filelist X fs r w) = Ok fis \<and>
        map fi_name fis = map SpaceName sps \<and> list_all fi_isDir fis)) \<and>
     (R_Method r = ''Stat'' \<longrightarrow> fst (Filelist X fs r w) = Err ErrNotExist) \<and>
     wp (root_stat X fs ''/'') (\<lambda>res l w'. (\<exists>fi. res = Ok fi) \<longrightarrow>
       (\<exists>q res. EvListStorageSpaces (authCtx fs) q (Inr res) \<in> set l \<and> [] \<in> SpaceName ` set (StorageSpaces res))) w0"
proof (intro conjI impI)
  show "\<exists>fis. fst (Filelist X fs r w) = Ok fis \<and> map fi_name fis = map SpaceName sps \<and> list_all fi_isDir fis"
    if "R_Method r = ''List''"
    using that assms spaces_listed_as_directories [of sps]
    by (simp add: Filelist_def root_list_def bnd_def [of "listStorageSpaces X fs"] ret_apply)
  show "fst (Filelist X fs r w) = Err ErrNotExist" if "R_Method r = ''Stat''"
  proof -
    have "root_stat X fs ''/'' w = (Err ErrNotExist, ll, w1)"
      using assms by (simp add: root_stat_def bnd_def [of "listStorageSpaces X fs"] FindSpaceForPath_def
          space_named_None [THEN iffD2] fail_apply)
    then show ?thesis using that assms(3) by (simp add: Filelist_def bnd_def)
  qed
qed (rule wp_stat_root)

theorem stat_root_fails_witness:
  "fst (Filelist mem_env mem_root \<lparr>R_Method = ''Stat'', R_Filepath = ''/'', R_Target = [], R_Flags = 0\<rparr> mem0) = Err ErrNotExist"
proof -
  let ?r = "\<lparr>R_Method = ''Stat'', R_Filepath = ''/'', R_Target = [], R_Flags = 0\<rparr>"
  obtain l w1 where ls: "listStorageSpaces mem_env mem_root mem0 = (Ok (m_spaces mem0), l, w1)"
  proof -
    have "fst (listStorageSpaces mem_env mem_root mem0) = Ok (m_spaces mem0)" by code_simp
    then show thesis using that by (cases "listStorageSpaces mem_env mem_root mem0") simp
  qed
  have "[] \<notin> SpaceName ` set (m_spaces mem0)" "R_Filepath ?r = ''/''" by (simp_all add: mem0_def)
  from stat_root_fails [OF ls this, of mem0] show ?thesis by simp
qed

end
