(* ===== verification/ServerProps.thy ===== *)
theory ServerProps
  imports Server VfsProps
begin

text \<open>
  The properties of authentication and of the server: who is let in, under which identity a
  session runs, and what the server needs to start.
\<close>

subsection \<open>Authentication\<close>

lemma stored_key_mono:
  assumes "stored_key X ctx l k" "set l \<subseteq> set l'"
  shows "stored_key X ctx l' k"
proof -
  obtain user sres space rid hr info where "ContextGetUser (E_ctx X) ctx = Some user"
     "EvListStorageSpaces ctx (FilterForPersonalSpace (UserIdOf user)) (Inr sres) \<in> set l"
     "GetCode (SpacesStatus sres) = CODE_OK" "StorageSpaces sres = [space]"
     "ParseID (E_reva X) (SpaceOpaqueId space) = Inr rid"
     "EvListContainer ctx \<lparr>RefResourceId = rid, RefPath = MakeRelativePath (E_reva X) ''/.ssh''\<rparr> (Inr hr) \<in> set l"
     "GetCode (ListStatus hr) = CODE_OK" "info \<in> set (ListInfos hr)" "is_pub_file info"
     "downloaded_key X ctx (pub_key_ref X rid (InfoPath info)) l k"
    using assms(1) unfolding stored_key_def by blast
  then show ?thesis
    unfolding stored_key_def using assms(2) downloaded_key_mono [OF _ assms(2)]
    by (intro exI [of _ user] exI [of _ sres] exI [of _ space] exI [of _ rid] exI [of _ hr] exI [of _ info]) auto
qed

lemma accepted_stored:
  assumes "key_accepted X (stored_key X) apiKey key c r l c'"
  shows "r = Ok True \<and> (\<exists>authRes k. EvAuthenticate (Background (E_ctx X))
            \<lparr>AuthType = ''machine'', ClientId = ''username:'' @ ssh_user c, ClientSecret = apiKey\<rparr> (Inr authRes) \<in> set l \<and>
          GetCode (AuthStatus authRes) = CODE_OK \<and> KeysEqual (E_ssh X) k key \<and>
          stored_key X (granteeCtx (E_ctx X) (ssh_base c) authRes) l k \<and>
          c' = c\<lparr>ssh_uid := Some (auth_user_id authRes), ssh_token := Some (AuthToken authRes)\<rparr>)"
proof -
  obtain pre l' authRes k where a: "r = Ok True" "l = pre @ l'"
     "EvAuthenticate (Background (E_ctx X)) (machine_auth (ssh_user c) apiKey) (Inr authRes) \<in> set pre"
     "GetCode (AuthStatus authRes) = CODE_OK"
     "stored_key X (granteeCtx (E_ctx X) (ssh_base c) authRes) l' k" "KeysEqual (E_ssh X) k key"
     "c' = c\<lparr>ssh_uid := Some (auth_user_id authRes), ssh_token := Some (AuthToken authRes)\<rparr>"
    using assms unfolding key_accepted_def by blast
  have "stored_key X (granteeCtx (E_ctx X) (ssh_base c) authRes) l k"
    using a(5) by (rule stored_key_mono) (simp add: a(2))
  then show ?thesis
    using a by (intro conjI exI [of _ authRes] exI [of _ k]) (simp_all add: machine_auth_def)
qed

text \<open>
  What reva's pkg/ctx and metadata document: the user that ContextSetUser put into a context
  is the one ContextGetUser finds, and neither another value nor outgoing metadata hides it.
\<close>

definition user_stays :: "'c ctxlib \<Rightarrow> bool" where
  "user_stays C \<longleftrightarrow> (\<forall>ctx u. ContextGetUser C (ContextSetUser C ctx u) = Some u) \<and>
     (\<forall>ctx t. ContextGetUser C (ContextSetToken C ctx t) = ContextGetUser C ctx) \<and>
     (\<forall>ctx k v. ContextGetUser C (AppendToOutgoingContext C ctx k v) = ContextGetUser C ctx)"

lemma grantee_user: "user_stays C \<Longrightarrow> ContextGetUser C (granteeCtx C ctx authRes) = Some \<lparr>UserIdOf = auth_user_id authRes\<rparr>"
  by (simp add: user_stays_def granteeCtx_def Let_def)

text \<open>
  C2: a client is let in only with a key of the user it names. The context library is assumed
  to keep the user a context was given (\<open>user_stays\<close>). When the public-key handler says yes, the gateway
  accepted the machine authentication for "username:" and exactly the name of the connection,
  with the configured secret; under the context made of that answer it listed, for
  type "personal" and the user id of that answer as the owner, exactly one space; a regular file that
  it listed in that space's .ssh directory and whose path ends in ".pub" was downloaded with
  a 200 answer, and its contents parse as a key equal to the offered one; and the connection's uid
  and token become those of the authentication. In every other case, panics included, the
  connection's context is unchanged; and the handler returns no error. No call of the handler
  changes anything in the storage.
\<close>

theorem accepted_key_is_the_users:
  assumes "user_stays (E_ctx X)"
  shows "wp (NewPubKeyAuthHandler X (NewSpaceKeyStorage X) apiKey key) (\<lambda>r l (w', c').
     list_all (\<lambda>e. \<not> ev_mutates e) l \<and> (\<forall>e. r \<noteq> Err e) \<and>
     (if r = Ok True then
        \<exists>authRes ctx sres space rid hr info dres endpoint tok q resp k.
          EvAuthenticate (Background (E_ctx X))
            \<lparr>AuthType = ''machine'', ClientId = ''username:'' @ ssh_user c, ClientSecret = apiKey\<rparr> (Inr authRes) \<in> set l \<and>
          GetCode (AuthStatus authRes) = CODE_OK \<and> ctx = granteeCtx (E_ctx X) (ssh_base c) authRes \<and>
          EvListStorageSpaces ctx \<lparr>FieldMaskPaths = [''*''],
            Filters = [FilterSpaceType ''personal'', FilterOwner (auth_user_id authRes)]\<rparr> (Inr sres) \<in> set l \<and>
          GetCode (SpacesStatus sres) = CODE_OK \<and> StorageSpaces sres = [space] \<and>
          ParseID (E_reva X) (SpaceOpaqueId space) = Inr rid \<and>
          EvListContainer ctx \<lparr>RefResourceId = rid, RefPath = MakeRelativePath (E_reva X) ''/.ssh''\<rparr> (Inr hr) \<in> set l \<and>
          GetCode (ListStatus hr) = CODE_OK \<and> info \<in> set (ListInfos hr) \<and>
          InfoType info = RESOURCE_TYPE_FILE \<and> HasSuffix (InfoPath info) ''.pub'' \<and>
          EvInitiateFileDownload ctx \<lparr>RefResourceId = rid,
            RefPath = MakeRelativePath (E_reva X) (path_Join [''/.ssh'', InfoPath info])\<rparr> (Inr dres) \<in> set l \<and>
          pick_protocol (Protocols dres) = (endpoint, tok) \<and>
          EvHttp q (Inr resp) \<in> set l \<and> HttpMethod q = ''GET'' \<and> HttpURL q = endpoint \<and>
          HttpStatusCode resp = 200 \<and> ParseAuthorizedKey (E_ssh X) (HttpResBody resp) = Inr k \<and>
          KeysEqual (E_ssh X) k key \<and>
          c' = c\<lparr>ssh_uid := Some (auth_user_id authRes), ssh_token := Some (AuthToken authRes)\<rparr>
      else c' = c)) (w, c)"
    (is "wp _ (\<lambda>r l (w', c'). _ \<and> _ \<and> (if _ then ?accepted l c' else _)) _")
proof -
  have acc: "r = Ok True \<and> ?accepted l c'" if k: "key_accepted X (stored_key X) apiKey key c r l c'" for r l c'
  proof -
    obtain authRes k where a: "r = Ok True" "EvAuthenticate (Background (E_ctx X))
            \<lparr>AuthType = ''machine'', ClientId = ''username:'' @ ssh_user c, ClientSecret = apiKey\<rparr> (Inr authRes) \<in> set l"
        "GetCode (AuthStatus authRes) = CODE_OK" "KeysEqual (E_ssh X) k key"
        "c' = c\<lparr>ssh_uid := Some (auth_user_id authRes), ssh_token := Some (AuthToken authRes)\<rparr>"
      and st: "stored_key X (granteeCtx (E_ctx X) (ssh_base c) authRes) l k"
      using accepted_stored [OF k] by blast
    obtain sres space rid hr info where s: "EvListStorageSpaces (granteeCtx (E_ctx X) (ssh_base c) authRes)
          \<lparr>FieldMaskPaths = [''*''], Filters = [FilterSpaceType ''personal'', FilterOwner (auth_user_id authRes)]\<rparr> (Inr sres) \<in> set l"
        "GetCode (SpacesStatus sres) = CODE_OK" "StorageSpaces sres = [space]"
        "ParseID (E_reva X) (SpaceOpaqueId space) = Inr rid"
        "EvListContainer (granteeCtx (E_ctx X) (ssh_base c) authRes)
          \<lparr>RefResourceId = rid, RefPath = MakeRelativePath (E_reva X) ''/.ssh''\<rparr> (Inr hr) \<in> set l"
        "GetCode (ListStatus hr) = CODE_OK" "info \<in> set (ListInfos hr)"
        "InfoType info = RESOURCE_TYPE_FILE" "HasSuffix (InfoPath info) ''.pub''"
      and d: "downloaded_key X (granteeCtx (E_ctx X) (ssh_base c) authRes) (pub_key_ref X rid (InfoPath info)) l k"
      using st unfolding stored_key_def is_pub_file_def grantee_user [OF assms] FilterForPersonalSpace_def by auto
    obtain dres endpoint tok q resp where "EvInitiateFileDownload (granteeCtx (E_ctx X) (ssh_base c) authRes)
          \<lparr>RefResourceId = rid, RefPath = MakeRelativePath (E_reva X) (path_Join [''/.ssh'', InfoPath info])\<rparr> (Inr dres) \<in> set l"
        "pick_protocol (Protocols dres) = (endpoint, tok)" "EvHttp q (Inr resp) \<in> set l" "HttpMethod q = ''GET''"
        "HttpURL q = endpoint" "HttpStatusCode resp = 200" "ParseAuthorizedKey (E_ssh X) (HttpResBody resp) = Inr k"
      using d unfolding downloaded_key_def pub_key_ref_def by blast
    with a s show ?thesis by blast
  qed
  have "wp (HandlePubKey X (NewSpaceKeyStorage X) apiKey key) (\<lambda>r l s'. list_all (\<lambda>e. \<not> ev_mutates e) l \<and>
      (case s' of (w', c') \<Rightarrow> key_accepted X (stored_key X) apiKey key c r l c' \<or> key_refused r c c')) (w, c)"
    using space_keys.wp_handle [of X apiKey key c w] space_keys.wp_handle_quiet [of X apiKey key "(w, c)"]
    by (auto simp: wp_run)
  then show ?thesis
    unfolding NewPubKeyAuthHandler_def
  proof (rule wp_mono, goal_cases)
    case (1 r l s')
    obtain w' c' where s': "s' = (w', c')" by force
    consider (yes) "r = Ok True" "?accepted l c'" | (no) "key_refused r c c'"
      using 1 acc unfolding s' by blast
    then show ?case
    proof cases
      case yes
      then show ?thesis using 1 unfolding s' by simp
    next
      case no
      then show ?thesis using 1 unfolding s' by (simp add: key_refused_def)
    qed
  qed
qed

lemma mem_user_stays: "user_stays (E_ctx mem_env)"
  by (simp add: user_stays_def mem_env_def mem_ctxlib_def)

definition mem_conn :: "mctx ssh_ctx" where
  "mem_conn = \<lparr>ssh_user = ''alice'', ssh_base = \<lparr>mc_user = None, mc_token = None, mc_md = []\<rparr>,
     ssh_uid = None, ssh_token = None\<rparr>"

theorem accepted_key_is_the_users_witness:
  "\<exists>r l s'. NewPubKeyAuthHandler mem_env (NewSpaceKeyStorage mem_env) ''secret'' (PublicKey [7]) (mem0, mem_conn) = (r, l, s') \<and>
     r = Ok True \<and> \<not> list_ex ev_mutates l \<and>
     (\<exists>q resp. EvHttp q (Inr resp) \<in> set l \<and> HttpStatusCode resp = 200 \<and>
       ParseAuthorizedKey mem_ssh (HttpResBody resp) = Inr (PublicKey [7]))"
proof -
  obtain r l w' c' where run: "NewPubKeyAuthHandler mem_env (NewSpaceKeyStorage mem_env) ''secret'' (PublicKey [7])
      (mem0, mem_conn) = (r, l, (w', c'))" by (metis surj_pair)
  have "fst (NewPubKeyAuthHandler mem_env (NewSpaceKeyStorage mem_env) ''secret'' (PublicKey [7]) (mem0, mem_conn)) = Ok True"
    by code_simp
  then have r: "r = Ok True" using run by simp
  have ssh: "E_ssh mem_env = mem_ssh" "KeysEqual mem_ssh = (=)" by (simp_all add: mem_env_def mem_ssh_def)
  note post = wpD [OF accepted_key_is_the_users [OF mem_user_stays] run]
  have "\<not> list_ex ev_mutates l" using post by (auto simp: list_all_iff list_ex_iff)
  moreover have "\<exists>q resp. EvHttp q (Inr resp) \<in> set l \<and> HttpStatusCode resp = 200 \<and>
       ParseAuthorizedKey mem_ssh (HttpResBody resp) = Inr (PublicKey [7])"
    using post r unfolding ssh by auto
  ultimately show ?thesis using run r by blast
qed

text \<open>
  C17: only ".pub" files count, and a broken one locks nobody out. Loading the keys of a
  directory listing is the same run as loading those of its regular files with a path ending
  in ".pub", and with a token in the context it never ends in an error, whatever fails on the
  way: a file that cannot be downloaded or parsed is skipped.
\<close>

theorem other_files_are_skipped:
  assumes "ContextGetToken (E_ctx X) ctx = Some t"
  shows "load_keys_loop X ctx rid infos = load_keys_loop X ctx rid
       (filter (\<lambda>i. InfoType i = RESOURCE_TYPE_FILE \<and> HasSuffix (InfoPath i) ''.pub'') infos) \<and>
     wp (load_keys_loop X ctx rid infos) (\<lambda>r l w'. \<forall>e. r \<noteq> Err e) w"
  using loop_filter [of X ctx rid infos] wp_loop_no_error [OF assms]
  by (simp add: is_pub_file_def [abs_def] del: load_keys_loop.simps)

definition mem_grantee :: mctx where
  "mem_grantee = mem_ctx\<lparr>mc_token := Some ''tok''\<rparr>"

theorem other_files_are_skipped_witness:
  "wp (load_keys_loop mem_env mem_grantee mem_rid (mem_children mem0 ''/.ssh'')) (\<lambda>r l w'. \<forall>e. r \<noteq> Err e) mem0"
  by (rule other_files_are_skipped [THEN conjunct2, of _ _ "''tok''"])
    (simp add: mem_env_def mem_ctxlib_def mem_grantee_def)

text \<open>
  C18: a readable key is found. When a ".pub" file of the listing can be downloaded and parses
  as a key, a load that returns has that key among its keys, whatever the other entries are.
\<close>

theorem readable_key_is_loaded:
  assumes "ContextGetToken (E_ctx X) ctx = Some t" "info \<in> set infos"
    "InfoType info = RESOURCE_TYPE_FILE" "HasSuffix (InfoPath info) ''.pub''"
    "\<And>w. wp (downloadPublicKey X ctx rid (InfoPath info) t) (\<lambda>r l w'. r = Ok k) w"
  shows "wp (load_keys_loop X ctx rid infos) (\<lambda>r l w'. \<forall>keys. r = Ok keys \<longrightarrow> k \<in> set keys) w"
  by (rule wp_loop_complete [OF assms(1,2) _ assms(5)]) (simp add: is_pub_file_def assms(3,4))

text \<open>An environment whose data gateway serves one key, whatever is asked.\<close>

definition one_key_env :: "(mem, mctx) env" where
  "one_key_env = mem_env\<lparr>E_gw := mem_gateway\<lparr>gw_InitiateFileDownload := (\<lambda>c r w. (Inr (mem_transfer ''k''), w))\<rparr>,
     E_http := \<lparr>http_NewRequest = (\<lambda>_ _. None), http_Do = (\<lambda>q w. (Inr \<lparr>HttpStatusCode = 200, HttpETag = [],
       HttpResBody = [7], HttpResBodyErr = None\<rparr>, w))\<rparr>\<rparr>"

definition pub_info :: resource_info where
  "pub_info = \<lparr>InfoName = ''k.pub'', InfoPath = ''k.pub'', InfoSize = 1, InfoType = RESOURCE_TYPE_FILE, InfoMtime = None\<rparr>"

theorem readable_key_is_loaded_witness:
  "wp (load_keys_loop one_key_env mem_grantee mem_rid [pub_info])
     (\<lambda>r l w'. \<forall>keys. r = Ok keys \<longrightarrow> PublicKey [7] \<in> set keys) mem0"
proof (rule readable_key_is_loaded [where t = "''tok''" and info = pub_info])
  show "wp (downloadPublicKey one_key_env mem_grantee mem_rid (InfoPath pub_info) ''tok'') (\<lambda>r l w'. r = Ok (PublicKey [7])) w" for w
    by (simp add: downloadPublicKey_def wp_rules one_key_env_def mem_env_def mem_gateway_def mem_transfer_def
        st_of_def mem_ssh_def NewRequest_def ReadAll_def)
qed (simp_all add: one_key_env_def mem_env_def mem_ctxlib_def mem_grantee_def pub_info_def HasSuffix_def)

text \<open>
  The key files that are read lie in the .ssh directory: for a listing entry whose path
  has no slash, the download names "/.ssh/" followed by exactly that path.
\<close>

lemma key_files_in_ssh_dir:
  assumes "CHR ''/'' \<notin> set fileName" "HasSuffix fileName ''.pub''"
  shows "pub_key_ref X rid fileName =
     \<lparr>RefResourceId = rid, RefPath = MakeRelativePath (E_reva X) (''/.ssh/'' @ fileName)\<rparr>"
  by (simp add: pub_key_ref_def ssh_join [OF assms] del: append.simps)

lemma key_files_in_ssh_dir_witness:
  "pub_key_ref mem_env mem_rid ''k.pub'' = \<lparr>RefResourceId = mem_rid, RefPath = ''./.ssh/k.pub''\<rparr>"
  using key_files_in_ssh_dir [of "''k.pub''" mem_env mem_rid]
  by (simp add: HasSuffix_def mem_env_def mem_reva_def mem_relative_def)

subsection \<open>Sessions\<close>

text \<open>
  C11: a session runs as the user that authenticated. After the public-key handler accepted a
  key, the SFTP handler serves the handlers of a context made of the background context, the
  user id and the token of that authentication, for all four request kinds. On a connection
  without an accepted key it makes no call and serves nothing.
\<close>

theorem session_runs_as_authenticated:
  assumes "NewPubKeyAuthHandler X (NewSpaceKeyStorage X) apiKey key (w, c) = (Ok True, l, (w', c'))"
  shows "(\<exists>authRes ctx. EvAuthenticate (Background (E_ctx X)) (machine_auth (ssh_user c) apiKey) (Inr authRes) \<in> set l \<and>
       GetCode (AuthStatus authRes) = CODE_OK \<and>
       ctx = AppendToOutgoingContext (E_ctx X)
         (ContextSetUser (E_ctx X) (Background (E_ctx X)) \<lparr>UserIdOf = auth_user_id authRes\<rparr>)
         (TokenHeader (E_ctx X)) (AuthToken authRes) \<and>
       SFTPHandler X serve c' = bnd (try_go (serve
         \<lparr>FileGet = \<lparr>authCtx = ctx\<rparr>, FilePut = \<lparr>authCtx = ctx\<rparr>, FileCmd = \<lparr>authCtx = ctx\<rparr>, FileList = \<lparr>authCtx = ctx\<rparr>\<rparr>))
         (\<lambda>r. case r of Inl err \<Rightarrow> if err = EOF then ret ClientExited else ret (ServeFailed err)
              | Inr _ \<Rightarrow> ret ServeEnded)) \<and>
     SFTPHandler X serve (c\<lparr>ssh_uid := None\<rparr>) w = (Ok NoUid, [], w)"
proof -
  have "key_accepted X (stored_key X) apiKey key c (Ok True) l c'"
    using wpD [OF space_keys.wp_handle assms [unfolded NewPubKeyAuthHandler_def]]
    by (simp add: key_refused_def)
  then obtain authRes pre l' where l: "l = pre @ l'"
    "EvAuthenticate (Background (E_ctx X)) (machine_auth (ssh_user c) apiKey) (Inr authRes) \<in> set pre"
    "GetCode (AuthStatus authRes) = CODE_OK"
    and c': "c' = c\<lparr>ssh_uid := Some (auth_user_id authRes), ssh_token := Some (AuthToken authRes)\<rparr>"
    unfolding key_accepted_def by blast
  show ?thesis
    by (intro conjI exI [of _ authRes] exI [of _ "session_ctx (E_ctx X) (auth_user_id authRes) (AuthToken authRes)"])
      (use l in \<open>simp_all add: c' SFTPHandler_def session_ctx_def OpenCloudHandler_def Let_def ret_apply\<close>)
qed

theorem session_runs_as_authenticated_witness:
  "\<exists>c'. fst (NewPubKeyAuthHandler mem_env (NewSpaceKeyStorage mem_env) ''secret'' (PublicKey [7]) (mem0, mem_conn)) = Ok True \<and>
     snd (snd (snd (NewPubKeyAuthHandler mem_env (NewSpaceKeyStorage mem_env) ''secret'' (PublicKey [7]) (mem0, mem_conn)))) = c' \<and>
     (\<exists>ctx. SFTPHandler mem_env (\<lambda>h. ret ()) c' = bnd (try_go (ret ())) (\<lambda>r. case r of Inl err \<Rightarrow>
         if err = EOF then ret ClientExited else ret (ServeFailed err) | Inr _ \<Rightarrow> ret ServeEnded))"
proof -
  obtain r l w' c' where run: "NewPubKeyAuthHandler mem_env (NewSpaceKeyStorage mem_env) ''secret'' (PublicKey [7])
      (mem0, mem_conn) = (r, l, (w', c'))" by (metis surj_pair)
  have "fst (NewPubKeyAuthHandler mem_env (NewSpaceKeyStorage mem_env) ''secret'' (PublicKey [7]) (mem0, mem_conn)) = Ok True"
    by code_simp
  then have r: "r = Ok True" using run by simp
  show ?thesis
    using session_runs_as_authenticated [OF run [unfolded r], of "\<lambda>h. ret ()"] run r by auto
qed

text \<open>
  C16: the data gateway is shown the token the user authenticated with. When metadata works as
  documented (a fresh background context carries none, appending a pair adds its value under
  its key) and reva's token header is "x-access-token", the token that reads and writes of a
  session put into the X-Access-Token header is the token of the authentication.
\<close>

theorem session_token_reaches_data_gateway:
  assumes "TokenHeader C = ''x-access-token''"
    and "\<And>ctx u. FromOutgoingContext C (ContextSetUser C ctx u) = FromOutgoingContext C ctx"
    and "FromOutgoingContext C (Background C) = None"
    and "\<And>ctx k v. FromOutgoingContext C ctx = None \<Longrightarrow>
      FromOutgoingContext C (AppendToOutgoingContext C ctx k v) = Some ((\<lambda>_. [])(k := [v]))"
    and "E_ctx X = C"
  shows "extractAuthToken C (session_ctx C uid token) = Ok token \<and>
     (''X-Access-Token'', token) \<in> set (HttpHeader (with_auth X \<lparr>authCtx = session_ctx C uid token\<rparr> t q))"
proof -
  have tok: "extractAuthToken C (session_ctx C uid token) = Ok token"
    using assms by (simp add: extractAuthToken_def session_ctx_def Let_def)
  then show ?thesis using assms(5) by (simp add: with_auth_def Let_def)
qed

theorem session_token_reaches_data_gateway_witness:
  "extractAuthToken mem_ctxlib (session_ctx mem_ctxlib (Some (UserId ''u1'')) ''tok'') = Ok ''tok''"
proof -
  have app: "FromOutgoingContext mem_ctxlib (AppendToOutgoingContext mem_ctxlib ctx k v) = Some ((\<lambda>_. [])(k := [v]))"
    if "FromOutgoingContext mem_ctxlib ctx = None" for ctx k v
    using that by (auto simp: mem_ctxlib_def split: if_splits)
  show ?thesis
    by (rule session_token_reaches_data_gateway [THEN conjunct1, OF _ _ _ app, of mem_env])
      (simp_all add: mem_ctxlib_def mem_env_def)
qed

text \<open>
  The server does not serve without its host key and the gateway. When the file at
  the configured path is missing or no private key, or no gateway selector can be made,
  ListenAndServe returns the error and no public-key handler is installed. When it does
  serve, its host key is the one of that file, its only authentication handler checks keys
  against the users' .ssh folders with the configured machine key, and the subsystem "sftp"
  is the session handler.
\<close>

lemma server_start_requirements:
  assumes "s = NewSFTPServer X serve cfg" "ListenAndServe X gsel listen os s = (r, s')"
  shows "(\<forall>e. os_ReadFile (HostPrivateKeyPath cfg) os = Err e \<longrightarrow> r = Err e \<and> s' = s) \<and>
     (\<forall>b e. os_ReadFile (HostPrivateKeyPath cfg) os = Ok b \<longrightarrow> ParsePrivateKey (E_ssh X) b = Inl e \<longrightarrow> r = Err e \<and> s' = s) \<and>
     (\<forall>b k rv e. os_ReadFile (HostPrivateKeyPath cfg) os = Ok b \<longrightarrow> ParsePrivateKey (E_ssh X) b = Inr k \<longrightarrow>
        Reva cfg = Some rv \<longrightarrow> gsel (Address rv) = Some e \<longrightarrow> r = Err e) \<and>
     (SrvPublicKeyHandler s' \<noteq> None \<longrightarrow>
        (\<exists>b k. os_ReadFile (HostPrivateKeyPath cfg) os = Ok b \<and> ParsePrivateKey (E_ssh X) b = Inr k \<and>
          SrvHostKeys s' = [k] \<and> r = listen s' \<and> SrvAddr s' = SFTPAddress cfg \<and>
          SrvPublicKeyHandler s' = Some (HandlePubKey X (LoadKeys X) (MachineAuthAPIKey cfg)) \<and>
          SrvSubsystems s' = [''sftp'' \<mapsto> SFTPHandler X serve]))"
  using assms
  by (auto simp: ListenAndServe_def NewSFTPServer_def readPrivateKeyFromFile_def result_of_sum_def Let_def
      NewPubKeyAuthHandler_def NewSpaceKeyStorage_def split: result.splits sum.splits option.splits)

text \<open>A host with a key file.\<close>

definition sample_os :: os_state where
  "sample_os = \<lparr>Os_nodes = [''/var'' \<mapsto> OsDir, ''/var/lib'' \<mapsto> OsDir, ''/var/lib/opencloud'' \<mapsto> OsDir,
     ''/etc'' \<mapsto> OsDir, ''/etc/opencloud'' \<mapsto> OsDir, ''/root/hk'' \<mapsto> OsFile [0, 9] 384],
     Os_fault = (\<lambda>_ _. None)\<rparr>"

lemma server_start_requirements_witness:
  "fst (ListenAndServe mem_env (\<lambda>_. None) (\<lambda>_. Ok ()) sample_os
     (NewSFTPServer mem_env (\<lambda>_. ret ()) (DefaultConfig sample_oc))) = Err ErrNotExist"
proof -
  let ?s = "NewSFTPServer mem_env (\<lambda>_. ret ()) (DefaultConfig sample_oc)"
  obtain r s' where run: "ListenAndServe mem_env (\<lambda>_. None) (\<lambda>_. Ok ()) sample_os ?s = (r, s')" by force
  have "os_ReadFile (HostPrivateKeyPath (DefaultConfig sample_oc)) sample_os = Err ErrNotExist" by code_simp
  with server_start_requirements [OF refl run] have "r = Err ErrNotExist" by blast
  then show ?thesis using run by simp
qed

end
