(* ===== verification/CommandProps.thy ===== *)
theory CommandProps
  imports Command ServerProps
begin

text \<open>
  The properties of the init command, and of the server that starts on what it wrote.
\<close>

subsection \<open>Lemmas\<close>

text \<open>What counts as there already: a file that Stat finds.\<close>

definition file_there :: "os_state \<Rightarrow> string \<Rightarrow> bool" where
  "file_there os p \<longleftrightarrow> (\<exists>b m. os_Stat p os = Inr (OsFile b m))"

lemma fileExists_Ok: "fileExists p os = Ok b \<Longrightarrow> b \<longleftrightarrow> file_there os p"
  unfolding fileExists_def file_there_def
  by (auto split: sum.splits if_splits) (metis os_node.exhaust)

lemma fileExists_no_Err: "fileExists p os \<noteq> Err e"
  by (simp add: fileExists_def split: sum.split)

lemma init_action_Ok:
  assumes "init_action L K marshal cfg force os = (Ok (), os')"
  shows "init_write L K marshal cfg os = (Ok (), os') \<and>
    (force \<or> \<not> file_there os (serviceConfigPath L cfg) \<and> \<not> file_there os (HostPrivateKeyPath cfg))"
  using assms fileExists_Ok unfolding init_action_def
  by (auto split: result.splits if_splits)

definition hostKeyFile :: "oclib \<Rightarrow> config \<Rightarrow> string" where
  "hostKeyFile L cfg = path_Join [serviceDataPath L cfg, ''id_rsa'']"

definition publicKeyFile :: "oclib \<Rightarrow> config \<Rightarrow> string" where
  "publicKeyFile L cfg = path_Join [serviceDataPath L cfg, ''id_rsa.pub'']"

text \<open>The three files init writes have different paths, and none is the root or the working directory.\<close>

lemma init_paths:
  "hostKeyFile L cfg \<noteq> publicKeyFile L cfg" "serviceConfigPath L cfg \<noteq> hostKeyFile L cfg"
  "serviceConfigPath L cfg \<noteq> publicKeyFile L cfg" "hostKeyFile L cfg \<notin> {''/'', ''.''}"
proof -
  have n: "plain_name ''id_rsa''" "plain_name ''id_rsa.pub''" by (simp_all add: plain_name_def)
  show "hostKeyFile L cfg \<noteq> publicKeyFile L cfg"
    unfolding hostKeyFile_def publicKeyFile_def using path_Join_inj [OF n] by blast
  obtain p where p: "hostKeyFile L cfg = p @ ''id_rsa''"
    using path_Join_name [OF n(1)] unfolding hostKeyFile_def by blast
  obtain q where q: "publicKeyFile L cfg = q @ ''id_rsa.pub''"
    using path_Join_name [OF n(2)] unfolding publicKeyFile_def by blast
  have "last (serviceConfigPath L cfg) = CHR ''l''" by (simp add: serviceConfigPath_def)
  then show "serviceConfigPath L cfg \<noteq> hostKeyFile L cfg" "serviceConfigPath L cfg \<noteq> publicKeyFile L cfg"
    using p q by auto
  have "length (hostKeyFile L cfg) \<ge> 6" using p by simp
  then show "hostKeyFile L cfg \<notin> {''/'', ''.''}" by auto
qed

lemma deleteFiles_fault: "deleteFiles ps os = (e, os') \<Longrightarrow> Os_fault os' = Os_fault os"
proof (induction ps arbitrary: os)
  case (Cons p ps)
  obtain e1 os1 where r: "os_RemoveAll p os = (e1, os1)" by force
  then show ?case using Cons os_fault_kept(3) [OF r] by (auto split: if_splits)
qed simp

text \<open>A successful run: the three files it wrote, and what became of all other paths.\<close>

lemma init_write_result:
  assumes "init_write L K marshal cfg os = (Ok (), os')"
  obtains kp b m m' m'' where
    "GenerateSSHKeyPair K KeyTypeRSA = Ok kp"
    "marshal [(''SFTPAddress'', FvString (SFTPAddress cfg)), (''HostPrivateKeyPath'', FvString (HostPrivateKeyPath cfg))] = Inr b"
    "Os_nodes os' (hostKeyFile L cfg) = Some (OsFile (KP_PrivateKey kp) m)"
    "Os_nodes os' (publicKeyFile L cfg) = Some (OsFile (KP_PublicKey kp) m')"
    "Os_nodes os' (serviceConfigPath L cfg) = Some (OsFile b m'')"
    "Os_nodes os (hostKeyFile L cfg) = None \<Longrightarrow> m = 384"
    "Os_fault os' = Os_fault os"
    "\<And>q. q \<notin> {hostKeyFile L cfg, publicKeyFile L cfg, serviceConfigPath L cfg} \<Longrightarrow>
       Os_nodes os' q \<in> {Os_nodes os q, None, Some OsDir}"
proof -
  obtain e os1 b os2 os3 kp where s: "deleteFiles [serviceDataPath L cfg, serviceConfigPath L cfg] os = (e, os1)"
    "marshal [(''SFTPAddress'', FvString (SFTPAddress cfg)), (''HostPrivateKeyPath'', FvString (HostPrivateKeyPath cfg))] = Inr b"
    "os_WriteFile (serviceConfigPath L cfg) b 420 os1 = (None, os2)"
    "os_MkdirAll (serviceDataPath L cfg) os2 = (None, os3)"
    "GenerateSSHKeyPair K KeyTypeRSA = Ok kp"
    "writeKeyPairToFile kp (serviceDataPath L cfg) ''id_rsa'' os3 = (None, os')"
    by (rule init_write_steps [OF assms])
  note paths = init_paths [of L cfg] hostKeyFile_def publicKeyFile_def
  have pub: "path_Join [serviceDataPath L cfg, ''id_rsa'' @ ''.pub''] = publicKeyFile L cfg"
    by (simp add: publicKeyFile_def)
  have "\<exists>m m'. Os_nodes os' = (Os_nodes os3)(hostKeyFile L cfg \<mapsto> OsFile (KP_PrivateKey kp) m,
      publicKeyFile L cfg \<mapsto> OsFile (KP_PublicKey kp) m') \<and> (Os_nodes os3 (hostKeyFile L cfg) = None \<longrightarrow> m = 384)"
    by (rule writeKeyPairToFile_Ok [OF s(6), unfolded pub, folded hostKeyFile_def]) (rule init_paths(1))
  then obtain m m' where w: "Os_nodes os' = (Os_nodes os3)(hostKeyFile L cfg \<mapsto> OsFile (KP_PrivateKey kp) m,
      publicKeyFile L cfg \<mapsto> OsFile (KP_PublicKey kp) m')" "Os_nodes os3 (hostKeyFile L cfg) = None \<longrightarrow> m = 384"
    by (elim exE conjE)
  obtain m'' where c: "Os_nodes os2 = (Os_nodes os1)(serviceConfigPath L cfg \<mapsto> OsFile b m'')"
    using os_WriteFile_Ok [OF s(3)] by blast
  have q3: "Os_nodes os3 q = Os_nodes os2 q \<or> Os_nodes os2 q = None \<and> Os_nodes os3 q = Some OsDir" for q
    by (rule os_MkdirAll_keeps [OF s(4)])
  have q1: "Os_nodes os1 q = Os_nodes os q \<or> Os_nodes os1 q = None" for q
    by (rule deleteFiles_keeps [OF s(1)])
  have no_dir: "Os_nodes os3 (hostKeyFile L cfg) \<noteq> Some OsDir"
    using s(6) os_WriteFile_no_dir unfolding hostKeyFile_def writeKeyPairToFile_def Let_def
    by (auto split: prod.splits option.splits)
  have f: "Os_fault os' = Os_fault os3"
    using s(6) unfolding writeKeyPairToFile_def Let_def
    by (auto split: prod.splits option.splits dest!: os_fault_kept(1))
  show thesis
  proof (rule that [OF s(5,2)])
    show "Os_nodes os' (hostKeyFile L cfg) = Some (OsFile (KP_PrivateKey kp) m)"
      "Os_nodes os' (publicKeyFile L cfg) = Some (OsFile (KP_PublicKey kp) m')"
      using init_paths(1) [of L cfg] by (simp_all add: w(1))
    show "Os_nodes os' (serviceConfigPath L cfg) = Some (OsFile b m'')"
      using init_paths [of L cfg] q3 [of "serviceConfigPath L cfg"] by (auto simp: w(1) c)
    show "Os_fault os' = Os_fault os"
      using f os_fault_kept(2) [OF s(4)] os_fault_kept(1) [OF s(3)] deleteFiles_fault [OF s(1)] by simp
    show "m = 384" if "Os_nodes os (hostKeyFile L cfg) = None"
      using w(2) no_dir q3 [of "hostKeyFile L cfg"] q1 [of "hostKeyFile L cfg"] that init_paths(2) [of L cfg]
      by (auto simp: c)
    show "Os_nodes os' q \<in> {Os_nodes os q, None, Some OsDir}"
      if "q \<notin> {hostKeyFile L cfg, publicKeyFile L cfg, serviceConfigPath L cfg}" for q
      using that q3 [of q] q1 [of q] by (auto simp: w(1) c)
  qed
qed

subsection \<open>Properties\<close>

text \<open>
  C25: without force init replaces nothing it checks for. When a file exists at the path of the
  service configuration or at the configured host-key path, the action fails and the file
  system stays as it was. When the existence check of either path fails for another reason
  than absence (a permission, say), the action panics, with or without force, again before
  any change.
\<close>

theorem init_refuses_overwrite:
  assumes "init_action L K marshal cfg force os = (r, os')"
  shows "(\<not> force \<and> (file_there os (serviceConfigPath L cfg) \<or> file_there os (HostPrivateKeyPath cfg)) \<longrightarrow>
       r \<noteq> Ok () \<and> os' = os) \<and>
     (\<forall>p \<in> {serviceConfigPath L cfg, HostPrivateKeyPath cfg}. \<forall>e.
       os_Stat p os = Inl e \<and> \<not> os_IsNotExist (Some e) \<longrightarrow> r = Abort NilDeref \<and> os' = os)"
  using assms fileExists_Ok [of "serviceConfigPath L cfg" os] fileExists_Ok [of "HostPrivateKeyPath cfg" os]
  unfolding init_action_def
  by (auto simp: fileExists_def os_IsNotExist_def split: result.splits if_splits sum.splits)

theorem init_refuses_overwrite_witness:
  "snd (init_action sample_oc sample_crypto (\<lambda>fs. Inr [1]) (DefaultConfig sample_oc
      \<lparr>HostPrivateKeyPath := ''/root/hk''\<rparr>) False sample_os) = sample_os \<and>
   file_there sample_os ''/root/hk''"
proof -
  let ?cfg = "DefaultConfig sample_oc\<lparr>HostPrivateKeyPath := ''/root/hk''\<rparr>"
  have there: "file_there sample_os ''/root/hk''"
    by (simp add: file_there_def os_Stat_def node_at_def sample_os_def)
  obtain r os' where run: "init_action sample_oc sample_crypto (\<lambda>fs. Inr [1]) ?cfg False sample_os = (r, os')"
    by force
  show ?thesis using init_refuses_overwrite [OF run] there run by simp
qed

text \<open>
  C24: the server starts on what init wrote. After a successful init whose host-key path is
  id_rsa in the service's data directory, as it is by default, reading the configured host
  key gives the signer of exactly the public key that lies beside it in id_rsa.pub; the
  configuration file holds the YAML of the SFTP address and the host-key path and nothing
  else; and a private key file that was not there before is readable by its owner only.
\<close>

theorem init_then_server_starts:
  assumes "key_formats S K pub_of" "init_action L K marshal cfg force os = (Ok (), os')"
    "HostPrivateKeyPath cfg = hostKeyFile L cfg" "Os_fault os OsRead (HostPrivateKeyPath cfg) = None"
  shows "\<exists>k pb mp b mc kb m. readPrivateKeyFromFile S (HostPrivateKeyPath cfg) os' = Ok (Signer k) \<and>
     Os_nodes os' (publicKeyFile L cfg) = Some (OsFile pb mp) \<and> ParseAuthorizedKey S pb = Inr k \<and>
     Os_nodes os' (serviceConfigPath L cfg) = Some (OsFile b mc) \<and>
     marshal [(''SFTPAddress'', FvString (SFTPAddress cfg)),
       (''HostPrivateKeyPath'', FvString (HostPrivateKeyPath cfg))] = Inr b \<and>
     Os_nodes os' (HostPrivateKeyPath cfg) = Some (OsFile kb m) \<and>
     (Os_nodes os (HostPrivateKeyPath cfg) = None \<longrightarrow> m = 384)"
proof -
  have w: "init_write L K marshal cfg os = (Ok (), os')" using init_action_Ok [OF assms(2)] by blast
  show ?thesis
  proof (rule init_write_result [OF w])
    fix kp b m m' m''
    assume kp: "GenerateSSHKeyPair K KeyTypeRSA = Ok kp"
      and b: "marshal [(''SFTPAddress'', FvString (SFTPAddress cfg)), (''HostPrivateKeyPath'', FvString (HostPrivateKeyPath cfg))] = Inr b"
      and n: "Os_nodes os' (hostKeyFile L cfg) = Some (OsFile (KP_PrivateKey kp) m)"
        "Os_nodes os' (publicKeyFile L cfg) = Some (OsFile (KP_PublicKey kp) m')"
        "Os_nodes os' (serviceConfigPath L cfg) = Some (OsFile b m'')"
      and mode: "Os_nodes os (hostKeyFile L cfg) = None \<Longrightarrow> m = 384"
      and f: "Os_fault os' = Os_fault os"
    obtain k where k: "ParsePrivateKey S (KP_PrivateKey kp) = Inr (Signer k)" "ParseAuthorizedKey S (KP_PublicKey kp) = Inr k"
      using generated_pair [OF assms(1) kp] by blast
    have "os_ReadFile (HostPrivateKeyPath cfg) os' = Ok (KP_PrivateKey kp)"
      using os_ReadFile_file [OF _ _ n(1)] init_paths(4) [of L cfg] assms(3,4) f by simp
    then have "readPrivateKeyFromFile S (HostPrivateKeyPath cfg) os' = Ok (Signer k)"
      by (simp add: readPrivateKeyFromFile_def k(1))
    then show ?thesis
      using n mode b k(2) assms(3)
      by (intro exI [of _ k] exI [of _ "KP_PublicKey kp"] exI [of _ m'] exI [of _ b] exI [of _ m'']
          exI [of _ "KP_PrivateKey kp"] exI [of _ m]) simp
  qed
qed

theorem init_then_server_starts_witness:
  "\<exists>os' k. init_action sample_oc sample_crypto (\<lambda>fs. Inr [1]) (DefaultConfig sample_oc) False sample_os = (Ok (), os') \<and>
     readPrivateKeyFromFile sample_ssh (HostPrivateKeyPath (DefaultConfig sample_oc)) os' = Ok (Signer k)"
proof -
  obtain r os' where run: "init_action sample_oc sample_crypto (\<lambda>fs. Inr [1]) (DefaultConfig sample_oc) False sample_os = (r, os')"
    by force
  have "fst (init_action sample_oc sample_crypto (\<lambda>fs. Inr [1]) (DefaultConfig sample_oc) False sample_os) = Ok ()"
    by code_simp
  then have r: "r = Ok ()" using run by simp
  have path: "HostPrivateKeyPath (DefaultConfig sample_oc) = hostKeyFile sample_oc (DefaultConfig sample_oc)"
    by code_simp
  have "Os_fault sample_os OsRead (HostPrivateKeyPath (DefaultConfig sample_oc)) = None" by (simp add: sample_os_def)
  then show ?thesis
    using init_then_server_starts [OF sample_key_formats run [unfolded r] path] run r by blast
qed



subsection \<open>What init deletes\<close>

lemma deleteFiles_clears:
  assumes "deleteFiles (p # ps) os = (e, os')" "Os_fault os OsRemove p = None" "at_or_below p q"
  shows "Os_nodes os' q = None"
proof -
  obtain e1 os1 where r: "os_RemoveAll p os = (e1, os1)" by force
  have e1: "e1 = None" using r assms(2) by (auto simp: os_RemoveAll_def)
  have "Os_nodes os1 q = None" by (rule os_RemoveAll_Ok [OF r [unfolded e1] assms(3)])
  moreover have "deleteFiles ps os1 = (e, os')" using assms(1) r e1 by simp
  ultimately show ?thesis using deleteFiles_keeps [of ps os1 e os' q] by simp
qed

lemma writeKeyPairToFile_other:
  assumes "writeKeyPairToFile kp dir name os = (e, os')" "q \<noteq> path_Join [dir, name]" "q \<noteq> path_Join [dir, name @ ''.pub'']"
  shows "Os_nodes os' q = Os_nodes os q"
  using assms unfolding writeKeyPairToFile_def Let_def
  by (auto split: prod.splits option.splits dest!: os_WriteFile_other [of _ _ _ _ _ _ q])

text \<open>What may be at a path at or below the data directory once it was cleared.\<close>

definition fresh_node :: "oclib \<Rightarrow> ('k, 'p) cryptolib \<Rightarrow> ((string \<times> field_value) list \<Rightarrow> go_error + byte list) \<Rightarrow>
     config \<Rightarrow> string \<Rightarrow> os_node option \<Rightarrow> bool" where
  "fresh_node L K marshal cfg q n \<longleftrightarrow> n = None \<or> (q = serviceDataPath L cfg \<and> n = Some OsDir) \<or>
     (\<exists>kp. GenerateSSHKeyPair K KeyTypeRSA = Ok kp \<and>
        (q = hostKeyFile L cfg \<and> n = Some (OsFile (KP_PrivateKey kp) 384) \<or>
         q = publicKeyFile L cfg \<and> n = Some (OsFile (KP_PublicKey kp) 420))) \<or>
     (\<exists>b. marshal [(''SFTPAddress'', FvString (SFTPAddress cfg)),
         (''HostPrivateKeyPath'', FvString (HostPrivateKeyPath cfg))] = Inr b \<and>
        q = serviceConfigPath L cfg \<and> n = Some (OsFile b 420))"

lemma fresh_pair:
  assumes "writeKeyPairToFile kp (serviceDataPath L cfg) ''id_rsa'' os = (e, os')" "GenerateSSHKeyPair K KeyTypeRSA = Ok kp"
    "Os_nodes os q \<in> {None, Some OsDir} \<or> q \<notin> {hostKeyFile L cfg, publicKeyFile L cfg}"
    "fresh_node L K marshal cfg q (Os_nodes os q)"
  shows "fresh_node L K marshal cfg q (Os_nodes os' q)"
proof -
  obtain e1 os1 where w1: "os_WriteFile (hostKeyFile L cfg) (KP_PrivateKey kp) 384 os = (e1, os1)" by force
  obtain e2 os2 where w2: "os_WriteFile (publicKeyFile L cfg) (KP_PublicKey kp) 420 os1 = (e2, os2)" by force
  have os': "os' = os1 \<or> os' = os2"
    using assms(1) w1 w2 unfolding writeKeyPairToFile_def Let_def hostKeyFile_def publicKeyFile_def
    by (auto split: option.splits)
  have f1: "fresh_node L K marshal cfg q (Os_nodes os1 q) \<and>
      (q = publicKeyFile L cfg \<longrightarrow> Os_nodes os1 q \<in> {None, Some OsDir})"
    using os_WriteFile_cases [OF w1, of q] assms(2-4) init_paths(1) [of L cfg] by (auto simp: fresh_node_def)
  have "fresh_node L K marshal cfg q (Os_nodes os2 q)"
    using os_WriteFile_cases [OF w2, of q] f1 assms(2) by (auto simp: fresh_node_def)
  with f1 os' show ?thesis by auto
qed

lemma init_write_clears:
  assumes "init_write L K marshal cfg os = (r, os')" "Os_fault os OsRemove (serviceDataPath L cfg) = None"
    "at_or_below (serviceDataPath L cfg) q"
  shows "fresh_node L K marshal cfg q (Os_nodes os' q)"
proof -
  obtain e os1 where d: "deleteFiles [serviceDataPath L cfg, serviceConfigPath L cfg] os = (e, os1)" by force
  note n1 = deleteFiles_clears [OF d assms(2,3)]
  have start: "fresh_node L K marshal cfg q (Os_nodes os1 q)" using n1 by (simp add: fresh_node_def)
  have n2: "fresh_node L K marshal cfg q (Os_nodes os2 q) \<and> (Os_nodes os2 q = None \<or> q = serviceConfigPath L cfg)"
    if "os_WriteFile (serviceConfigPath L cfg) b 420 os1 = (e2, os2)"
      "marshal [(''SFTPAddress'', FvString (SFTPAddress cfg)), (''HostPrivateKeyPath'', FvString (HostPrivateKeyPath cfg))] = Inr b"
    for b e2 os2
    using os_WriteFile_cases [OF that(1), of q] that(2) n1 by (auto simp: fresh_node_def)
  have n3: "fresh_node L K marshal cfg q (Os_nodes os3 q) \<and>
      (Os_nodes os3 q \<in> {None, Some OsDir} \<or> q \<notin> {hostKeyFile L cfg, publicKeyFile L cfg})"
    if "os_WriteFile (serviceConfigPath L cfg) b 420 os1 = (e2, os2)"
      "marshal [(''SFTPAddress'', FvString (SFTPAddress cfg)), (''HostPrivateKeyPath'', FvString (HostPrivateKeyPath cfg))] = Inr b"
      "os_MkdirAll (serviceDataPath L cfg) os2 = (e3, os3)"
    for b e2 os2 e3 os3
    using os_MkdirAll_keeps [OF that(3), of q] os_MkdirAll_below [OF that(3) assms(3)] n2 [OF that(1,2)]
      init_paths(2,3) [of L cfg] by (cases "q = serviceDataPath L cfg") (auto simp: fresh_node_def)
  show ?thesis
    using assms(1) d start n2 n3 fresh_pair [of _ L cfg _ _ _ K q marshal] unfolding init_write_def yaml_subset
    by (auto split: prod.splits option.splits result.splits sum.splits)
qed

text \<open>
  C38: the check for existing files does not cover the data directory. When the two existence
  checks find neither the service configuration nor the configured host key, and removing is not refused, init goes
  on without force and clears everything at and below the service's data directory. Whether
  it then succeeds or not, what is at such a path afterwards is nothing, or new: the data
  directory itself, made again; the new private key at id_rsa, with mode 0600, or its public
  key at id_rsa.pub; or the new configuration, should its path lie there. An earlier id_rsa
  is gone also when the run fails before it writes a new one.
\<close>

theorem init_clears_data_dir:
  assumes "fileExists (serviceConfigPath L cfg) os = Ok False" "fileExists (HostPrivateKeyPath cfg) os = Ok False"
    "Os_fault os OsRemove (serviceDataPath L cfg) = None" "at_or_below (serviceDataPath L cfg) q"
    "init_action L K marshal cfg False os = (r, os')"
  shows "Os_nodes os' q = None \<or> (q = serviceDataPath L cfg \<and> Os_nodes os' q = Some OsDir) \<or>
     (\<exists>kp. GenerateSSHKeyPair K KeyTypeRSA = Ok kp \<and>
        (q = hostKeyFile L cfg \<and> Os_nodes os' q = Some (OsFile (KP_PrivateKey kp) 384) \<or>
         q = publicKeyFile L cfg \<and> Os_nodes os' q = Some (OsFile (KP_PublicKey kp) 420))) \<or>
     (\<exists>b. marshal [(''SFTPAddress'', FvString (SFTPAddress cfg)),
         (''HostPrivateKeyPath'', FvString (HostPrivateKeyPath cfg))] = Inr b \<and>
        q = serviceConfigPath L cfg \<and> Os_nodes os' q = Some (OsFile b 420))"
proof -
  have "init_write L K marshal cfg os = (r, os')" using assms by (simp add: init_action_def)
  from init_write_clears [OF this assms(3,4)] show ?thesis unfolding fresh_node_def .
qed

text \<open>A host whose data directory holds an earlier key pair, and a configuration that names another host key.\<close>

definition keyed_os :: os_state where
  "keyed_os = set_node ''/var/lib/opencloud/sftp'' (Some OsDir)
     (set_node ''/var/lib/opencloud/sftp/id_rsa'' (Some (OsFile [5] 384)) sample_os)"

theorem init_clears_data_dir_witness:
  "Os_nodes keyed_os ''/var/lib/opencloud/sftp/id_rsa'' = Some (OsFile [5] 384) \<and>
   Os_nodes (snd (init_action sample_oc sample_crypto (\<lambda>fs. Inr [1])
       (DefaultConfig sample_oc\<lparr>HostPrivateKeyPath := ''/root/new''\<rparr>) False keyed_os))
     ''/var/lib/opencloud/sftp/id_rsa'' \<in> {None, Some (OsFile [0, 9] 384)}"
proof -
  let ?cfg = "DefaultConfig sample_oc\<lparr>HostPrivateKeyPath := ''/root/new''\<rparr>"
  obtain r os' where run: "init_action sample_oc sample_crypto (\<lambda>fs. Inr [1]) ?cfg False keyed_os = (r, os')"
    by force
  have e: "fileExists (serviceConfigPath sample_oc ?cfg) keyed_os = Ok False"
    "fileExists (HostPrivateKeyPath ?cfg) keyed_os = Ok False"
    "Os_fault keyed_os OsRemove (serviceDataPath sample_oc ?cfg) = None"
    "at_or_below (serviceDataPath sample_oc ?cfg) ''/var/lib/opencloud/sftp/id_rsa''"
    "''/var/lib/opencloud/sftp/id_rsa'' \<notin> {serviceDataPath sample_oc ?cfg,
       publicKeyFile sample_oc ?cfg, serviceConfigPath sample_oc ?cfg}"
    by code_simp+
  have kp: "GenerateSSHKeyPair sample_crypto KeyTypeRSA = Ok \<lparr>KP_PrivateKey = [0, 9], KP_PublicKey = [1, 9]\<rparr>"
    by (simp add: GenerateSSHKeyPair_def generate_keys_def sample_crypto_def KeyTypeRSA_def KeyTypeEd25519_def)
  have "Os_nodes keyed_os ''/var/lib/opencloud/sftp/id_rsa'' = Some (OsFile [5] 384)" by (simp add: keyed_os_def)
  then show ?thesis using init_clears_data_dir [OF e(1-4) run] e(5) run kp by auto
qed

end
