(* ===== verification/CliProps.thy ===== *)
theory CliProps
  imports Cli CommandProps
begin

text \<open>
  The properties of the process: what the commands server, health and init do from the start
  of the program to its exit code.
\<close>

subsection \<open>What the libraries promise\<close>

text \<open>The command-line library: Before, and the action unless Before failed.\<close>

definition before_then_action ::
    "('w, 'c, 'g) cli_command \<Rightarrow> (string \<Rightarrow> bool) \<Rightarrow> ('w, 'c, 'g) process \<Rightarrow> cli_end \<times> ('w, 'c, 'g) process" where
  "before_then_action cmd flags p = (case CmdBefore cmd of
      None \<Rightarrow> CmdAction cmd flags p
    | Some before \<Rightarrow> (case before p of
        (e, p) \<Rightarrow> if e = Returns (Ok ()) then CmdAction cmd flags p else (e, p)))"

text \<open>Naming a command that has no flags runs it.\<close>

definition cli_runs ::
    "(('w, 'c, 'g) cli_command list \<Rightarrow> string list \<Rightarrow> ('w, 'c, 'g) process \<Rightarrow> cli_end \<times> ('w, 'c, 'g) process) \<Rightarrow> bool" where
  "cli_runs app \<longleftrightarrow> (\<forall>cmds prog name cmd p.
     find (\<lambda>c. CmdName c = name) cmds = Some cmd \<and> CmdFlags cmd = [] \<longrightarrow>
       app cmds [prog, name] p = before_then_action cmd (\<lambda>_. False) p)"

text \<open>
  configlog reports an error, by returning it or by exiting with 1, and passes nil on; a log
  file that cannot be opened is no success; a group of one actor returns what the actor does.
\<close>

definition helpers_ok :: "('w, 'c, 'k, 'p, 'g) libs \<Rightarrow> bool" where
  "helpers_ok W \<longleftrightarrow> ReturnFatal W None = Returns (Ok ()) \<and> (\<forall>e. exit_code (ReturnFatal W (Some e)) = Some 1) \<and>
     (\<forall>e. ReturnError W e = e) \<and> (\<forall>opts. LoggerExit W opts \<noteq> Some 0) \<and> (\<forall>e. GroupRun W [e] = e)"

subsection \<open>Lemmas\<close>

lemma helpers_report:
  assumes "helpers_ok W"
  shows "ReturnFatal W None = Returns (Ok ())" "exit_code (ReturnFatal W (Some e)) = Some 1"
    "return_error W None = Returns (Ok ())" "exit_code (return_error W (Some e)) = Some 1"
  using assms by (simp_all add: helpers_ok_def return_error_def exit_code_def)

lemma exit_code_Ok: "exit_code e = Some 0 \<Longrightarrow> e = Returns (Ok ()) \<or> e = Exits 0"
  by (auto simp: exit_code_def split: cli_end.splits result.splits if_splits)

abbreviation logger_options :: "config \<Rightarrow> log_config \<Rightarrow> log_options" where
  "logger_options cfg lg \<equiv> \<lparr>LoName = Name (Service cfg), LoLevel = Level lg, LoPretty = Pretty lg, LoColor = Color lg, LoFile = File lg\<rparr>"

lemma with_logger_cases:
  assumes "with_logger W rest p = (e, p')" "\<And>opts. LoggerExit W opts \<noteq> Some 0"
  shows "(\<exists>lg. Log (P_cfg p) = Some lg \<and> LoggerExit W (logger_options (P_cfg p) lg) = None \<and> rest p = (e, p')) \<or>
    exit_code e \<noteq> Some 0 \<and> p' = p \<and>
      (\<forall>lg. Log (P_cfg p) = Some lg \<longrightarrow> LoggerExit W (logger_options (P_cfg p) lg) \<noteq> None)"
  using assms by (auto simp: with_logger_def Configure_def exit_code_def split: option.splits)

text \<open>
  A command that parses the configuration, makes a logger and goes on: it either goes on with
  an accepted configuration, or it fails and leaves everything but the configuration alone.
\<close>

lemma parse_log_run:
  assumes "CmdBefore cmd = Some (parse_before L f)" "\<And>c. CmdAction cmd c = with_logger W rest"
    "f None = Returns (Ok ())" "\<And>e. exit_code (f (Some e)) = Some 1" "\<And>opts. LoggerExit W opts \<noteq> Some 0"
    "before_then_action cmd flags p = (e, p')"
  obtains
    (refused) cfg where "exit_code e \<noteq> Some 0" "p' = p\<lparr>P_cfg := cfg\<rparr>"
      "\<And>cfg' lg. ParseConfig L (P_cfg p) = (Ok (), cfg') \<Longrightarrow> Log cfg' = Some lg \<Longrightarrow>
         LoggerExit W (logger_options cfg' lg) \<noteq> None"
  | (ran) cfg lg where "ParseConfig L (P_cfg p) = (Ok (), cfg)" "Log cfg = Some lg"
      "LoggerExit W (logger_options cfg lg) = None"
      "rest (p\<lparr>P_cfg := cfg\<rparr>) = (e, p')"
proof -
  obtain r cfg where parse: "ParseConfig L (P_cfg p) = (r, cfg)" by force
  have f_err: "f (Some x) \<noteq> Returns (Ok ())" for x
    using assms(4) [of x] by (auto simp: exit_code_def)
  show thesis
  proof (cases r)
    case (Ok u)
    then have run: "with_logger W rest (p\<lparr>P_cfg := cfg\<rparr>) = (e, p')"
      using assms(6) parse by (simp add: before_then_action_def assms(1,2,3) parse_before_def)
    from with_logger_cases [OF run assms(5)] show thesis
      using that(1) [of cfg] that(2) [of cfg] parse Ok by auto
  next
    case (Err x)
    then have "e = f (Some x)" "p' = p\<lparr>P_cfg := cfg\<rparr>"
      using assms(6) parse f_err by (simp_all add: before_then_action_def assms(1) parse_before_def)
    then show thesis using that(1) parse Err assms(4) by simp
  next
    case (Abort a)
    then have "e = Returns (Abort a)" "p' = p\<lparr>P_cfg := cfg\<rparr>"
      using assms(6) parse by (simp_all add: before_then_action_def assms(1) parse_before_def)
    then show thesis using that(1) parse Abort by (simp add: exit_code_def)
  qed
qed

lemma find_commands:
  "find (\<lambda>c. CmdName c = ''server'') (GetCommands W cfg) = Some (Server_cmd W)"
  "find (\<lambda>c. CmdName c = ''health'') (GetCommands W cfg) = Some (Health_cmd W)"
  "find (\<lambda>c. CmdName c = ''version'') (GetCommands W cfg) = Some (Version_cmd W)"
  by (simp_all add: GetCommands_def Server_cmd_def Init_cmd_def Health_cmd_def Version_cmd_def)

abbreviation started :: "('w, 'c, 'k, 'p, 'g) libs \<Rightarrow> os_state \<Rightarrow> ('w, 'c, 'g) process" where
  "started W os \<equiv> \<lparr>P_cfg = DefaultConfig (Oc W), P_os = os, P_shared = [], P_server = None,
     P_asked = [], P_output = []\<rparr>"

lemma main_runs:
  assumes "cli_runs app" "find (\<lambda>c. CmdName c = name) (GetCommands W (DefaultConfig (Oc W))) = Some cmd" "CmdFlags cmd = []"
  shows "main app W [prog, name] os = (case before_then_action cmd (\<lambda>_. False) (started W os) of (e, p) \<Rightarrow> (exit_code e, p))"
  using assms by (simp add: main_def Execute_def cli_runs_def)

text \<open>The loops of the version command make one row per node of every service, in order.\<close>

lemma append_nodes_rows: "append_nodes v ns rows = rows @ map (\<lambda>n. [v, NodeAddress n, NodeId n]) ns"
  by (induction ns arbitrary: rows) simp_all

lemma append_services_rows:
  "append_services ss rows = rows @ concat (map (\<lambda>s. map (\<lambda>n. [SvcVersion s, NodeAddress n, NodeId n]) (SvcNodes s)) ss)"
  by (induction ss arbitrary: rows) (simp_all add: append_nodes_rows)

text \<open>
  A server with a public-key handler is one that ListenAndServe took all the way to listening.
\<close>

lemma ListenAndServe_serving:
  assumes "ListenAndServe X gsel listen os (NewSFTPServer X serve cfg) = (r, s)" "SrvPublicKeyHandler s \<noteq> None"
  obtains b key reva where "os_ReadFile (HostPrivateKeyPath cfg) os = Ok b" "ParsePrivateKey (E_ssh X) b = Inr key"
    "Reva cfg = Some reva" "gsel (Address reva) = None" "r = listen s"
    "s = \<lparr>SrvAddr = SFTPAddress cfg, SrvCfg = cfg, SrvSubsystems = [''sftp'' \<mapsto> SFTPHandler X serve],
       SrvHostKeys = [key], SrvHasSelector = True,
       SrvPublicKeyHandler = Some (HandlePubKey X (LoadKeys X) (MachineAuthAPIKey cfg))\<rparr>"
  using assms
  by (auto simp: ListenAndServe_def NewSFTPServer_def readPrivateKeyFromFile_def result_of_sum_def Let_def
      NewPubKeyAuthHandler_def NewSpaceKeyStorage_def split: result.splits sum.splits option.splits)

lemma ListenAndServe_Ok:
  assumes "ListenAndServe X gsel listen os s = (Ok u, s')"
  shows "SrvPublicKeyHandler s' \<noteq> None \<and> listen s' = Ok u"
  using assms by (auto simp: ListenAndServe_def Let_def split: result.splits option.splits)

text \<open>The server command, once its configuration is accepted and the logger made.\<close>

lemma server_execute_serving:
  assumes "server_execute W p = (r, p')" "P_server p = None" "P_server p' = Some s" "SrvPublicKeyHandler s \<noteq> None"
    "P_shared p = []"
  obtains tm reva b key where "TokenManager (P_cfg p) = Some tm" "Reva (P_cfg p) = Some reva"
    "os_ReadFile (HostPrivateKeyPath (P_cfg p)) (P_os p) = Ok b" "ParsePrivateKey (E_ssh (Env W)) b = Inr key"
    "Selector W (Address reva) = None" "r = Listen W s"
    "s = \<lparr>SrvAddr = SFTPAddress (P_cfg p), SrvCfg = (P_cfg p)\<lparr>GatewaySelector := ''eu.opencloud.api.gateway''\<rparr>,
       SrvSubsystems = [''sftp'' \<mapsto> SFTPHandler (Env W) (Serve W)], SrvHostKeys = [key], SrvHasSelector = True,
       SrvPublicKeyHandler = Some (HandlePubKey (Env W) (LoadKeys (Env W)) (MachineAuthAPIKey (P_cfg p)))\<rparr>"
    "P_shared p' = (let sc = \<lparr>Sc_jwt_secret = JWTSecret tm, Sc_gatewaysvc = Address reva,
       Sc_skip_user_groups_in_token = SkipUserGroupsInToken (P_cfg p),
       Sc_grpc_client_options = GetGRPCClientConfig W reva\<rparr>
       in if SharedDecode W sc = None then [sc] else [])"
proof -
  obtain tm reva where c: "TokenManager (P_cfg p) = Some tm" "Reva (P_cfg p) = Some reva"
    using assms(1,2,3) by (auto simp: server_execute_def split: option.splits)
  let ?cfg = "(P_cfg p)\<lparr>GatewaySelector := ''eu.opencloud.api.gateway''\<rparr>"
  have run: "ListenAndServe (Env W) (Selector W) (Listen W) (P_os p) (NewSFTPServer (Env W) (Serve W) ?cfg) = (r, s)"
    using assms(1,3) c by (auto simp: server_execute_def Let_def split: option.splits prod.splits)
  have shared: "P_shared p' = (let sc = \<lparr>Sc_jwt_secret = JWTSecret tm, Sc_gatewaysvc = Address reva,
       Sc_skip_user_groups_in_token = SkipUserGroupsInToken (P_cfg p),
       Sc_grpc_client_options = GetGRPCClientConfig W reva\<rparr>
       in if SharedDecode W sc = None then [sc] else [])"
    using assms(1,5) c by (auto simp: server_execute_def Let_def split: option.splits prod.splits)
  show thesis
    by (rule ListenAndServe_serving [OF run assms(4)]) (use c shared in \<open>auto intro: that\<close>)
qed

lemma server_execute_Ok:
  assumes "server_execute W p = (Ok u, p')"
  shows "\<exists>s. P_server p' = Some s \<and> SrvPublicKeyHandler s \<noteq> None \<and> Listen W s = Ok u"
  using assms
  by (auto simp: server_execute_def Let_def split: option.splits prod.splits dest!: ListenAndServe_Ok)

text \<open>The defaults do not look at the address, so an address that was set passes through them.\<close>

lemma ensure_blocks_address:
  "ensure_log (c\<lparr>SFTPAddress := a\<rparr>) = (ensure_log c)\<lparr>SFTPAddress := a\<rparr>"
  "ensure_tracing (c\<lparr>SFTPAddress := a\<rparr>) = (ensure_tracing c)\<lparr>SFTPAddress := a\<rparr>"
  "ensure_reva L (c\<lparr>SFTPAddress := a\<rparr>) = (ensure_reva L c)\<lparr>SFTPAddress := a\<rparr>"
  "ensure_token_manager (c\<lparr>SFTPAddress := a\<rparr>) = (ensure_token_manager c)\<lparr>SFTPAddress := a\<rparr>"
  "ensure_api_key (c\<lparr>SFTPAddress := a\<rparr>) = (ensure_api_key c)\<lparr>SFTPAddress := a\<rparr>"
  by (simp_all add: ensure_log_def ensure_tracing_def ensure_reva_def ensure_token_manager_def ensure_api_key_def
      split: option.split)

lemma ensure_defaults_address:
  "EnsureDefaults L (c\<lparr>SFTPAddress := a\<rparr>) = (EnsureDefaults L c)\<lparr>SFTPAddress := a\<rparr>"
  by (simp only: EnsureDefaults_def ensure_blocks_address)

lemma ParseConfig_address:
  assumes "\<And>n c a. BindSourcesToStructs L n (c\<lparr>SFTPAddress := a\<rparr>) = BindSourcesToStructs L n c"
    "ReadCommons L = Inr commons"
  shows "ParseConfig L (c\<lparr>SFTPAddress := a\<rparr>) = ParseConfig L c"
proof -
  have "EnsureDefaults L (c\<lparr>SFTPAddress := a\<rparr>\<lparr>Commons := commons\<rparr>) = (EnsureDefaults L (c\<lparr>Commons := commons\<rparr>))\<lparr>SFTPAddress := a\<rparr>"
    unfolding ensure_defaults_address [symmetric] by (cases c) simp
  then show ?thesis by (simp add: ParseConfig_def assms)
qed

lemma init_cmd_run:
  "ParseConfig (Oc W) (P_cfg p) = (Ok (), cfg) \<Longrightarrow> before_then_action (Init_cmd W cfg0) flags p =
    (case init_action (Oc W) (Crypto W) (YamlMarshal W) cfg (flags ''force-overwrite'') (P_os p) of
       (r, os) \<Rightarrow> (Returns r, p\<lparr>P_cfg := cfg, P_os := os\<rparr>))"
  by (simp add: before_then_action_def Init_cmd_def init_before_def)

subsection \<open>A small system\<close>

text \<open>An application library that knows how to run a command named by the arguments.\<close>

definition sample_app ::
    "('w, 'c, 'g) cli_command list \<Rightarrow> string list \<Rightarrow> ('w, 'c, 'g) process \<Rightarrow> cli_end \<times> ('w, 'c, 'g) process" where
  "sample_app cmds args p = (case args of
      [prog, name] \<Rightarrow> (case find (\<lambda>c. CmdName c = name) cmds of
          Some cmd \<Rightarrow> before_then_action cmd (\<lambda>_. False) p
        | None \<Rightarrow> (Returns (Err (Ext ''no such command'')), p))
    | _ \<Rightarrow> (Returns (Err (Ext ''usage'')), p))"

lemma sample_app_runs: "cli_runs sample_app"
  by (simp add: cli_runs_def sample_app_def)

definition sample_libs :: "(mem, mctx, nat, nat, unit) libs" where
  "sample_libs = \<lparr>Oc = sample_oc, Env = mem_env\<lparr>E_ssh := sample_ssh\<rparr>, Crypto = sample_crypto,
     YamlMarshal = (\<lambda>fs. Inr (case fs of (n, FvString v) # _ \<Rightarrow> map of_char v | _ \<Rightarrow> [])),
     Serve = (\<lambda>_. ret ()), Selector = (\<lambda>_. None), Listen = (\<lambda>_. Ok ()), LoggerExit = (\<lambda>_. None),
     ReturnFatal = (\<lambda>e. case e of None \<Rightarrow> Returns (Ok ()) | Some _ \<Rightarrow> Exits 1), ReturnError = (\<lambda>e. e),
     SharedDecode = (\<lambda>_. None), GetGRPCClientConfig = (\<lambda>_. ()), GroupRun = hd,
     HttpGet = (\<lambda>url. if url = ''http:///healthz'' then Inl (Ext ''no Host in request URL'') else Inr 200),
     GetService = (\<lambda>_. Inr []), Compiled = ''today''\<rparr>"

lemma sample_helpers: "helpers_ok sample_libs"
  by (simp add: helpers_ok_def sample_libs_def exit_code_def)

text \<open>A host with a host key in the default place.\<close>

definition serving_os :: os_state where
  "serving_os = set_node ''/var/lib/opencloud/sftp'' (Some OsDir)
     (set_node ''/var/lib/opencloud/sftp/id_rsa'' (Some (OsFile [0, 9] 384)) sample_os)"

subsection \<open>Properties\<close>

text \<open>
  C3: the program never serves with a configuration that was not validated. When the command
  server comes to install its key check, which it does just before it listens, the configuration was read
  and accepted, with a JWT secret and a machine-auth key; reva's shared settings were decoded
  from that secret, the gateway address, the group setting and the gRPC options, and hold
  exactly these unless the decoder refused them (which is only logged); the server listens at the configured address
  with the host key of the configured file, its key check is the public-key handler with
  that machine key, its only subsystem is the SFTP handler; and the process ends as the listening
  does. The exit code is zero only for a server that got there and whose listening ended without error.
  The libraries are assumed as in \<open>cli_runs\<close> and \<open>helpers_ok\<close>.
\<close>

theorem server_command_serves_validated:
  assumes "cli_runs app" "helpers_ok W" "main app W [prog, ''server''] os = (code, p)"
  shows "(code = Some 0 \<longrightarrow> (\<exists>s. P_server p = Some s \<and> SrvPublicKeyHandler s \<noteq> None \<and> Listen W s = Ok ())) \<and>
    (\<forall>s. P_server p = Some s \<and> SrvPublicKeyHandler s \<noteq> None \<longrightarrow>
      (\<exists>cfg tm reva b key. ParseConfig (Oc W) (DefaultConfig (Oc W)) = (Ok (), cfg) \<and>
        TokenManager cfg = Some tm \<and> JWTSecret tm \<noteq> [] \<and> MachineAuthAPIKey cfg \<noteq> [] \<and>
        os_ReadFile (HostPrivateKeyPath cfg) os = Ok b \<and> ParsePrivateKey (E_ssh (Env W)) b = Inr key \<and>
        Reva cfg = Some reva \<and> Selector W (Address reva) = None \<and>
        s = \<lparr>SrvAddr = SFTPAddress cfg, SrvCfg = cfg\<lparr>GatewaySelector := ''eu.opencloud.api.gateway''\<rparr>,
          SrvSubsystems = [''sftp'' \<mapsto> SFTPHandler (Env W) (Serve W)], SrvHostKeys = [key], SrvHasSelector = True,
          SrvPublicKeyHandler = Some (HandlePubKey (Env W) (LoadKeys (Env W)) (MachineAuthAPIKey cfg))\<rparr> \<and>
        P_shared p = (let sc = \<lparr>Sc_jwt_secret = JWTSecret tm, Sc_gatewaysvc = Address reva,
            Sc_skip_user_groups_in_token = SkipUserGroupsInToken cfg, Sc_grpc_client_options = GetGRPCClientConfig W reva\<rparr>
          in if SharedDecode W sc = None then [sc] else []) \<and>
        code = exit_code (Returns (Listen W s))))"
    (is "_ \<and> (\<forall>s. _ \<longrightarrow> (\<exists>cfg tm reva b key. ?serves s cfg tm reva b key))")
proof -
  let ?rest = "\<lambda>p. case server_execute W p of
      (Abort a, p) \<Rightarrow> (Returns (Abort a), p)
    | (Err e, p) \<Rightarrow> (Returns (case GroupRun W [Some e] of None \<Rightarrow> Ok () | Some e \<Rightarrow> Err e), p)
    | (Ok _, p) \<Rightarrow> (Returns (case GroupRun W [None] of None \<Rightarrow> Ok () | Some e \<Rightarrow> Err e), p)"
  have group: "?rest q = (case server_execute W q of (r, q') \<Rightarrow> (Returns r, q'))" for q
    using assms(2) by (auto simp: helpers_ok_def split: prod.split result.split)
  have no_flags: "CmdFlags (Server_cmd W) = []" by (simp add: Server_cmd_def)
  obtain e p' where e': "before_then_action (Server_cmd W) (\<lambda>_. False) (started W os) = (e, p')" by force
  have e: "before_then_action (Server_cmd W) (\<lambda>_. False) (started W os) = (e, p)" "code = exit_code e"
    using assms(3) e' unfolding main_runs [OF assms(1) find_commands(1) no_flags] by simp_all
  have cmd: "CmdBefore (Server_cmd W) = Some (parse_before (Oc W) (ReturnFatal W))"
    "\<And>c. CmdAction (Server_cmd W) c = with_logger W ?rest"
    by (simp_all add: Server_cmd_def server_before_def server_action_def fun_eq_iff)
  have logs: "LoggerExit W opts \<noteq> Some 0" for opts using assms(2) by (simp add: helpers_ok_def)
  show ?thesis
  proof (rule parse_log_run [OF cmd helpers_report(1,2) [OF assms(2)] logs e(1)])
    fix cfg assume "exit_code e \<noteq> Some 0" "p = started W os\<lparr>P_cfg := cfg\<rparr>"
    then show ?thesis by (fastforce simp: e(2))
  next
    fix cfg lg
    assume parse: "ParseConfig (Oc W) (P_cfg (started W os)) = (Ok (), cfg)"
      and "?rest (started W os\<lparr>P_cfg := cfg\<rparr>) = (e, p)"
    then obtain r where run: "server_execute W (started W os\<lparr>P_cfg := cfg\<rparr>) = (r, p)" "e = Returns r"
      unfolding group by (auto split: prod.splits)
    have valid: "(\<exists>t. TokenManager cfg = Some t \<and> JWTSecret t \<noteq> []) \<and> MachineAuthAPIKey cfg \<noteq> []"
      by (rule ParseConfig_accepts [OF parse])
    have code: "code = exit_code (Returns r)" by (simp only: e(2) run(2))
    show ?thesis
    proof (intro conjI impI allI)
      assume "code = Some 0"
      then have "r = Ok ()" by (simp add: code exit_code_def split: result.splits if_splits)
      with server_execute_Ok run(1)
      show "\<exists>s. P_server p = Some s \<and> SrvPublicKeyHandler s \<noteq> None \<and> Listen W s = Ok ()" by blast
    next
      fix s assume s: "P_server p = Some s \<and> SrvPublicKeyHandler s \<noteq> None"
      show "\<exists>cfg tm reva b key. ?serves s cfg tm reva b key"
        by (rule server_execute_serving [OF run(1) _ s [THEN conjunct1] s [THEN conjunct2]])
          (use parse valid code in \<open>auto\<close>)
    qed
  qed
qed

theorem server_command_serves_validated_witness:
  "fst (main sample_app sample_libs [''sftp'', ''server''] serving_os) = Some 0 \<and>
   (\<exists>s. P_server (snd (main sample_app sample_libs [''sftp'', ''server''] serving_os)) = Some s \<and>
     SrvHostKeys s = [Signer (PublicKey [9])]) \<and>
   map Sc_jwt_secret (P_shared (snd (main sample_app sample_libs [''sftp'', ''server''] serving_os))) = [''s3cret'']"
proof -
  obtain code p where run: "main sample_app sample_libs [''sftp'', ''server''] serving_os = (code, p)" by force
  have "fst (main sample_app sample_libs [''sftp'', ''server''] serving_os) = Some 0" by code_simp
  then have code: "code = Some 0" using run by simp
  note main = server_command_serves_validated [OF sample_app_runs sample_helpers run]
  obtain s where s: "P_server p = Some s" "SrvPublicKeyHandler s \<noteq> None" using main code by blast
  then obtain cfg tm reva b key where k: "ParseConfig sample_oc (DefaultConfig sample_oc) = (Ok (), cfg)"
      "os_ReadFile (HostPrivateKeyPath cfg) serving_os = Ok b" "ParsePrivateKey sample_ssh b = Inr key"
    and sk: "SrvHostKeys s = [key]" and tm: "TokenManager cfg = Some tm"
    and sh: "P_shared p = (let sc = \<lparr>Sc_jwt_secret = JWTSecret tm, Sc_gatewaysvc = Address reva,
            Sc_skip_user_groups_in_token = SkipUserGroupsInToken cfg,
            Sc_grpc_client_options = GetGRPCClientConfig sample_libs reva\<rparr>
          in if SharedDecode sample_libs sc = None then [sc] else [])"
    using main by (fastforce simp: sample_libs_def)
  have "os_ReadFile (HostPrivateKeyPath (snd (ParseConfig sample_oc (DefaultConfig sample_oc)))) serving_os = Ok [0, 9]"
    "map_option JWTSecret (TokenManager (snd (ParseConfig sample_oc (DefaultConfig sample_oc)))) = Some ''s3cret''"
    by code_simp+
  then have b: "b = [0, 9]" and "JWTSecret tm = ''s3cret''" using k(1,2) tm by simp_all
  then have "map Sc_jwt_secret (P_shared p) = [''s3cret'']" using sh by (simp add: sample_libs_def)
  moreover have "key = Signer (PublicKey [9])" using k(3) b by (simp add: sample_ssh_def)
  ultimately show ?thesis using run code s(1) sk by simp
qed

text \<open>
  C26: the command health succeeds exactly when the configuration is accepted, the logger can
  be made and a GET of /healthz at the configured debug address answers 200; otherwise the
  exit code is not zero. Whatever the outcome, it asks for that address at most, at most once
  and only with an accepted configuration, and it makes no server; a success has asked for it. The
  debug address of the default configuration is empty.
\<close>

theorem health_exit_status:
  assumes "cli_runs app" "helpers_ok W" "main app W [prog, ''health''] os = (code, p)"
  shows "(code = Some 0 \<longleftrightarrow> (\<exists>cfg lg. ParseConfig (Oc W) (DefaultConfig (Oc W)) = (Ok (), cfg) \<and>
      Log cfg = Some lg \<and> LoggerExit W (logger_options cfg lg) = None \<and>
      HttpGet W (''http://'' @ Addr (Debug cfg) @ ''/healthz'') = Inr 200)) \<and>
    (P_asked p = [] \<and> code \<noteq> Some 0 \<or> (\<exists>cfg. ParseConfig (Oc W) (DefaultConfig (Oc W)) = (Ok (), cfg) \<and>
      P_asked p = [''http://'' @ Addr (Debug cfg) @ ''/healthz''])) \<and>
    P_server p = None \<and> Addr (Debug (DefaultConfig (Oc W))) = []"
  (is "?exit \<and> ?asked \<and> ?none \<and> ?addr")
proof -
  let ?rest = "\<lambda>p. let url = health_url (P_cfg p); p = p\<lparr>P_asked := P_asked p @ [url]\<rparr>
     in case HttpGet W url of
          Inl err \<Rightarrow> (Exits 1, p)
        | Inr code \<Rightarrow> if code \<noteq> 200 then (Exits 1, p) else (Returns (Ok ()), p)"
  have no_flags: "CmdFlags (Health_cmd W) = []" by (simp add: Health_cmd_def)
  obtain e p' where e': "before_then_action (Health_cmd W) (\<lambda>_. False) (started W os) = (e, p')" by force
  have e: "before_then_action (Health_cmd W) (\<lambda>_. False) (started W os) = (e, p)" "code = exit_code e"
    using assms(3) e' unfolding main_runs [OF assms(1) find_commands(2) no_flags] by simp_all
  have cmd: "CmdBefore (Health_cmd W) = Some (parse_before (Oc W) (return_error W))"
    "\<And>c. CmdAction (Health_cmd W) c = with_logger W ?rest"
    by (simp_all add: Health_cmd_def health_before_def health_action_def fun_eq_iff)
  have logs: "LoggerExit W opts \<noteq> Some 0" for opts using assms(2) by (simp add: helpers_ok_def)
  have "?exit \<and> ?asked \<and> ?none"
  proof (rule parse_log_run [OF cmd helpers_report(3,4) [OF assms(2)] logs e(1)])
    fix cfg assume bad: "exit_code e \<noteq> Some 0"
      and lg: "\<And>cfg' lg. ParseConfig (Oc W) (P_cfg (started W os)) = (Ok (), cfg') \<Longrightarrow> Log cfg' = Some lg \<Longrightarrow>
         LoggerExit W (logger_options cfg' lg) \<noteq> None" and p: "p = started W os\<lparr>P_cfg := cfg\<rparr>"
    have "LoggerExit W (logger_options cfg' lg') \<noteq> None"
      if "ParseConfig (Oc W) (DefaultConfig (Oc W)) = (Ok (), cfg')" "Log cfg' = Some lg'" for cfg' lg'
      using lg [of cfg' lg'] that by simp
    then show ?thesis using bad p by (auto simp: e(2))
  next
    fix cfg lg assume "ParseConfig (Oc W) (P_cfg (started W os)) = (Ok (), cfg)" "Log cfg = Some lg"
      "LoggerExit W (logger_options cfg lg) = None" "?rest (started W os\<lparr>P_cfg := cfg\<rparr>) = (e, p)"
    then show ?thesis
      by (auto simp: e(2) health_url_def Let_def exit_code_def split: sum.splits if_splits)
  qed
  moreover have ?addr by (simp add: DefaultConfig_def zero_config_def)
  ultimately show ?thesis by blast
qed

text \<open>Libraries whose sources set a debug address that answers.\<close>

definition healthy_libs :: "(mem, mctx, nat, nat, unit) libs" where
  "healthy_libs = sample_libs\<lparr>Oc := sample_oc\<lparr>BindSourcesToStructs :=
     \<lambda>n c. (None, c\<lparr>Debug := (Debug c)\<lparr>Addr := ''127.0.0.1:9260''\<rparr>\<rparr>)\<rparr>\<rparr>"

lemma healthy_helpers: "helpers_ok healthy_libs"
  using sample_helpers by (simp add: helpers_ok_def healthy_libs_def)

theorem health_exit_status_witness:
  "fst (main sample_app healthy_libs [''sftp'', ''health''] serving_os) = Some 0 \<and>
   P_asked (snd (main sample_app healthy_libs [''sftp'', ''health''] serving_os)) = [''http://127.0.0.1:9260/healthz''] \<and>
   fst (main sample_app sample_libs [''sftp'', ''health''] serving_os) \<noteq> Some 0"
proof (intro conjI)
  obtain code p where run: "main sample_app healthy_libs [''sftp'', ''health''] serving_os = (code, p)" by force
  note health = health_exit_status [OF sample_app_runs healthy_helpers run]
  let ?cfg = "snd (ParseConfig (Oc healthy_libs) (DefaultConfig (Oc healthy_libs)))"
  have cfg: "ParseConfig (Oc healthy_libs) (DefaultConfig (Oc healthy_libs)) = (Ok (), ?cfg)" by code_simp
  have addr: "Addr (Debug ?cfg) = ''127.0.0.1:9260''" "Log ?cfg \<noteq> None" by code_simp+
  have libs: "LoggerExit healthy_libs opts = None"
    "HttpGet healthy_libs (''http://'' @ Addr (Debug ?cfg) @ ''/healthz'') = Inr 200" for opts
    unfolding addr by (simp_all add: healthy_libs_def sample_libs_def)
  have code: "code = Some 0" using health cfg addr(2) libs by blast
  then show "fst (main sample_app healthy_libs [''sftp'', ''health''] serving_os) = Some 0" using run by simp
  have "P_asked p = [''http://'' @ Addr (Debug ?cfg) @ ''/healthz'']" using health code cfg by auto
  then show "P_asked (snd (main sample_app healthy_libs [''sftp'', ''health''] serving_os)) = [''http://127.0.0.1:9260/healthz'']"
    unfolding run addr by simp
next
  obtain code p where run: "main sample_app sample_libs [''sftp'', ''health''] serving_os = (code, p)" by force
  have "Addr (Debug (snd (ParseConfig sample_oc (DefaultConfig sample_oc)))) = []" by code_simp
  then have "code \<noteq> Some 0"
    using health_exit_status [OF sample_app_runs sample_helpers run] by (auto simp: sample_libs_def)
  then show "fst (main sample_app sample_libs [''sftp'', ''health''] serving_os) \<noteq> Some 0" using run by simp
qed

text \<open>
  C37: the address given to init is lost when the configuration already has one. The flag
  --sftp-addr is stored before the configuration is read, so when the sources that are read
  set the address (a service configuration that is about to be overwritten, say), the whole
  command, its checks, its errors and the files it writes, is the same for every value of the
  required flag; and the address it writes is the one that was read.
\<close>

theorem init_address_flag_lost:
  assumes "\<And>n c a. BindSourcesToStructs (Oc W) n (c\<lparr>SFTPAddress := a\<rparr>) = BindSourcesToStructs (Oc W) n c"
    "ReadCommons (Oc W) = Inr commons"
    "before_then_action (Init_cmd W cfg0) flags p = (e, p')"
  shows "before_then_action (Init_cmd W cfg0) flags (p\<lparr>P_cfg := (P_cfg p)\<lparr>SFTPAddress := a\<rparr>\<rparr>) = (e, p') \<and>
    (e = Returns (Ok ()) \<and> ParseConfig (Oc W) (P_cfg p) = (Ok (), cfg) \<longrightarrow>
      (\<exists>b m. Os_nodes (P_os p') (serviceConfigPath (Oc W) cfg) = Some (OsFile b m) \<and>
        YamlMarshal W [(''SFTPAddress'', FvString (SFTPAddress cfg)),
          (''HostPrivateKeyPath'', FvString (HostPrivateKeyPath cfg))] = Inr b))"
proof (intro conjI impI)
  have "ParseConfig (Oc W) ((P_cfg p)\<lparr>SFTPAddress := a\<rparr>) = ParseConfig (Oc W) (P_cfg p)"
    by (rule ParseConfig_address [OF assms(1,2)])
  then show "before_then_action (Init_cmd W cfg0) flags (p\<lparr>P_cfg := (P_cfg p)\<lparr>SFTPAddress := a\<rparr>\<rparr>) = (e, p')"
    using assms(3) by (simp add: before_then_action_def Init_cmd_def init_before_def split: prod.split)
next
  assume "e = Returns (Ok ()) \<and> ParseConfig (Oc W) (P_cfg p) = (Ok (), cfg)"
  then have "init_action (Oc W) (Crypto W) (YamlMarshal W) cfg (flags ''force-overwrite'') (P_os p) = (Ok (), P_os p')"
    using assms(3) by (auto simp: init_cmd_run split: prod.splits)
  then show "\<exists>b m. Os_nodes (P_os p') (serviceConfigPath (Oc W) cfg) = Some (OsFile b m) \<and>
        YamlMarshal W [(''SFTPAddress'', FvString (SFTPAddress cfg)),
          (''HostPrivateKeyPath'', FvString (HostPrivateKeyPath cfg))] = Inr b"
    by (rule init_action_Ok [THEN conjunct1, THEN init_write_result]) blast
qed

text \<open>A system whose service configuration, about to be overwritten, sets the address "old".\<close>

definition configured_libs :: "(mem, mctx, nat, nat, unit) libs" where
  "configured_libs = sample_libs\<lparr>Oc := sample_oc\<lparr>BindSourcesToStructs := \<lambda>n c. (None, c\<lparr>SFTPAddress := ''old''\<rparr>)\<rparr>\<rparr>"

theorem init_address_flag_lost_witness:
  "\<exists>p' m. before_then_action (Init_cmd configured_libs (DefaultConfig sample_oc)) (\<lambda>_. True)
       (started configured_libs sample_os\<lparr>P_cfg := (DefaultConfig sample_oc)\<lparr>SFTPAddress := ''new''\<rparr>\<rparr>) = (Returns (Ok ()), p') \<and>
     Os_nodes (P_os p') ''/etc/opencloud/sftp.yaml'' = Some (OsFile (map of_char ''old'') m)"
proof -
  let ?p = "started configured_libs sample_os" let ?cmd = "Init_cmd configured_libs (DefaultConfig sample_oc)"
  define cfg' where "cfg' = snd (ParseConfig (Oc configured_libs) (DefaultConfig sample_oc))"
  have cfg: "P_cfg ?p = DefaultConfig sample_oc" by (simp add: configured_libs_def sample_libs_def DefaultConfig_def)
  have "fst (ParseConfig (Oc configured_libs) (DefaultConfig sample_oc)) = Ok ()" by code_simp
  then have parse: "ParseConfig (Oc configured_libs) (P_cfg ?p) = (Ok (), cfg')"
    unfolding cfg cfg'_def by (metis prod.collapse)
  have "fst (init_action (Oc configured_libs) (Crypto configured_libs) (YamlMarshal configured_libs) cfg' True sample_os) = Ok ()"
    unfolding cfg'_def by code_simp
  then obtain os' where "init_action (Oc configured_libs) (Crypto configured_libs) (YamlMarshal configured_libs) cfg' True sample_os = (Ok (), os')"
    by (metis prod.collapse)
  then obtain p' where run: "before_then_action ?cmd (\<lambda>_. True) ?p = (Returns (Ok ()), p')"
    by (simp add: init_cmd_run [OF parse])
  have path: "serviceConfigPath (Oc configured_libs) cfg' = ''/etc/opencloud/sftp.yaml''" and addr: "SFTPAddress cfg' = ''old''"
    unfolding cfg'_def by code_simp+
  have bind: "BindSourcesToStructs (Oc configured_libs) n (c\<lparr>SFTPAddress := a\<rparr>) =
      BindSourcesToStructs (Oc configured_libs) n c" for n c a
    by (simp add: configured_libs_def)
  obtain commons where commons: "ReadCommons (Oc configured_libs) = Inr commons"
    by (simp add: configured_libs_def sample_libs_def sample_oc_def)
  have yaml: "YamlMarshal configured_libs [(n, FvString v), f] = Inr (map of_char v)" for n v f
    by (simp add: configured_libs_def sample_libs_def)
  note lost = init_address_flag_lost [OF bind commons run, of "''new''" cfg', unfolded yaml addr path cfg]
  obtain m where "Os_nodes (P_os p') ''/etc/opencloud/sftp.yaml'' = Some (OsFile (map of_char ''old'') m)"
    using lost [THEN conjunct2] parse cfg by (metis sum.inject(2))
  then show ?thesis using lost [THEN conjunct1] by blast
qed

end
