(* ===== verification/LiveFiles.thy ===== *)
theory LiveFiles
  imports VfsProps
begin

text \<open>
  Every open file of a session that is still alive is well formed: its lock is free and its
  recorded size is that of its cache. Preservation and progress, for arbitrary requests.
\<close>

subsection \<open>Requests\<close>

text \<open>What the wire can carry: offsets and sizes are int64, a written block is in memory.\<close>

definition is_int64 :: "int \<Rightarrow> bool" where
  "is_int64 n \<longleftrightarrow> - (2 ^ 63) \<le> n \<and> n < 2 ^ 63"

definition op_typed :: "('w, 'c) env \<Rightarrow> file_op \<Rightarrow> bool" where
  "op_typed X op = (case op of
      OpRead b off \<Rightarrow> is_int64 off
    | OpWrite b off \<Rightarrow> is_int64 off \<and> int (length b) \<le> E_max_alloc X
    | OpTruncate sz \<Rightarrow> is_int64 sz)"

text \<open>
  The ways a request can end the process: a service that sends no status or too much, a
  position outside of what can be held, and the lock that Truncate gives up.
\<close>

definition op_panics :: "file_op \<Rightarrow> handler \<Rightarrow> abort \<Rightarrow> bool" where
  "op_panics op h a \<longleftrightarrow> a \<in> {NilDeref, MakeSlice} \<or>
     (a = SliceBounds \<and> (case op of OpRead b off \<Rightarrow> off < 0 | OpWrite b off \<Rightarrow> off < 0 \<or> 2 ^ 63 \<le> off + int (length b)
        | OpTruncate sz \<Rightarrow> False)) \<or>
     (a = FatalUnlock \<and> \<not> h_cacheValid h \<and> (case op of OpTruncate sz \<Rightarrow> 0 \<le> sz | _ \<Rightarrow> False))"

definition file_safe :: "('w, 'c) env \<Rightarrow> file_op \<Rightarrow> handler \<Rightarrow> 'a result \<Rightarrow> handler \<Rightarrow> bool" where
  "file_safe X op h r h' \<longleftrightarrow> (case r of
      Ok out \<Rightarrow> handler_inv X h' \<and> same_file h h' | Err e \<Rightarrow> False | Abort a \<Rightarrow> op_panics op h a)"

lemma op_panics_services [simp]: "op_panics op h NilDeref" "op_panics op h MakeSlice"
  by (simp_all add: op_panics_def)

lemma op_never_blocks [simp]: "\<not> op_panics op h Blocked"
  by (simp add: op_panics_def)

subsection \<open>Reads\<close>

lemma wp_read_negative:
  assumes "handler_inv X h" "runtime_ok X" "off < 0"
  shows "wp (ReadAt X fs b off) (\<lambda>r l (w', h'). handler_inv X h' \<and> same_file h h' \<and>
     (case r of Ok _ \<Rightarrow> True | Err _ \<Rightarrow> False | Abort a \<Rightarrow> a \<in> {NilDeref, MakeSlice, SliceBounds})) (w, h)"
proof (cases "h_cacheValid h")
  case True
  then show ?thesis using assms by (simp add: wp_def ReadAt_cached readFromCache_negative)
next
  case False
  have run: "wp (readFromCache b off) Q (w1, h1) = Q (Abort SliceBounds) [] (w1, h1)"
    if "handler_inv X h1" for Q w1 h1
    using that assms(3) by (simp add: wp_def readFromCache_negative)
  have "wp (bnd (try_go (downloadFile X fs)) (\<lambda>d.
     case d of Inl err \<Rightarrow> ret (0, b, Some err) | Inr _ \<Rightarrow> readFromCache b off)) (\<lambda>r l (w', h').
     handler_inv X h' \<and> same_file h h' \<and>
     (case r of Ok _ \<Rightarrow> True | Err _ \<Rightarrow> False | Abort a \<Rightarrow> a \<in> {NilDeref, MakeSlice, SliceBounds})) (w, h)"
    unfolding wp_bnd wp_try_go
    by (rule wp_mono [OF wp_downloadFile [OF assms(1,2)]])
      (use assms(1) in \<open>auto simp: wp_ret run download_post_def split: result.splits\<close>)
  then show ?thesis using False assms(1) by (simp add: wp_def ReadAt_uncached)
qed

lemma wp_step_read:
  assumes "handler_inv X h" "runtime_ok X"
  shows "wp (file_step X fs (OpRead b off)) (\<lambda>r l (w', h'). file_safe X (OpRead b off) h r h') (w, h)"
proof (cases "off < 0")
  case True
  show ?thesis
    unfolding file_step_def file_op.case wp_bnd
    by (rule wp_mono [OF wp_read_negative [OF assms True]])
      (use True in \<open>auto simp: wp_ret file_safe_def op_panics_def split: result.splits\<close>)
next
  case False
  then have "wp (ReadAt X fs b off) (\<lambda>r l (w', h').
     handler_inv X h' \<and> same_file h h' \<and> \<not> list_ex ev_mutates l \<and> ReadAt_post fs h b off r l h') (w, h)"
    by (intro wp_ReadAt [OF assms]) simp
  then show ?thesis
    unfolding file_step_def file_op.case wp_bnd
    by (rule wp_mono) (auto simp: wp_ret file_safe_def ReadAt_post_def split: result.splits)
qed

subsection \<open>Writes\<close>

text \<open>A write that cannot be held panics with the lock held, and gives it back.\<close>

lemma write_locked_panics:
  assumes inv: "cache_inv X h" and ok: "runtime_ok X" and small: "E_max_alloc X < 2 ^ 62"
    and typed: "op_typed X (OpWrite b off)" and bad: "off < 0 \<or> E_max_alloc X < off + int (length b)"
  shows "\<exists>a h'. write_locked X fs b off (w, h) = (Abort a, [], (w, h')) \<and> h_mu h' = h_mu h \<and>
    (a = MakeSlice \<or> a = SliceBounds \<and> (off < 0 \<or> 2 ^ 63 \<le> off + int (length b)))"
proof -
  let ?req = "int64 (off + int (length b))"
  have len: "int (length (bytes_of h)) \<le> E_max_alloc X" using inv by (simp add: cache_inv_def)
  have off: "- (2 ^ 63) \<le> off" "off < 2 ^ 63" "int (length b) \<le> E_max_alloc X"
    using typed by (simp_all add: op_typed_def is_int64_def)
  show ?thesis
  proof (cases "off < 0")
    case neg: True
    then have "?req = off + int (length b)" using off small by (intro int64_id) auto
    then show ?thesis
      using neg off by (cases "int (length (bytes_of h)) < ?req")
        (auto simp: write_locked_def write_cache_def bnd_assoc bnd_get_h bnd_set_h Let_def slice_from_def make_bytes_def abort_apply)
  next
    case pos: False
    with bad have big: "E_max_alloc X < off + int (length b)" by simp
    show ?thesis
    proof (cases "off + int (length b) < 2 ^ 63")
      case True
      then have req: "?req = off + int (length b)" using pos by (intro int64_id) auto
      have "make_bytes (E_max_alloc X) ?req = Abort MakeSlice" using big by (simp add: make_bytes_def req)
      then show ?thesis
        using big len by (auto simp: write_locked_def write_cache_def bnd_assoc bnd_get_h Let_def req abort_apply)
    next
      case False
      have "?req = off + int (length b) - 2 ^ 64"
        using False off small by (intro int64_wraps) simp_all
      then have "?req < 0" using off small by simp
      moreover have "\<not> off \<le> int (length (bytes_of h))" using False off small len by simp
      ultimately show ?thesis
        using False by (auto simp: write_locked_def write_cache_def bnd_assoc bnd_get_h Let_def slice_from_def abort_apply)
    qed
  qed
qed

lemma wp_locked_panics:
  assumes "h_mu h = Unlocked" "m (w, h\<lparr>h_mu := WLocked\<rparr>) = (Abort a, l, (w', h'))" "h_mu h' = WLocked"
    "a \<noteq> FatalUnlock" "a \<noteq> Blocked"
  shows "wp (bnd mu_Lock (\<lambda>_. with_defer mu_Unlock m)) (\<lambda>r l s. r = Abort a) (w, h)"
  using assms by (simp add: wp_bnd wp_mu wp_with_defer wp_def [of m])

lemma wp_write_outside:
  assumes inv: "handler_inv X h" and ok: "runtime_ok X" and small: "E_max_alloc X < 2 ^ 62"
    and typed: "op_typed X (OpWrite b off)" and bad: "off < 0 \<or> E_max_alloc X < off + int (length b)"
  shows "wp (WriteAt X fs b off) (\<lambda>r l s. \<exists>a. r = Abort a \<and> op_panics (OpWrite b off) h a) (w, h)"
proof -
  let ?P = "\<lambda>r l s. \<exists>a. r = Abort a \<and> op_panics (OpWrite b off) h a"
  have locked: "wp (bnd mu_Lock (\<lambda>_. with_defer mu_Unlock (write_locked X fs b off))) ?P (w1, h1)"
    if h1: "handler_inv X h1" for w1 h1
  proof -
    let ?h = "h1\<lparr>h_mu := WLocked\<rparr>"
    have "cache_inv X ?h" and u: "h_mu h1 = Unlocked" using h1 by (simp_all add: handler_inv_def)
    from write_locked_panics [OF this(1) ok small typed bad, of fs w1] obtain a h' where
      a: "write_locked X fs b off (w1, ?h) = (Abort a, [], (w1, h'))" "h_mu h' = WLocked"
        "a = MakeSlice \<or> a = SliceBounds \<and> (off < 0 \<or> 2 ^ 63 \<le> off + int (length b))" by auto
    then have p: "op_panics (OpWrite b off) h a" "a \<noteq> FatalUnlock" "a \<noteq> Blocked" by (auto simp: op_panics_def)
    show ?thesis
      by (rule wp_mono [OF wp_locked_panics [where m = "write_locked X fs b off", OF u a(1,2) p(2,3)]]) (use p(1) in simp)
  qed
  show ?thesis
  proof (cases "h_cacheValid h")
    case True
    then show ?thesis using locked [OF inv, of w] by (simp add: WriteAt_def wp_handler_step)
  next
    case False
    obtain r l w1 h1 where run: "downloadFile X fs (w, h) = (r, l, (w1, h1))" by (metis surj_pair)
    have post: "download_post X fs h r l h1"
      using wpD [OF wp_downloadFile [OF inv ok] run] by simp
    then have h1: "handler_inv X h1" by (simp add: download_post_def)
    let ?locked = "bnd mu_Lock (\<lambda>_. with_defer mu_Unlock (write_locked X fs b off)) (w1, h1)"
    obtain r' l' s' where step: "?locked = (r', l', s')" by (metis surj_pair)
    obtain a where a: "op_panics (OpWrite b off) h a" "?locked = (Abort a, l', s')"
      using wpD [OF locked [OF h1] step] step by blast
    let ?dl = "bnd (try_go (downloadFile X fs)) (\<lambda>_. ret ())"
    have dl: "?dl (w, h) = (case r of Abort a' \<Rightarrow> (Abort a', l, (w1, h1)) | _ \<Rightarrow> (Ok (), l, (w1, h1)))"
      using run by (simp add: go_defs split: result.split)
    have "WriteAt X fs b off (w, h) =
        bnd ?dl (\<lambda>_. bnd mu_Lock (\<lambda>_. with_defer mu_Unlock (write_locked X fs b off))) (w, h)"
      using False by (simp add: WriteAt_def bnd_get_h)
    also have "\<dots> = (case r of Abort a' \<Rightarrow> (Abort a', l, (w1, h1)) | _ \<Rightarrow> (Abort a, l @ l', s'))"
      unfolding bnd_def [of ?dl] dl using a(2) by (simp split: result.split)
    finally have "WriteAt X fs b off (w, h) = (case r of Abort a' \<Rightarrow> (Abort a', l, (w1, h1)) | _ \<Rightarrow> (Abort a, l @ l', s'))" .
    then show ?thesis
      using a(1) post by (cases r) (auto simp: wp_def download_post_def)
  qed
qed

lemma wp_step_write:
  assumes "handler_inv X h" "runtime_ok X" "E_max_alloc X < 2 ^ 62" "op_typed X (OpWrite b off)"
  shows "wp (file_step X fs (OpWrite b off)) (\<lambda>r l (w', h'). file_safe X (OpWrite b off) h r h') (w, h)"
proof (cases "0 \<le> off \<and> off + int (length b) \<le> E_max_alloc X")
  case True
  show ?thesis
    unfolding file_step_def file_op.case wp_bnd
    by (rule wp_mono [OF wp_WriteAt [OF assms(1,2) True [THEN conjunct1] True [THEN conjunct2]]])
      (auto simp: wp_ret file_safe_def WriteAt_post_def split: result.splits prod.splits)
next
  case False
  then have "off < 0 \<or> E_max_alloc X < off + int (length b)" by linarith
  from wp_write_outside [OF assms this] show ?thesis
    unfolding file_step_def file_op.case wp_bnd
    by (rule wp_mono) (auto simp: file_safe_def split: result.splits)
qed

subsection \<open>Truncation\<close>

text \<open>A size that no slice can have: the lock is given back and the allocation panics.\<close>

lemma resize_locked_panics:
  assumes "cache_inv X h" "E_max_alloc X < sz" "0 \<le> E_max_alloc X"
  shows "resize_locked X fs sz (w, h) = (Abort MakeSlice, [], (w, h))"
  using assms by (auto simp: resize_locked_def resize_cache_def cache_inv_def bnd_assoc bnd_get_h make_bytes_def abort_apply)

lemma wp_defer_resize_panics:
  assumes "handler_inv X h" "E_max_alloc X < sz" "0 \<le> E_max_alloc X"
  shows "wp (with_defer mu_Unlock (resize_locked X fs sz)) (\<lambda>r l s. r = Abort MakeSlice) (w, h\<lparr>h_mu := WLocked\<rparr>)"
  using assms resize_locked_panics [of X "h\<lparr>h_mu := WLocked\<rparr>" sz fs w]
  by (simp add: wp_with_defer wp_mu wp_def [of "resize_locked X fs sz"] handler_inv_def)

lemma wp_truncate_outside:
  assumes inv: "handler_inv X h" and ok: "runtime_ok X" and big: "E_max_alloc X < sz"
  shows "wp (Truncate X fs sz) (\<lambda>r l s. \<exists>a. r = Abort a \<and> op_panics (OpTruncate sz) h a) (w, h)"
proof -
  let ?P = "\<lambda>r l s. \<exists>a. r = Abort a \<and> op_panics (OpTruncate sz) h a"
  let ?locked = "bnd get_h (\<lambda>h. bnd (if \<not> h_cacheValid h then
            bnd mu_Unlock (\<lambda>_. bnd (downloadFile X fs) (\<lambda>_. mu_Lock)) else ret ())
          (\<lambda>_. resize_locked X fs sz))"
  have pos: "0 \<le> E_max_alloc X" "0 \<le> sz" using ok big by (auto simp: runtime_ok_def)
  have free: "h_mu h = Unlocked" using inv by (simp add: handler_inv_def)
  have "wp (with_defer mu_Unlock ?locked) ?P (w, h\<lparr>h_mu := WLocked\<rparr>)"
  proof (cases "h_cacheValid h")
    case True
    then have "?locked (w, h\<lparr>h_mu := WLocked\<rparr>) = resize_locked X fs sz (w, h\<lparr>h_mu := WLocked\<rparr>)"
      by (simp add: bnd_get_h)
    then show ?thesis
      using wp_defer_resize_panics [OF inv big pos(1), of fs w]
      by (simp add: wp_def with_defer_def op_panics_def split: prod.splits) auto
  next
    case False
    obtain r l w1 h1 where run: "downloadFile X fs (w, h) = (r, l, (w1, h1))" by (metis surj_pair)
    have post: "download_post X fs h r l h1"
      using wpD [OF wp_downloadFile [OF inv ok] run] by simp
    then have h1: "handler_inv X h1" "h_mu h1 = Unlocked" by (simp_all add: download_post_def handler_inv_def)
    have rest: "resize_locked X fs sz (w1, h1\<lparr>h_mu := WLocked\<rparr>) = (Abort MakeSlice, [], (w1, h1\<lparr>h_mu := WLocked\<rparr>))"
      using h1(1) big pos(1) by (intro resize_locked_panics) (simp_all add: handler_inv_def)
    show ?thesis
      using run free h1 post rest False pos
      by (cases r) (auto simp: wp_def go_defs mu_Unlock_def mu_Lock_def get_h_def set_h_def download_post_def op_panics_def)
  qed
  then show ?thesis
    using free pos by (simp add: Truncate_def wp_bnd wp_mu)
qed

lemma wp_step_truncate:
  assumes "handler_inv X h" "runtime_ok X"
  shows "wp (file_step X fs (OpTruncate sz)) (\<lambda>r l (w', h'). file_safe X (OpTruncate sz) h r h') (w, h)"
proof -
  consider "sz < 0" | "0 \<le> sz" "sz \<le> E_max_alloc X" | "E_max_alloc X < sz" by linarith
  then show ?thesis
  proof cases
    case 1
    then show ?thesis using assms(1)
      by (simp add: file_step_def wp_def go_defs Truncate_negative file_safe_def)
  next
    case 2
    show ?thesis
      unfolding file_step_def file_op.case wp_bnd wp_try_go
      by (rule wp_mono [OF wp_Truncate [OF assms 2]])
        (use 2 in \<open>auto simp: wp_ret file_safe_def Truncate_post_def op_panics_def split: result.splits\<close>)
  next
    case 3
    show ?thesis
      unfolding file_step_def file_op.case wp_bnd wp_try_go
      by (rule wp_mono [OF wp_truncate_outside [OF assms 3]]) (auto simp: file_safe_def split: result.splits)
  qed
qed

subsection \<open>Every request\<close>

lemma wp_step_safe:
  assumes "handler_inv X h" "runtime_ok X" "E_max_alloc X < 2 ^ 62" "op_typed X op"
  shows "wp (file_step X fs op) (\<lambda>r l (w', h'). file_safe X op h r h') (w, h)"
  using assms wp_step_read wp_step_write wp_step_truncate by (cases op) auto

text \<open>
  The steps of a session whose process is alive: those of the session in which no handler
  panicked. On the files they are an open that returned, a request on an open file that was
  answered, a close, and any step that leaves the files alone.
\<close>

inductive live_step :: "('w, 'c) env \<Rightarrow> 'c root \<Rightarrow> ('w, 'c) session \<Rightarrow> ('w, 'c) session \<Rightarrow> bool"
  for X :: "('w, 'c) env" and fs :: "'c root" where
  Live_open: "Fileread X fs r w = (res, l, w') \<or> Filewrite X fs r w = (res, l, w') \<Longrightarrow> (\<And>a. res \<noteq> Abort a) \<Longrightarrow>
    live_step X fs \<lparr>S_world = w, S_files = H, S_trace = T\<rparr>
      \<lparr>S_world = w', S_files = add_file H i res, S_trace = T @ [([R_Filepath r], l)]\<rparr>"
| Live_io: "H i = Some h \<Longrightarrow> op_typed X op \<Longrightarrow> file_step X fs op (w, h) = (Ok out, l, (w', h')) \<Longrightarrow>
    live_step X fs \<lparr>S_world = w, S_files = H, S_trace = T\<rparr>
      \<lparr>S_world = w', S_files = H(i := Some h'), S_trace = T @ [([h_filepath h], l)]\<rparr>"
| Live_close: "live_step X fs \<lparr>S_world = w, S_files = H, S_trace = T\<rparr>
      \<lparr>S_world = w, S_files = H(i := None), S_trace = T\<rparr>"
| Live_other: "session_step X fs s t \<Longrightarrow> S_files t = S_files s \<Longrightarrow> live_step X fs s t"

lemma live_step_session: "live_step X fs s t \<Longrightarrow> session_step X fs s t"
  by (induction rule: live_step.induct) (auto intro: session_step.intros)

definition files_inv :: "('w, 'c) env \<Rightarrow> ('w, 'c) session \<Rightarrow> bool" where
  "files_inv X s \<longleftrightarrow> (\<forall>i h. S_files s i = Some h \<longrightarrow> handler_inv X h)"

lemma opened_inv:
  assumes "Fileread X fs r w = (Ok h, l, w') \<or> Filewrite X fs r w = (Ok h, l, w')" "runtime_ok X"
  shows "handler_inv X h"
proof -
  have "OpenFile X fs r w = (Ok h, l, w')"
    using assms(1) by (auto simp: Fileread_def Filewrite_def fail_def split: if_splits)
  from wpD [OF wp_OpenFile this] have "\<exists>ref. h = newSftpFileHandler ref (R_Filepath r) (R_Flags r)"
    by (auto simp: opened_def)
  then show ?thesis using new_handler_inv [OF assms(2)] by auto
qed

lemma live_step_inv:
  assumes "live_step X fs s t" "runtime_ok X" "E_max_alloc X < 2 ^ 62" "files_inv X s"
  shows "files_inv X t"
  using assms
proof (induction rule: live_step.induct)
  case (Live_open r w res l w' H T i)
  then show ?case using opened_inv [of X fs r w _ l w']
    by (auto simp: files_inv_def add_file_def split: result.splits if_splits)
next
  case (Live_io H i h op w out l w' h' T)
  then have "handler_inv X h" by (simp add: files_inv_def)
  from wpD [OF wp_step_safe [OF this] Live_io(3)] Live_io have "handler_inv X h'"
    by (simp add: file_safe_def)
  then show ?case using Live_io by (simp add: files_inv_def)
qed (auto simp: files_inv_def split: if_splits)

lemma session_start_inv_files: "files_inv X (session_start w)"
  by (simp add: files_inv_def session_start_def)

lemma live_run_inv:
  assumes "(live_step X fs)\<^sup>*\<^sup>* (session_start w) s" "runtime_ok X" "E_max_alloc X < 2 ^ 62"
  shows "files_inv X s"
  using assms(1)
  by (induction rule: rtranclp_induct) (auto simp: session_start_inv_files dest: live_step_inv [OF _ assms(2,3)])

subsection \<open>Properties\<close>

text \<open>
  C5: every open file of a session that is alive is well formed. Whatever the client asked
  before, in any order and on any files, and whatever the services answered: its lock is
  free, its size is that of its cache and fits the memory, and a valid cache is there. The
  next request on it, with any offset or size the wire can carry, therefore never waits for
  a lock; it is answered and keeps all that, or it ends the process in one of the ways that
  \<open>op_panics\<close> lists.
\<close>

theorem live_files_well_formed:
  assumes "runtime_ok X" "E_max_alloc X < 2 ^ 62"
    "(live_step X fs)\<^sup>*\<^sup>* (session_start w0) s" "S_files s i = Some h"
  shows "handler_inv X h \<and>
    (\<forall>op w r l w' h'. op_typed X op \<and> file_step X fs op (w, h) = (r, l, (w', h')) \<longrightarrow>
      file_safe X op h r h' \<and> r \<noteq> Abort Blocked)"
proof -
  have inv: "handler_inv X h" using live_run_inv [OF assms(3,1,2)] assms(4) by (simp add: files_inv_def)
  have "file_safe X op h r h'" if "op_typed X op" "file_step X fs op (w, h) = (r, l, (w', h'))" for op w r l w' h'
    using wpD [OF wp_step_safe [OF inv assms(1,2) that(1)] that(2)] by simp
  then show ?thesis using inv by (fastforce simp: file_safe_def)
qed

theorem live_files_well_formed_witness:
  "\<exists>s h. (live_step mem_env mem_root)\<^sup>*\<^sup>* (session_start mem0) s \<and> S_files s 0 = Some h \<and> handler_inv mem_env h \<and>
     fst (file_step mem_env mem_root (OpRead [0] (- 1)) (mem0, h)) \<noteq> Abort Blocked"
proof -
  let ?r = "mem_req ''Get'' ''/Admin/a.txt''"
  obtain res l w' where run: "Filewrite mem_env mem_root ?r mem0 = (res, l, w')" by (metis surj_pair)
  have "case fst (Filewrite mem_env mem_root ?r mem0) of Ok h \<Rightarrow> True | _ \<Rightarrow> False" by code_simp
  then obtain h where h: "res = Ok h" using run by (auto split: result.splits)
  define s where "s = \<lparr>S_world = w', S_files = [0 \<mapsto> h], S_trace = [([R_Filepath ?r], l)]\<rparr>"
  have "live_step mem_env mem_root (session_start mem0) s"
    using Live_open [of mem_env mem_root ?r mem0 res l w' "\<lambda>_. None" "[]" 0] run h
    by (simp add: session_start_def s_def add_file_def)
  then have s: "(live_step mem_env mem_root)\<^sup>*\<^sup>* (session_start mem0) s" "S_files s 0 = Some h"
    by (auto simp: s_def)
  obtain r l2 w2 h2 where step: "file_step mem_env mem_root (OpRead [0] (- 1)) (mem0, h) = (r, l2, (w2, h2))"
    by (metis surj_pair)
  have "E_max_alloc mem_env < 2 ^ 62" "op_typed mem_env (OpRead [0] (- 1))"
    by (simp_all add: mem_env_def op_typed_def is_int64_def)
  then show ?thesis
    using live_files_well_formed [OF mem_runtime_ok _ s] step s by fastforce
qed

end
