(* ===== verification/VfsTree.thy ===== *)
theory VfsTree
  imports SftpHandlers Sample
begin

text \<open>
  What the file commands mean: an abstract file system of spaces and trees, and the proof
  that Remove, Rmdir, Mkdir and Rename requests implement its operations on every gateway
  that keeps such a tree. The gateway's documented behaviour is the hypothesis
  \<open>gateway_laws\<close>; \<open>V\<close> reads the tree off the state of the outside world.
\<close>

subsection \<open>The abstract file system\<close>

datatype fs_node = FsDir | FsFile

text \<open>A place is a space, by its id, and the names on the way down from its root.\<close>

type_synonym place = "string \<times> string list"
type_synonym fs_tree = "place \<Rightarrow> fs_node option"

definition below :: "place \<Rightarrow> place \<Rightarrow> bool" where
  "below a b \<longleftrightarrow> fst a = fst b \<and> take (length (snd a)) (snd b) = snd a"

definition prune :: "place \<Rightarrow> fs_tree \<Rightarrow> fs_tree" where
  "prune a t = (\<lambda>q. if below a q then None else t q)"

definition relocate :: "place \<Rightarrow> place \<Rightarrow> fs_tree \<Rightarrow> fs_tree" where
  "relocate a b t = (\<lambda>q.
     if below b q then t (fst a, snd a @ drop (length (snd b)) (snd q))
     else if below a q then None else t q)"

definition no_children :: "place \<Rightarrow> fs_tree \<Rightarrow> bool" where
  "no_children a t \<longleftrightarrow> (\<forall>x. t (fst a, snd a @ [x]) = None)"

definition parent_is_dir :: "place \<Rightarrow> fs_tree \<Rightarrow> bool" where
  "parent_is_dir a t \<longleftrightarrow> t (fst a, butlast (snd a)) = Some FsDir"

text \<open>A path is the name of a space and the names below; \<open>locate\<close> finds the space.\<close>

fun locate :: "storage_space list \<Rightarrow> string list \<Rightarrow> place option" where
  "locate spaces [] = None"
| "locate spaces (n # cs) =
     map_option (\<lambda>i. (i, cs)) (map_of (map (\<lambda>sp. (SpaceName sp, SpaceOpaqueId sp)) spaces) n)"

datatype fs_op = FsRemove "string list" | FsRmdir "string list" | FsMkdir "string list"
  | FsRename "string list" "string list"

datatype fs_out = FsDone | FsMissing | FsExists | FsInvalid | FsNotDir | FsNotEmpty | FsFailed

fun fs_step :: "storage_space list \<Rightarrow> fs_op \<Rightarrow> fs_tree \<Rightarrow> fs_out \<times> fs_tree" where
  "fs_step spaces (FsRemove p) t = (case locate spaces p of
      None \<Rightarrow> (FsMissing, t)
    | Some a \<Rightarrow> (case t a of
        None \<Rightarrow> (FsMissing, t) | Some FsDir \<Rightarrow> (FsInvalid, t) | Some FsFile \<Rightarrow> (FsDone, prune a t)))"
| "fs_step spaces (FsRmdir p) t = (case locate spaces p of
      None \<Rightarrow> (FsMissing, t)
    | Some a \<Rightarrow> (case t a of
        None \<Rightarrow> (FsMissing, t) | Some FsFile \<Rightarrow> (FsNotDir, t)
      | Some FsDir \<Rightarrow> if no_children a t then (FsDone, prune a t) else (FsNotEmpty, t)))"
| "fs_step spaces (FsMkdir p) t = (case locate spaces p of
      None \<Rightarrow> (FsMissing, t)
    | Some a \<Rightarrow>
        if t a \<noteq> None then (FsExists, t)
        else if parent_is_dir a t then (FsDone, t(a \<mapsto> FsDir)) else (FsFailed, t))"
| "fs_step spaces (FsRename p q) t = (case (locate spaces p, locate spaces q) of
      (Some a, Some b) \<Rightarrow>
        if fst a \<noteq> fst b then (FsFailed, t)
        else if t b \<noteq> None then (FsExists, t)
        else if t a = None then (FsMissing, t)
        else if parent_is_dir b t \<and> \<not> below a b then (FsDone, relocate a b t) else (FsFailed, t)
    | _ \<Rightarrow> (FsMissing, t))"

fun fs_run :: "storage_space list \<Rightarrow> fs_op list \<Rightarrow> fs_tree \<Rightarrow> fs_out list \<times> fs_tree" where
  "fs_run spaces [] t = ([], t)"
| "fs_run spaces (op # ops) t = (case fs_step spaces op t of
      (out, t) \<Rightarrow> (case fs_run spaces ops t of (outs, t) \<Rightarrow> (out # outs, t)))"

subsection \<open>The requests\<close>

definition path_of :: "string list \<Rightarrow> string" where
  "path_of cs = CHR ''/'' # slash_join cs"

fun op_request :: "fs_op \<Rightarrow> request" where
  "op_request (FsRemove p) = \<lparr>R_Method = ''Remove'', R_Filepath = path_of p, R_Target = [], R_Flags = 0\<rparr>"
| "op_request (FsRmdir p) = \<lparr>R_Method = ''Rmdir'', R_Filepath = path_of p, R_Target = [], R_Flags = 0\<rparr>"
| "op_request (FsMkdir p) = \<lparr>R_Method = ''Mkdir'', R_Filepath = path_of p, R_Target = [], R_Flags = 0\<rparr>"
| "op_request (FsRename p q) = \<lparr>R_Method = ''Rename'', R_Filepath = path_of p, R_Target = path_of q, R_Flags = 0\<rparr>"

text \<open>What a client can tell from the answer.\<close>

definition outcome :: "unit result \<Rightarrow> fs_out" where
  "outcome r = (case r of
      Ok _ \<Rightarrow> FsDone
    | Err e \<Rightarrow>
        if errors_Is e ErrNotExist then FsMissing else if errors_Is e ErrExist then FsExists
        else if errors_Is e ErrInvalid then FsInvalid else if errors_Is e ENOTDIR then FsNotDir
        else if e = New ''directory not empty'' then FsNotEmpty else FsFailed
    | Abort _ \<Rightarrow> FsFailed)"

definition result_of_try :: "go_error + unit \<Rightarrow> unit result" where
  "result_of_try r = (case r of Inl e \<Rightarrow> Err e | Inr u \<Rightarrow> Ok u)"

fun run_cmds :: "('w, 'c) env \<Rightarrow> 'c root \<Rightarrow> fs_op list \<Rightarrow> ('w, 'c event, fs_out list) go" where
  "run_cmds X fs [] = ret []"
| "run_cmds X fs (op # ops) =
     bnd (try_go (Filecmd X fs (op_request op))) (\<lambda>r.
     bnd (run_cmds X fs ops) (\<lambda>outs. ret (outcome (result_of_try r) # outs)))"

text \<open>A path inside a space.\<close>

definition inner_path :: "string list \<Rightarrow> bool" where
  "inner_path p \<longleftrightarrow> 2 \<le> length p \<and> list_all plain_name p"

fun inner_op :: "fs_op \<Rightarrow> bool" where
  "inner_op (FsRemove p) = inner_path p"
| "inner_op (FsRmdir p) = inner_path p"
| "inner_op (FsMkdir p) = inner_path p"
| "inner_op (FsRename p q) = (inner_path p \<and> inner_path q)"

subsection \<open>Paths\<close>

definition names_of :: "string \<Rightarrow> string list" where
  "names_of p = filter (\<lambda>c. c \<noteq> [] \<and> c \<noteq> ''.'') (slash_split p)"

lemma slash_split_join:
  "list_all plain_name cs \<Longrightarrow> cs \<noteq> [] \<Longrightarrow> slash_split (slash_join cs) = cs"
  by (induction cs rule: slash_join.induct)
    (auto simp: plain_name_def slash_split_single slash_split_append)

lemma names_of_path: "list_all plain_name cs \<Longrightarrow> names_of (path_of cs) = cs"
proof (cases "cs = []")
  case False
  assume p: "list_all plain_name cs"
  then have "filter (\<lambda>c. c \<noteq> [] \<and> c \<noteq> ''.'') cs = cs"
    by (induction cs) (auto simp: plain_name_def)
  then show ?thesis using False p by (simp add: names_of_def path_of_def slash_split_join)
qed (simp add: names_of_def path_of_def)

lemma slash_join_last:
  "list_all plain_name cs \<Longrightarrow> cs \<noteq> [] \<Longrightarrow> slash_join cs \<noteq> [] \<and> last (slash_join cs) \<noteq> CHR ''/''"
  by (induction cs rule: slash_join.induct) (auto simp: plain_name_def dest: last_in_set)

lemma split_path_of:
  assumes "list_all plain_name (n # cs)" "cs \<noteq> []"
  shows "SplitAbsolutePath (path_of (n # cs)) = (n, path_of cs)"
proof -
  have p: "path_of (n # cs) = CHR ''/'' # n @ path_of cs"
    using assms(2) by (cases cs) (simp_all add: path_of_def)
  have "last (path_of cs) \<noteq> CHR ''/''"
    using slash_join_last [of cs] assms by (simp add: path_of_def)
  then have "canonical_rest (path_of cs)"
    by (auto simp: canonical_rest_def HasSuffix_iff)
  then show ?thesis
    unfolding p using assms
    by (intro SplitAbsolutePath_join) (auto simp: proper_split_def path_of_def plain_name_def)
qed

lemma inner_pathE:
  assumes "inner_path p"
  obtains n cs where "p = n # cs" "SplitAbsolutePath (path_of p) = (n, path_of cs)" "list_all plain_name cs"
proof -
  obtain n c cs where p: "p = n # c # cs" using assms
    by (cases p; cases "tl p") (auto simp: inner_path_def)
  then show thesis using that [of n "c # cs"] assms split_path_of [of n "c # cs"] by (simp add: inner_path_def)
qed

subsection \<open>The gateway\<close>

text \<open>
  The place a reference names: the gateway knows which space a resource id belongs to
  (\<open>space_of\<close>) and walks down the names of the path, written with or without a leading dot.
\<close>

definition place_of :: "(resource_id \<Rightarrow> string) \<Rightarrow> reference \<Rightarrow> place" where
  "place_of space_of r = (space_of (RefResourceId r), names_of (RefPath r))"

definition naming_laws :: "revalib \<Rightarrow> storage_space list \<Rightarrow> (resource_id \<Rightarrow> string) \<Rightarrow> bool" where
  "naming_laws R spaces space_of \<longleftrightarrow>
     (\<forall>sp \<in> set spaces. \<exists>rid. ParseID R (SpaceOpaqueId sp) = Inr rid \<and>
        (\<forall>s. space_of (rid\<lparr>StorageId := s\<rparr>) = SpaceOpaqueId sp)) \<and>
     (\<forall>cs. list_all plain_name cs \<longrightarrow> names_of (MakeRelativePath R (path_of cs)) = cs)"

definition create_law ::
    "('w, 'c) gateway \<Rightarrow> 'c \<Rightarrow> (resource_id \<Rightarrow> string) \<Rightarrow> ('w \<Rightarrow> fs_tree) \<Rightarrow> bool" where
  "create_law G c space_of V \<longleftrightarrow>
     (\<forall>r w. \<exists>st w'. gw_CreateContainer G c r w = (Inr st, w') \<and>
        (if V w (place_of space_of r) \<noteq> None then GetCode st = CODE_ALREADY_EXISTS \<and> V w' = V w
         else if parent_is_dir (place_of space_of r) (V w)
           then GetCode st = CODE_OK \<and> V w' = (V w)(place_of space_of r \<mapsto> FsDir)
         else GetCode st \<notin> {CODE_OK, CODE_ALREADY_EXISTS} \<and> V w' = V w))"

definition move_law ::
    "('w, 'c) gateway \<Rightarrow> 'c \<Rightarrow> (resource_id \<Rightarrow> string) \<Rightarrow> ('w \<Rightarrow> fs_tree) \<Rightarrow> bool" where
  "move_law G c space_of V \<longleftrightarrow>
     (\<forall>r r' w. V w (place_of space_of r') = None \<longrightarrow> fst (place_of space_of r) = fst (place_of space_of r') \<longrightarrow>
        (\<exists>st w'. gw_Move G c (r, r') w = (Inr st, w') \<and>
           (if V w (place_of space_of r) = None then GetCode st = CODE_NOT_FOUND \<and> V w' = V w
            else if parent_is_dir (place_of space_of r') (V w) \<and> \<not> below (place_of space_of r) (place_of space_of r')
              then GetCode st = CODE_OK \<and> V w' = relocate (place_of space_of r) (place_of space_of r') (V w)
            else (\<exists>n. GetCode st = CODE_OTHER n) \<and> V w' = V w)))"

definition gateway_laws ::
    "('w, 'c) gateway \<Rightarrow> 'c \<Rightarrow> storage_space list \<Rightarrow> (resource_id \<Rightarrow> string) \<Rightarrow> ('w \<Rightarrow> fs_tree) \<Rightarrow> bool" where
  "gateway_laws G c spaces space_of V \<longleftrightarrow>
     (\<forall>w. \<exists>w'. gw_Next G w = (None, w') \<and> V w' = V w) \<and>
     (\<forall>q w. \<exists>res w'. gw_ListStorageSpaces G c q w = (Inr res, w') \<and> V w' = V w \<and>
        GetCode (SpacesStatus res) = CODE_OK \<and> StorageSpaces res = spaces) \<and>
     (\<forall>r w. \<exists>res w'. gw_Stat G c r w = (Inr res, w') \<and> V w' = V w \<and>
        (case V w (place_of space_of r) of
           None \<Rightarrow> GetCode (StatStatus res) = CODE_NOT_FOUND
         | Some n \<Rightarrow> GetCode (StatStatus res) = CODE_OK \<and>
             (InfoType (info_or_zero (StatInfo res)) = RESOURCE_TYPE_CONTAINER \<longleftrightarrow> n = FsDir))) \<and>
     (\<forall>r w. V w (place_of space_of r) = Some FsDir \<longrightarrow>
        (\<exists>res w'. gw_ListContainer G c r w = (Inr res, w') \<and> V w' = V w \<and>
           GetCode (ListStatus res) = CODE_OK \<and>
           (ListInfos res = [] \<longleftrightarrow> no_children (place_of space_of r) (V w)))) \<and>
     (\<forall>r w. V w (place_of space_of r) \<noteq> None \<longrightarrow>
        (\<exists>st w'. gw_Delete G c r w = (Inr st, w') \<and> GetCode st = CODE_OK \<and>
           V w' = prune (place_of space_of r) (V w))) \<and>
     create_law G c space_of V \<and> move_law G c space_of V"

text \<open>A weakest precondition that forgets the log.\<close>

definition runs :: "('s, 'e, 'a) go \<Rightarrow> ('a result \<Rightarrow> 's \<Rightarrow> bool) \<Rightarrow> 's \<Rightarrow> bool" where
  "runs m Q s \<longleftrightarrow> wp m (\<lambda>r l s'. Q r s') s"

lemma runs_simps [simp]:
  "runs (ret x) Q s = Q (Ok x) s" "runs (fail e) Q s = Q (Err e) s"
  "runs (bnd m f) Q s = runs m (\<lambda>r s'. case r of
      Ok x \<Rightarrow> runs (f x) Q s' | Err e \<Rightarrow> Q (Err e) s' | Abort a \<Rightarrow> Q (Abort a) s') s"
  "runs (try_go m) Q' s = runs m (\<lambda>r s'. case r of
      Ok x \<Rightarrow> Q' (Ok (Inr x)) s' | Err e \<Rightarrow> Q' (Ok (Inl e)) s' | Abort a \<Rightarrow> Q' (Abort a) s') s"
  by (simp_all add: runs_def wp_rules cong: result.case_cong)

lemma runs_mono: "runs m Q s \<Longrightarrow> (\<And>r s'. Q r s' \<Longrightarrow> Q' r s') \<Longrightarrow> runs m Q' s"
  by (auto simp: runs_def elim: wp_mono)

text \<open>The calls on a gateway that obeys the laws.\<close>

lemma runs_Next:
  assumes "gateway_laws (E_gw X) c spaces space_of V" "\<And>w'. V w' = V w \<Longrightarrow> Q (Ok ()) w'"
  shows "runs (call_Next X) Q w"
proof -
  obtain w' where "gw_Next (E_gw X) w = (None, w')" "V w' = V w"
    using assms(1) unfolding gateway_laws_def by blast
  then show ?thesis using assms(2) by (simp add: runs_def wp_rules)
qed

lemma runs_spaces_call:
  assumes "gateway_laws (E_gw X) c spaces space_of V"
    "\<And>res w'. V w' = V w \<Longrightarrow> GetCode (SpacesStatus res) = CODE_OK \<Longrightarrow> StorageSpaces res = spaces \<Longrightarrow> Q (Ok res) w'"
  shows "runs (rpc_call (gw_ListStorageSpaces (E_gw X)) ev c q) Q w"
proof -
  obtain res w' where "gw_ListStorageSpaces (E_gw X) c q w = (Inr res, w')" "V w' = V w"
    "GetCode (SpacesStatus res) = CODE_OK" "StorageSpaces res = spaces"
    using assms(1) unfolding gateway_laws_def by meson
  then show ?thesis using assms(2) by (simp add: runs_def wp_rules)
qed

lemma runs_Stat:
  assumes "gateway_laws (E_gw X) c spaces space_of V"
    "\<And>res w'. V w' = V w \<Longrightarrow> V w (place_of space_of r) = None \<Longrightarrow>
       GetCode (StatStatus res) = CODE_NOT_FOUND \<Longrightarrow> Q (Ok res) w'"
    "\<And>res w' n. V w' = V w \<Longrightarrow> V w (place_of space_of r) = Some n \<Longrightarrow> GetCode (StatStatus res) = CODE_OK \<Longrightarrow>
       (InfoType (info_or_zero (StatInfo res)) = RESOURCE_TYPE_CONTAINER \<longleftrightarrow> n = FsDir) \<Longrightarrow> Q (Ok res) w'"
  shows "runs (rpc_call (gw_Stat (E_gw X)) ev c r) Q w"
proof -
  obtain res w' where s: "gw_Stat (E_gw X) c r w = (Inr res, w')" "V w' = V w"
    "case V w (place_of space_of r) of None \<Rightarrow> GetCode (StatStatus res) = CODE_NOT_FOUND
       | Some n \<Rightarrow> GetCode (StatStatus res) = CODE_OK \<and>
           (InfoType (info_or_zero (StatInfo res)) = RESOURCE_TYPE_CONTAINER \<longleftrightarrow> n = FsDir)"
    using assms(1) unfolding gateway_laws_def by meson
  then show ?thesis
    using assms(2,3) by (cases "V w (place_of space_of r)") (auto simp: runs_def wp_rules)
qed

lemma runs_ListContainer:
  assumes "gateway_laws (E_gw X) c spaces space_of V" "V w (place_of space_of r) = Some FsDir"
    "\<And>res w'. V w' = V w \<Longrightarrow> GetCode (ListStatus res) = CODE_OK \<Longrightarrow>
       (ListInfos res = [] \<longleftrightarrow> no_children (place_of space_of r) (V w)) \<Longrightarrow> Q (Ok res) w'"
  shows "runs (rpc_call (gw_ListContainer (E_gw X)) ev c r) Q w"
proof -
  obtain res w' where "gw_ListContainer (E_gw X) c r w = (Inr res, w')" "V w' = V w"
    "GetCode (ListStatus res) = CODE_OK" "ListInfos res = [] \<longleftrightarrow> no_children (place_of space_of r) (V w)"
    using assms(1,2) unfolding gateway_laws_def by meson
  then show ?thesis using assms(3) by (simp add: runs_def wp_rules)
qed

lemma runs_Delete:
  assumes "gateway_laws (E_gw X) c spaces space_of V" "V w (place_of space_of r) \<noteq> None"
    "\<And>st w'. GetCode st = CODE_OK \<Longrightarrow> V w' = prune (place_of space_of r) (V w) \<Longrightarrow> Q (Ok st) w'"
  shows "runs (rpc_call (gw_Delete (E_gw X)) ev c r) Q w"
proof -
  obtain st w' where "gw_Delete (E_gw X) c r w = (Inr st, w')" "GetCode st = CODE_OK"
    "V w' = prune (place_of space_of r) (V w)"
    using assms(1,2) unfolding gateway_laws_def by meson
  then show ?thesis using assms(3) by (simp add: runs_def wp_rules)
qed

lemma runs_CreateContainer:
  assumes "gateway_laws (E_gw X) c spaces space_of V"
    "\<And>st w'. if V w (place_of space_of r) \<noteq> None then GetCode st = CODE_ALREADY_EXISTS \<and> V w' = V w
       else if parent_is_dir (place_of space_of r) (V w)
         then GetCode st = CODE_OK \<and> V w' = (V w)(place_of space_of r \<mapsto> FsDir)
       else GetCode st \<notin> {CODE_OK, CODE_ALREADY_EXISTS} \<and> V w' = V w \<Longrightarrow> Q (Ok st) w'"
  shows "runs (rpc_call (gw_CreateContainer (E_gw X)) ev c r) Q w"
proof -
  have "\<exists>st w'. gw_CreateContainer (E_gw X) c r w = (Inr st, w') \<and>
     (if V w (place_of space_of r) \<noteq> None then GetCode st = CODE_ALREADY_EXISTS \<and> V w' = V w
      else if parent_is_dir (place_of space_of r) (V w)
        then GetCode st = CODE_OK \<and> V w' = (V w)(place_of space_of r \<mapsto> FsDir)
      else GetCode st \<notin> {CODE_OK, CODE_ALREADY_EXISTS} \<and> V w' = V w)"
    using assms(1) unfolding gateway_laws_def create_law_def by iprover
  then show ?thesis using assms(2) by (elim exE conjE) (simp only: runs_def wp_rules prod.case result_of_sum_simps)
qed

lemma runs_Move:
  assumes "gateway_laws (E_gw X) c spaces space_of V" "V w (place_of space_of r') = None"
    "fst (place_of space_of r) = fst (place_of space_of r')"
    "\<And>st w'. if V w (place_of space_of r) = None then GetCode st = CODE_NOT_FOUND \<and> V w' = V w
       else if parent_is_dir (place_of space_of r') (V w) \<and> \<not> below (place_of space_of r) (place_of space_of r')
         then GetCode st = CODE_OK \<and> V w' = relocate (place_of space_of r) (place_of space_of r') (V w)
       else (\<exists>n. GetCode st = CODE_OTHER n) \<and> V w' = V w \<Longrightarrow> Q (Ok st) w'"
  shows "runs (rpc_call (gw_Move (E_gw X)) ev c (r, r')) Q w"
proof -
  have "\<exists>st w'. gw_Move (E_gw X) c (r, r') w = (Inr st, w') \<and>
     (if V w (place_of space_of r) = None then GetCode st = CODE_NOT_FOUND \<and> V w' = V w
      else if parent_is_dir (place_of space_of r') (V w) \<and> \<not> below (place_of space_of r) (place_of space_of r')
        then GetCode st = CODE_OK \<and> V w' = relocate (place_of space_of r) (place_of space_of r') (V w)
      else (\<exists>n. GetCode st = CODE_OTHER n) \<and> V w' = V w)"
    using assms(1) assms(2,3) unfolding gateway_laws_def move_law_def by iprover
  then show ?thesis using assms(4) by (elim exE conjE) (simp only: runs_def wp_rules prod.case result_of_sum_simps)
qed

lemma runs_list_spaces:
  assumes "gateway_laws (E_gw X) (authCtx fs) spaces space_of V" "\<And>w'. V w' = V w \<Longrightarrow> Q (Ok spaces) w'"
  shows "runs (listStorageSpaces X fs) Q w"
  unfolding listStorageSpaces_def runs_simps
  by (rule runs_Next [OF assms(1)], simp, rule runs_spaces_call [OF assms(1)]) (simp add: assms(2))

lemma reference_place:
  assumes "naming_laws R spaces space_of" "sp \<in> set spaces" "list_all plain_name cs"
  obtains ref where "MakeStorageSpaceReference R (SpaceOpaqueId sp) (path_of cs) = Ok ref"
    "place_of space_of ref = (SpaceOpaqueId sp, cs)" "space_of (RefResourceId ref) = SpaceOpaqueId sp"
proof -
  obtain rid where rid: "ParseID R (SpaceOpaqueId sp) = Inr rid"
    "\<And>s. space_of (rid\<lparr>StorageId := s\<rparr>) = SpaceOpaqueId sp"
    using assms(1,2) unfolding naming_laws_def by meson
  have "space_of rid = SpaceOpaqueId sp" using rid(2) [of "StorageId rid"] by simp
  moreover have "names_of (MakeRelativePath R (path_of cs)) = cs"
    using assms(1,3) by (simp add: naming_laws_def)
  ultimately show thesis
    using rid that by (simp add: MakeStorageSpaceReference_def Let_def place_of_def split: if_splits)
qed

lemma locate_space_named:
  "locate spaces (n # cs) = map_option (\<lambda>sp. (SpaceOpaqueId sp, cs)) (space_named n spaces)"
  by (induction spaces) auto

lemma find_inner:
  assumes "naming_laws R spaces space_of" "inner_path p"
  shows "(locate spaces p = None \<and> (\<exists>rel. FindSpaceForPath (path_of p) spaces = Ok (None, rel))) \<or>
    (\<exists>sp ref cs. locate spaces p = Some (SpaceOpaqueId sp, cs) \<and> list_all plain_name cs \<and>
       FindSpaceForPath (path_of p) spaces = Ok (Some sp, path_of cs) \<and>
       MakeStorageSpaceReference R (SpaceOpaqueId sp) (path_of cs) = Ok ref \<and>
       place_of space_of ref = (SpaceOpaqueId sp, cs) \<and> space_of (RefResourceId ref) = SpaceOpaqueId sp)"
proof (rule inner_pathE [OF assms(2)])
  fix n cs
  assume p: "p = n # cs" "SplitAbsolutePath (path_of p) = (n, path_of cs)" "list_all plain_name cs"
  show ?thesis
  proof (cases "space_named n spaces")
    case None
    then show ?thesis using p(2) by (simp add: FindSpaceForPath_def p(1) locate_space_named del: locate.simps)
  next
    case (Some sp)
    then have "sp \<in> set spaces" by (simp add: space_named_in)
    then obtain ref where "MakeStorageSpaceReference R (SpaceOpaqueId sp) (path_of cs) = Ok ref"
      "place_of space_of ref = (SpaceOpaqueId sp, cs)" "space_of (RefResourceId ref) = SpaceOpaqueId sp"
      by (rule reference_place [OF assms(1) _ p(3)])
    moreover have "FindSpaceForPath (path_of p) spaces = Ok (Some sp, path_of cs)"
      "locate spaces p = Some (SpaceOpaqueId sp, cs)"
      using p(2) Some by (simp_all add: FindSpaceForPath_def p(1) locate_space_named del: locate.simps)
    ultimately show ?thesis using p(3) by blast
  qed
qed

subsection \<open>The commands refine the abstract operations\<close>

text \<open>The answer and the tree that the abstract step gives.\<close>

definition gives :: "('w \<Rightarrow> fs_tree) \<Rightarrow> fs_out \<times> fs_tree \<Rightarrow> unit result \<Rightarrow> 'w \<Rightarrow> bool" where
  "gives V ot r w \<longleftrightarrow> (outcome r, V w) = ot \<and> (\<forall>a. r \<noteq> Abort a)"

lemma gives_simps [simp]:
  "gives V ot (Ok u) w \<longleftrightarrow> ot = (FsDone, V w)"
  "gives V ot (Err e) w \<longleftrightarrow> ot = (outcome (Err e), V w)"
  "\<not> gives V ot (Abort a) w"
  by (auto simp: gives_def outcome_def)

lemma outcome_errors [simp]:
  "outcome (Err ErrNotExist) = FsMissing" "outcome (Err ErrExist) = FsExists"
  "outcome (Err ErrInvalid) = FsInvalid" "outcome (Err ENOTDIR) = FsNotDir"
  "outcome (Err (New ''directory not empty'')) = FsNotEmpty"
  "outcome (Err (Errorf ''failed to create container: %w'' [FWrap ErrExist])) = FsExists"
  "outcome (Err (Errorf f [FStr s])) = FsFailed" "outcome (Err (Errorf f [])) = FsFailed"
  by (simp_all add: outcome_def errors_Is.simps wraps_Is.simps)

text \<open>
  Every command finds its space first: either there is none, or the rest runs on the
  reference of the place.
\<close>

lemma runs_resolve:
  assumes L: "gateway_laws (E_gw X) (authCtx fs) spaces space_of V" and N: "naming_laws (E_reva X) spaces space_of"
    and p: "inner_path p"
    and none: "\<And>w'. locate spaces p = None \<Longrightarrow> V w' = V w \<Longrightarrow> Q (Err ErrNotExist) w'"
    and some: "\<And>w' ref cs. V w' = V w \<Longrightarrow> locate spaces p = Some (place_of space_of ref) \<Longrightarrow>
      place_of space_of ref = (space_of (RefResourceId ref), cs) \<Longrightarrow> list_all plain_name cs \<Longrightarrow> runs (k (path_of cs) ref) Q w'"
  shows "runs (bnd (listStorageSpaces X fs) (\<lambda>storageSpaces.
     bnd (of_result (FindSpaceForPath (path_of p) storageSpaces)) (\<lambda>(spc, relPath).
     case spc of None \<Rightarrow> fail ErrNotExist | Some spc \<Rightarrow>
     bnd (of_result (MakeStorageSpaceReference (E_reva X) (SpaceOpaqueId spc) relPath)) (\<lambda>ref. k relPath ref)))) Q w"
  unfolding runs_simps
proof (rule runs_list_spaces [OF L], goal_cases)
  case (1 w1)
  from find_inner [OF N p] show ?case
  proof (elim disjE exE conjE, goal_cases)
    case 1
    then show ?case using none \<open>V w1 = V w\<close> by simp
  next
    case (2 sp ref cs)
    then show ?case using some [of w1 ref cs] \<open>V w1 = V w\<close> by simp
  qed
qed

lemma remove_refines:
  assumes L: "gateway_laws (E_gw X) (authCtx fs) spaces space_of V" and N: "naming_laws (E_reva X) spaces space_of"
    and p: "inner_path p"
  shows "runs (root_remove X fs (path_of p)) (gives V (fs_step spaces (FsRemove p) (V w))) w"
  unfolding root_remove_def
proof (rule runs_resolve [OF L N p], goal_cases)
  case (2 w1 ref cs)
  show ?case
    by (simp, rule runs_Next [OF L], simp, rule runs_Stat [OF L])
      (use 2 in \<open>auto intro!: runs_Delete [OF L] split: fs_node.split\<close>)
qed simp

lemma rmdir_refines:
  assumes L: "gateway_laws (E_gw X) (authCtx fs) spaces space_of V" and N: "naming_laws (E_reva X) spaces space_of"
    and p: "inner_path p"
  shows "runs (root_rmdir X fs (path_of p)) (gives V (fs_step spaces (FsRmdir p) (V w))) w"
  unfolding root_rmdir_def
proof (rule runs_resolve [OF L N p], goal_cases)
  case (2 w1 ref cs)
  show ?case
    by (simp, rule runs_Next [OF L], simp, rule runs_Stat [OF L])
      (use 2 in \<open>auto intro!: runs_Delete [OF L] runs_ListContainer [OF L] split: fs_node.split\<close>)
qed simp

lemma mkdir_refines:
  assumes L: "gateway_laws (E_gw X) (authCtx fs) spaces space_of V" and N: "naming_laws (E_reva X) spaces space_of"
    and p: "inner_path p"
  shows "runs (root_mkdir X fs (path_of p)) (gives V (fs_step spaces (FsMkdir p) (V w))) w"
  unfolding root_mkdir_def
proof (rule runs_resolve [OF L N p], goal_cases)
  case (2 w1 ref cs)
  then have pl: "place_of space_of \<lparr>RefResourceId = RefResourceId ref, RefPath = path_of cs\<rparr> = place_of space_of ref"
    by (simp add: place_of_def names_of_path)
  show ?case
    by (simp, rule runs_Next [OF L], simp, rule runs_CreateContainer [OF L])
      (use 2 pl in \<open>auto split: if_splits\<close>)
qed simp

lemma rename_refines:
  assumes L: "gateway_laws (E_gw X) (authCtx fs) spaces space_of V" and N: "naming_laws (E_reva X) spaces space_of"
    and p: "inner_path p" and q: "inner_path q"
  shows "runs (root_renameFile X fs (path_of p) (path_of q) False) (gives V (fs_step spaces (FsRename p q) (V w))) w"
  unfolding root_renameFile_def runs_simps
proof (rule runs_list_spaces [OF L], goal_cases)
  case (1 w1)
  from find_inner [OF N p] find_inner [OF N q] show ?case
  proof (elim disjE exE conjE, goal_cases)
    case (4 sp sp' ref ref' cs cs')
    show ?case
    proof (cases "SpaceOpaqueId sp = SpaceOpaqueId sp'")
      case same: True
      note f = 4 [unfolded same]
      show ?thesis
        by (simp add: f same del: fs_step.simps, rule runs_Next [OF L], simp del: fs_step.simps,
            rule runs_Stat [OF L])
          (use 1 f in \<open>auto intro!: runs_Move [OF L] split: if_splits rpc_code.split\<close>)
    qed (use 1 4 in simp)
  qed (use 1 in simp_all)
qed

lemma command_refines:
  assumes L: "gateway_laws (E_gw X) (authCtx fs) spaces space_of V" and N: "naming_laws (E_reva X) spaces space_of"
    and op: "inner_op op"
  shows "runs (Filecmd X fs (op_request op)) (gives V (fs_step spaces op (V w))) w"
  using op
  by (cases op) (simp_all add: Filecmd_def root_rename_def remove_refines [OF L N] rmdir_refines [OF L N]
      mkdir_refines [OF L N] rename_refines [OF L N] del: fs_step.simps)

lemma commands_refine:
  assumes L: "gateway_laws (E_gw X) (authCtx fs) spaces space_of V" and N: "naming_laws (E_reva X) spaces space_of"
    and "list_all inner_op ops"
  shows "runs (run_cmds X fs ops) (\<lambda>r w'. \<exists>outs. r = Ok outs \<and> (outs, V w') = fs_run spaces ops (V w)) w"
  using assms(3)
proof (induction ops arbitrary: w)
  case (Cons op ops)
  obtain out t where o: "fs_step spaces op (V w) = (out, t)" by force
  have "runs (Filecmd X fs (op_request op)) (gives V (fs_step spaces op (V w))) w"
    using Cons.prems by (intro command_refines [OF L N]) simp
  then have step: "runs (Filecmd X fs (op_request op)) (\<lambda>r w'. outcome r = out \<and> V w' = t \<and> (\<forall>a. r \<noteq> Abort a)) w"
    by (rule runs_mono) (simp add: gives_def o)
  show ?case
    unfolding run_cmds.simps runs_simps
  proof (rule runs_mono [OF step], goal_cases)
    case (1 r w1)
    have IH: "runs (run_cmds X fs ops) (\<lambda>r w'. \<exists>outs. r = Ok outs \<and> (outs, V w') = fs_run spaces ops (V w1)) w1"
      using Cons by simp
    have "runs (run_cmds X fs ops) (\<lambda>r' s'. \<exists>outs. r' = Ok outs \<and> (out # outs, V s') = fs_run spaces (op # ops) (V w)) w1"
      by (rule runs_mono [OF IH]) (use 1 o in \<open>auto split: prod.splits\<close>)
    then show ?case
      using 1 by (cases r) (auto simp: result_of_try_def elim!: runs_mono)
  qed
qed simp

end
