(* ===== verification/VfsTreeProps.thy ===== *)
theory VfsTreeProps
  imports VfsTree
begin

text \<open>
  The refinement of the file commands as a property, and a small gateway that obeys the
  laws it assumes: a store of places, with one space.
\<close>

subsection \<open>A store\<close>

type_synonym tree_store = "(place \<times> fs_node) list"

definition tree_space :: storage_space where
  "tree_space = \<lparr>SpaceOpaqueId = ''st$sp1'', SpaceName = ''Admin'', SpaceMtime = None\<rparr>"

definition tree_space_of :: "resource_id \<Rightarrow> string" where
  "tree_space_of rid = (if SpaceId rid = ''sp1'' then ''st$sp1'' else [])"

abbreviation tree_place :: "reference \<Rightarrow> place" where
  "tree_place \<equiv> place_of tree_space_of"

definition node_info :: "fs_node \<Rightarrow> resource_info" where
  "node_info n = mem_info [] (case n of FsDir \<Rightarrow> MDir | FsFile \<Rightarrow> MFile [])"

definition is_child :: "place \<Rightarrow> place \<Rightarrow> bool" where
  "is_child a k \<longleftrightarrow> fst k = fst a \<and> snd k \<noteq> [] \<and> butlast (snd k) = snd a"

definition moved :: "place \<Rightarrow> place \<Rightarrow> place \<Rightarrow> place" where
  "moved a b k = (if below a k then (fst b, snd b @ drop (length (snd a)) (snd k)) else k)"

definition tree_move :: "place \<Rightarrow> place \<Rightarrow> tree_store \<Rightarrow> tree_store" where
  "tree_move a b w = map (\<lambda>e. (moved a b (fst e), snd e)) (filter (\<lambda>e. below a (fst e) \<or> \<not> below b (fst e)) w)"

definition tree_gateway :: "(tree_store, mctx) gateway" where
  "tree_gateway =
     \<lparr>gw_Next = (\<lambda>w. (None, w)),
      gw_Authenticate = (\<lambda>c q w. (Inl (Ext ''unsupported''), w)),
      gw_ListStorageSpaces = (\<lambda>c q w. (Inr \<lparr>SpacesStatus = st_of CODE_OK, StorageSpaces = [tree_space]\<rparr>, w)),
      gw_Stat = (\<lambda>c r w. (Inr (case map_of w (tree_place r) of
          None \<Rightarrow> \<lparr>StatStatus = st_of CODE_NOT_FOUND, StatInfo = None\<rparr>
        | Some n \<Rightarrow> \<lparr>StatStatus = st_of CODE_OK, StatInfo = Some (node_info n)\<rparr>), w)),
      gw_ListContainer = (\<lambda>c r w. (Inr \<lparr>ListStatus = st_of CODE_OK,
          ListInfos = map (\<lambda>e. node_info (snd e)) (filter (\<lambda>e. is_child (tree_place r) (fst e)) w)\<rparr>, w)),
      gw_CreateContainer = (\<lambda>c r w.
          if map_of w (tree_place r) \<noteq> None then (Inr (st_of CODE_ALREADY_EXISTS), w)
          else if parent_is_dir (tree_place r) (map_of w) then (Inr (st_of CODE_OK), (tree_place r, FsDir) # w)
          else (Inr (st_of CODE_NOT_FOUND), w)),
      gw_TouchFile = (\<lambda>c r w. (Inl (Ext ''unsupported''), w)),
      gw_Move = (\<lambda>c (r, r') w.
          if map_of w (tree_place r) = None then (Inr (st_of CODE_NOT_FOUND), w)
          else if parent_is_dir (tree_place r') (map_of w) \<and> \<not> below (tree_place r) (tree_place r')
            then (Inr (st_of CODE_OK), tree_move (tree_place r) (tree_place r') w)
          else (Inr (st_of (CODE_OTHER 9)), w)),
      gw_Delete = (\<lambda>c r w.
          if map_of w (tree_place r) = None then (Inr (st_of CODE_NOT_FOUND), w)
          else (Inr (st_of CODE_OK), filter (\<lambda>e. \<not> below (tree_place r) (fst e)) w)),
      gw_InitiateFileDownload = (\<lambda>c r w. (Inl (Ext ''unsupported''), w)),
      gw_InitiateFileUpload = (\<lambda>c q w. (Inl (Ext ''unsupported''), w))\<rparr>"

definition tree_env :: "(tree_store, mctx) env" where
  "tree_env = \<lparr>E_gw = tree_gateway,
     E_http = \<lparr>http_NewRequest = (\<lambda>_ _. None), http_Do = (\<lambda>q w. (Inl (Ext ''unsupported''), w))\<rparr>,
     E_ctx = mem_ctxlib, E_reva = mem_reva, E_ssh = mem_ssh, E_sftp = mem_sftp, E_max_alloc = 2 ^ 40\<rparr>"

subsection \<open>It obeys the laws\<close>

lemma below_append: "below a k \<longleftrightarrow> (\<exists>r. k = (fst a, snd a @ r))"
  by (cases k) (auto simp: below_def, metis append_take_drop_id)

lemma map_of_prune: "map_of (filter (\<lambda>e. \<not> below a (fst e)) w) = prune a (map_of w)"
  by (induction w) (auto simp: prune_def fun_eq_iff)

lemma map_of_move:
  assumes "fst a = fst b"
  shows "map_of (tree_move a b w) = relocate a b (map_of w)"
proof
  fix q
  show "map_of (tree_move a b w) q = relocate a b (map_of w) q"
  proof (cases "below b q")
    case True
    then obtain r where q: "q = (fst b, snd b @ r)" by (auto simp: below_append)
    have key: "moved a b k = q \<longleftrightarrow> k = (fst a, snd a @ r)" if "below a k \<or> \<not> below b k" for k
      using that q by (auto simp: moved_def below_append)
    have none: "k \<noteq> (fst a, snd a @ r)" if "\<not> below a k" for k
      using that by (auto simp: below_append)
    have "map_of (tree_move a b w) q = map_of w (fst a, snd a @ r)"
    proof (induction w)
      case (Cons e w)
      obtain k n where e: "e = (k, n)" by (cases e)
      have "moved a b k = q \<longleftrightarrow> k = (fst a, snd a @ r)" if "below a k \<or> \<not> below b k" by (rule key [OF that])
      moreover have "k \<noteq> (fst a, snd a @ r)" if "\<not> (below a k \<or> \<not> below b k)" using none that by blast
      ultimately show ?case
        using Cons by (cases "below a k \<or> \<not> below b k") (auto simp: tree_move_def e)
    qed (simp add: tree_move_def)
    then show ?thesis using q True by (simp add: relocate_def)
  next
    case False
    have key: "moved a b k = q \<longleftrightarrow> \<not> below a k \<and> k = q" for k
      using False by (auto simp: moved_def below_append)
    have "map_of (tree_move a b w) q = (if below a q then None else map_of w q)"
    proof (induction w)
      case (Cons e w)
      obtain k n where e: "e = (k, n)" by (cases e)
      then show ?case
        using Cons key [of k] False
        by (cases "below a k \<or> \<not> below b k") (auto simp: tree_move_def)
    qed (simp add: tree_move_def)
    then show ?thesis using False by (simp add: relocate_def)
  qed
qed

lemma no_children_filter: "filter (\<lambda>e. is_child a (fst e)) w = [] \<longleftrightarrow> no_children a (map_of w)"
proof -
  have child: "is_child a k \<longleftrightarrow> (\<exists>x. k = (fst a, snd a @ [x]))" for k
    by (cases k) (auto simp: is_child_def, metis append_butlast_last_id)
  have "filter (\<lambda>e. is_child a (fst e)) w = [] \<longleftrightarrow> (\<forall>k \<in> fst ` set w. \<not> is_child a k)"
    by (auto simp: filter_empty_conv)
  also have "\<dots> \<longleftrightarrow> (\<forall>x. (fst a, snd a @ [x]) \<notin> fst ` set w)"
    unfolding child by blast
  also have "\<dots> \<longleftrightarrow> no_children a (map_of w)"
    by (simp add: no_children_def map_of_eq_None_iff)
  finally show ?thesis .
qed

lemma tree_gateway_laws: "gateway_laws (E_gw tree_env) c [tree_space] tree_space_of map_of"
  unfolding gateway_laws_def
proof (intro conjI)
  show "create_law (E_gw tree_env) c tree_space_of map_of"
    by (auto simp: create_law_def tree_env_def tree_gateway_def st_of_def)
  show "move_law (E_gw tree_env) c tree_space_of map_of"
    by (auto simp: move_law_def tree_env_def tree_gateway_def st_of_def map_of_move)
qed (auto simp: tree_env_def tree_gateway_def st_of_def map_of_prune no_children_filter
    node_info_def mem_info_def info_or_zero_def split: option.split fs_node.split)

lemma tree_naming_laws: "naming_laws (E_reva tree_env) [tree_space] tree_space_of"
proof -
  have "names_of (mem_relative (path_of cs)) = cs" if p: "list_all plain_name cs" for cs
  proof (cases "cs = []")
    case False
    then have "slash_join cs \<noteq> []" using slash_join_last [OF p] by blast
    then have "mem_relative (path_of cs) = CHR ''.'' # path_of cs" by (simp add: mem_relative_def path_of_def)
    moreover have "names_of (CHR ''.'' # path_of cs) = names_of (path_of cs)"
      by (simp add: names_of_def path_of_def)
    ultimately show ?thesis using names_of_path [OF p] by simp
  qed (simp add: mem_relative_def path_of_def names_of_def)
  then show ?thesis
    by (simp add: naming_laws_def tree_env_def mem_reva_def tree_space_def mem_parse_id_def mem_rid_def
        tree_space_of_def)
qed

subsection \<open>The property\<close>

text \<open>
  C7: the file commands implement a file system of spaces and trees. On a gateway that keeps
  such a tree and answers as documented, any sequence of Remove, Rmdir, Mkdir and Rename
  requests on paths inside spaces gets exactly the answers, and leaves exactly the tree, of
  the abstract operations run in that order: a directory is never unlinked by Remove, a
  directory with entries never removed, an existing target never renamed over, nothing moved
  out of its space or into itself, and every other path keeps what it had.
\<close>

theorem commands_refine_tree:
  assumes "gateway_laws (E_gw X) (authCtx fs) spaces space_of V" "naming_laws (E_reva X) spaces space_of"
    "list_all inner_op ops"
  shows "wp (run_cmds X fs ops) (\<lambda>r l w'. \<exists>outs. r = Ok outs \<and> (outs, V w') = fs_run spaces ops (V w)) w"
  using commands_refine [OF assms, of w] by (simp add: runs_def)

definition tree0 :: tree_store where
  "tree0 = [((''st$sp1'', []), FsDir), ((''st$sp1'', [''docs'']), FsDir), ((''st$sp1'', [''docs'', ''a'']), FsFile),
     ((''st$sp1'', [''empty'']), FsDir)]"

definition tree_ops :: "fs_op list" where
  "tree_ops = [FsRemove [''Admin'', ''docs''], FsRmdir [''Admin'', ''docs''],
     FsRename [''Admin'', ''docs'', ''a''] [''Admin'', ''empty'', ''b''], FsRmdir [''Admin'', ''docs''],
     FsRemove [''Other'', ''x''], FsMkdir [''Admin'', ''empty'']]"

theorem commands_refine_tree_witness:
  "wp (run_cmds tree_env \<lparr>authCtx = mem_ctx\<rparr> tree_ops)
     (\<lambda>r l w'. \<exists>outs. r = Ok outs \<and> (outs, map_of w') = fs_run [tree_space] tree_ops (map_of tree0)) tree0 \<and>
   fst (run_cmds tree_env \<lparr>authCtx = mem_ctx\<rparr> tree_ops tree0) =
     Ok [FsInvalid, FsNotEmpty, FsDone, FsDone, FsMissing, FsExists]"
proof (rule conjI)
  have "list_all inner_op tree_ops" by code_simp
  then show "wp (run_cmds tree_env \<lparr>authCtx = mem_ctx\<rparr> tree_ops)
     (\<lambda>r l w'. \<exists>outs. r = Ok outs \<and> (outs, map_of w') = fs_run [tree_space] tree_ops (map_of tree0)) tree0"
    by (rule commands_refine_tree [OF tree_gateway_laws tree_naming_laws])
qed code_simp

end
