(* ===== verification/Writers.thy ===== *)
theory Writers
  imports FileProps
begin

text \<open>
  Concurrent writes to one open file. The SFTP library runs the requests of a client in
  several goroutines, so calls of WriteAt on a handler interleave. A call is cut into the
  steps between which others can act: the unlocked look at cacheValid, the network part of
  the download, its critical section, the change of the cache, and the upload, the last two
  under the lock. Run alone, the steps are WriteAt.
\<close>

subsection \<open>The parts of a download\<close>

text \<open>What downloadFile fetches: the contents, and the new etag when the file exists.\<close>

type_synonym fetched = "byte list \<times> string option"

definition fetchFile :: "('w, 'c) env \<Rightarrow> 'c root \<Rightarrow> reference \<Rightarrow> ('w, 'c event, fetched) go" where
  "fetchFile X fs ref =
     bnd (call_Next X) (\<lambda>_.
     bnd (rpc_call (gw_Stat (E_gw X)) EvStat (authCtx fs) ref) (\<lambda>statResp.
     bnd (deref (StatStatus statResp)) (\<lambda>st.
     if StatusCode st \<noteq> CODE_OK \<and> StatusCode st \<noteq> CODE_NOT_FOUND then
       fail (Errorf ''stat failed: %s'' [FStr (StatusMessage st)])
     else if StatusCode st = CODE_NOT_FOUND then ret ([], None)
     else
     bnd (rpc_call (gw_InitiateFileDownload (E_gw X)) EvInitiateFileDownload (authCtx fs) ref) (\<lambda>resp.
     bnd (deref (TransferStatus resp)) (\<lambda>st.
     if StatusCode st \<noteq> CODE_OK then
       fail (Errorf ''initiate download failed: %s'' [FStr (StatusMessage st)])
     else
     case pick_protocol (Protocols resp) of (downloadEndpoint, downloadToken) \<Rightarrow>
     if downloadEndpoint = [] then fail (Errorf ''no suitable download protocol found'' [])
     else
     bnd (of_result (NewRequest X ''GET'' downloadEndpoint [])) (\<lambda>httpReq.
     bnd (call_Do X (with_auth X fs downloadToken httpReq)) (\<lambda>httpResp.
     if HttpStatusCode httpResp \<noteq> 200 then
       fail (Errorf ''download failed with status: %d'' [FInt (HttpStatusCode httpResp)])
     else
     bnd (of_result (ReadAll X httpResp)) (\<lambda>(content, err).
     case err of Some err \<Rightarrow> fail err | None \<Rightarrow> ret (content, Some (HttpETag httpResp))))))))))"

definition storeFetched :: "fetched \<Rightarrow> ('w, 'c, unit) hgo" where
  "storeFetched f = (case f of (content, etag) \<Rightarrow>
     bnd mu_Lock (\<lambda>_.
     bnd (set_h (\<lambda>h. h\<lparr>h_cache := Some content, h_cacheValid := True, h_fileSize := int (length content),
                       h_etag := (case etag of None \<Rightarrow> h_etag h | Some t \<Rightarrow> t)\<rparr>)) (\<lambda>_.
     mu_Unlock)))"

lemma on_world_simps:
  "on_world (bnd m f) = bnd (on_world m) (\<lambda>x. on_world (f x))"
  "on_world (ret x) = ret x" "on_world (fail e) = fail e" "on_world (abort a) = abort a"
  "on_world (of_result r) = of_result r" "on_world (deref p) = deref p"
  by (auto simp: go_defs deref_def fun_eq_iff split: prod.splits result.splits option.splits)

lemma etag_kept: "h\<lparr>h_cache := c, h_cacheValid := v, h_fileSize := n, h_etag := h_etag h\<rparr> =
    h\<lparr>h_cache := c, h_cacheValid := v, h_fileSize := n\<rparr>"
  by (cases h) simp

text \<open>Both move into the branches of a case distinction.\<close>

lemma on_world_branches:
  "on_world (if b then m else m') = (if b then on_world m else on_world m')"
  "on_world (case p of (x, y) \<Rightarrow> f x y) = (case p of (x, y) \<Rightarrow> on_world (f x y))"
  "on_world (case z of None \<Rightarrow> m | Some x \<Rightarrow> g x) = (case z of None \<Rightarrow> on_world m | Some x \<Rightarrow> on_world (g x))"
  by (simp_all split: prod.split option.split)

lemma bnd_branches:
  "bnd (if b then m else m') k = (if b then bnd m k else bnd m' k)"
  "bnd (case p of (x, y) \<Rightarrow> f x y) k = (case p of (x, y) \<Rightarrow> bnd (f x y) k)"
  "bnd (case z of None \<Rightarrow> m | Some x \<Rightarrow> g x) k = (case z of None \<Rightarrow> bnd m k | Some x \<Rightarrow> bnd (g x) k)"
  by (simp_all split: prod.split option.split)

lemma downloadFile_split:
  "downloadFile X fs = bnd get_h (\<lambda>h. bnd (on_world (fetchFile X fs (h_ref h))) storeFetched)"
proof -
  have store: "storeFetched ([], None) = bnd mu_Lock (\<lambda>_.
       bnd (set_h (\<lambda>h. h\<lparr>h_cache := Some [], h_cacheValid := True, h_fileSize := 0\<rparr>)) (\<lambda>_. mu_Unlock))"
    "storeFetched (content, Some t) = bnd mu_Lock (\<lambda>_.
       bnd (set_h (\<lambda>h. h\<lparr>h_cache := Some content, h_cacheValid := True,
                        h_fileSize := int (length content), h_etag := t\<rparr>)) (\<lambda>_. mu_Unlock))" for content t
    by (simp_all add: storeFetched_def etag_kept)
  show ?thesis
    unfolding downloadFile_def fetchFile_def
    by (simp only: on_world_simps on_world_branches bnd_branches bnd_assoc bnd_ret bnd_fail store case_prod_unfold
        fst_conv snd_conv)
qed

subsection \<open>The steps of a write\<close>

text \<open>
  Where a call of WriteAt stands: at the look at cacheValid, before the download, with
  fetched contents, before the lock, with the lock and its bytes in the cache, or ended.
\<close>

datatype write_pc =
    W_Start | W_Fetch | W_Fetched fetched | W_Ready | W_Upload nat
  | W_End "(nat \<times> go_error option) result"

text \<open>
  One step of a call: the next place, the log and the new state; no step when the call has
  ended or waits for the lock. A panic under the lock runs the deferred Unlock.
\<close>

fun write_step ::
    "('w, 'c) env \<Rightarrow> 'c root \<Rightarrow> byte list \<times> int \<Rightarrow> write_pc \<Rightarrow> 'w \<times> handler \<Rightarrow>
     (write_pc \<times> 'c event list \<times> ('w \<times> handler)) option" where
  "write_step X fs (b, off) W_Start (w, h) =
     Some (if h_cacheValid h then W_Ready else W_Fetch, [], (w, h))"
| "write_step X fs (b, off) W_Fetch (w, h) =
     Some (case fetchFile X fs (h_ref h) w of
         (Ok f, l, w') \<Rightarrow> (W_Fetched f, l, (w', h))
       | (Err _, l, w') \<Rightarrow> (W_Ready, l, (w', h))
       | (Abort a, l, w') \<Rightarrow> (W_End (Abort a), l, (w', h)))"
| "write_step X fs (b, off) (W_Fetched f) (w, h) =
     (if h_mu h = Unlocked then (case storeFetched f (w, h) of (_, l, s) \<Rightarrow> Some (W_Ready, l, s)) else None)"
| "write_step X fs (b, off) W_Ready (w, h) =
     (if h_mu h = Unlocked then
        Some (case bnd mu_Lock (\<lambda>_. write_cache X b off) (w, h) of
            (Ok n, l, s) \<Rightarrow> (W_Upload n, l, s)
          | (Err e, l, s) \<Rightarrow> (case mu_Unlock s of (_, l', s') \<Rightarrow> (W_End (Err e), l @ l', s'))
          | (Abort a, l, s) \<Rightarrow> (case mu_Unlock s of (_, l', s') \<Rightarrow> (W_End (Abort a), l @ l', s')))
      else None)"
| "write_step X fs (b, off) (W_Upload n) (w, h) =
     (case with_defer mu_Unlock (upload_counted X fs n) (w, h) of (r, l, s) \<Rightarrow> Some (W_End r, l, s))"
| "write_step X fs (b, off) (W_End r) (w, h) = None"

text \<open>A call that runs alone, for at most so many steps.\<close>

fun run_alone ::
    "nat \<Rightarrow> ('w, 'c) env \<Rightarrow> 'c root \<Rightarrow> byte list \<times> int \<Rightarrow> write_pc \<Rightarrow> ('w, 'c, nat \<times> go_error option) hgo" where
  "run_alone 0 X fs req pc s = (Abort Blocked, [], s)"
| "run_alone (Suc n) X fs req pc s = (case pc of
      W_End r \<Rightarrow> (r, [], s)
    | _ \<Rightarrow> (case write_step X fs req pc s of
        None \<Rightarrow> (Abort Blocked, [], s)
      | Some (pc', l, s') \<Rightarrow> (case run_alone n X fs req pc' s' of (r, l', s'') \<Rightarrow> (r, l @ l', s''))))"

lemma mu_Unlock_locked: "h_mu h = WLocked \<Longrightarrow> mu_Unlock (w, h) = (Ok (), [], (w, h\<lparr>h_mu := Unlocked\<rparr>))"
  by (simp add: mu_Unlock_def bnd_get_h set_h_def modify_st_def)

lemma mu_Lock_unlocked: "h_mu h = Unlocked \<Longrightarrow> mu_Lock (w, h) = (Ok (), [], (w, h\<lparr>h_mu := WLocked\<rparr>))"
  by (simp add: mu_Lock_def bnd_get_h set_h_def modify_st_def)

text \<open>Changing the cache keeps the lock, makes no call, and can only panic on memory or bounds.\<close>

lemma write_cache_shape:
  "wp (write_cache X b off) (\<lambda>r l (w', h'). w' = w \<and> l = [] \<and> h_mu h' = h_mu h \<and>
     (\<forall>e. r \<noteq> Err e) \<and> r \<noteq> Abort FatalUnlock \<and> r \<noteq> Abort Blocked) (w, h)"
  by (simp add: write_cache_def wp_rules Let_def make_bytes_def slice_from_def go_copy_def)

lemma storeFetched_unlocked:
  assumes "h_mu h = Unlocked"
  shows "storeFetched (c, t) (w, h) = (Ok (), [], (w, h\<lparr>h_cache := Some c, h_cacheValid := True,
    h_fileSize := int (length c), h_etag := (case t of None \<Rightarrow> h_etag h | Some t \<Rightarrow> t)\<rparr>))"
  using assms
  by (cases h; cases t) (simp_all add: storeFetched_def bnd_def mu_Lock_unlocked set_h_def modify_st_def mu_Unlock_locked)

lemma alone_upload: "run_alone (Suc (Suc n)) X fs (b, off) (W_Upload m) (w, h) =
    with_defer mu_Unlock (upload_counted X fs m) (w, h)"
  by (simp split: prod.split)

lemma alone_ready:
  assumes "h_mu h = Unlocked"
  shows "run_alone (Suc (Suc (Suc n))) X fs (b, off) W_Ready (w, h) =
    bnd mu_Lock (\<lambda>_. with_defer mu_Unlock (write_locked X fs b off)) (w, h)"
proof -
  let ?h = "h\<lparr>h_mu := WLocked\<rparr>"
  obtain r l s where run: "write_cache X b off (w, ?h) = (r, l, s)" by (metis surj_pair)
  obtain h' where s: "s = (w, h')" "l = []" "h_mu h' = WLocked" "\<And>e. r \<noteq> Err e"
    "r \<noteq> Abort FatalUnlock" "r \<noteq> Abort Blocked"
    using wpD [OF write_cache_shape run] by (cases s) auto
  have locked: "bnd mu_Lock f (w, h) = f () (w, ?h)" for f :: "unit \<Rightarrow> ('b, 'a, 'd) hgo"
    by (simp add: bnd_def mu_Lock_unlocked [OF assms] split: result.split prod.split)
  show ?thesis
  proof (cases r)
    case (Ok m)
    have "run_alone (Suc (Suc (Suc n))) X fs (b, off) W_Ready (w, h) = run_alone (Suc (Suc n)) X fs (b, off) (W_Upload m) (w, h')"
      using assms run s Ok by (simp add: locked split: prod.split)
    also have "\<dots> = with_defer mu_Unlock (write_locked X fs b off) (w, ?h)"
      unfolding alone_upload using run s Ok
      by (simp add: write_locked_def with_defer_def bnd_def split: prod.split)
    finally show ?thesis by (simp add: locked)
  next
    case (Abort a)
    then show ?thesis
      using assms run s by (simp add: locked write_locked_def with_defer_def bnd_def mu_Unlock_locked mu_Lock_unlocked [OF assms])
  qed (use s in simp)
qed

lemma alone_start:
  "run_alone (Suc n) X fs (b, off) W_Start (w, h) =
     run_alone n X fs (b, off) (if h_cacheValid h then W_Ready else W_Fetch) (w, h)"
  by (simp split: prod.split del: if_split)

lemma alone_fetch:
  "run_alone (Suc n) X fs (b, off) W_Fetch (w, h) = (case fetchFile X fs (h_ref h) w of
       (Ok f, l, w') \<Rightarrow> (case run_alone n X fs (b, off) (W_Fetched f) (w', h) of (r, l', s) \<Rightarrow> (r, l @ l', s))
     | (Err _, l, w') \<Rightarrow> (case run_alone n X fs (b, off) W_Ready (w', h) of (r, l', s) \<Rightarrow> (r, l @ l', s))
     | (Abort a, l, w') \<Rightarrow> (case run_alone n X fs (b, off) (W_End (Abort a)) (w', h) of (r, l', s) \<Rightarrow> (r, l @ l', s)))"
  by (simp split: prod.split result.split)

lemma alone_fetched:
  fixes X :: "('w, 'c) env"
  assumes "h_mu h = Unlocked" "(storeFetched f :: ('w, 'c, unit) hgo) (w, h) = (Ok (), [], s)"
  shows "run_alone (Suc n) X fs (b, off) (W_Fetched f) (w, h) = run_alone n X fs (b, off) W_Ready s"
proof -
  have "write_step X fs (b, off) (W_Fetched f) (w, h) = Some (W_Ready, [], s)" using assms by simp
  then show ?thesis by (simp split: prod.split)
qed

lemma bnd_run:
  "m s = (Ok x, l, s') \<Longrightarrow> bnd m f s = (case f x s' of (r, l', s'') \<Rightarrow> (r, l @ l', s''))"
  "m s = (Err e, l, s') \<Longrightarrow> bnd m f s = (Err e, l, s')"
  "m s = (Abort a, l, s') \<Longrightarrow> bnd m f s = (Abort a, l, s')"
  by (simp_all add: bnd_def)

text \<open>\<open>_ = m()\<close>: the error is dropped.\<close>

lemma drop_error_run:
  "bnd (try_go m) (\<lambda>_. ret ()) s = (case m s of
     (Abort a, l, s') \<Rightarrow> (Abort a, l, s') | (_, l, s') \<Rightarrow> (Ok (), l, s'))"
  by (simp add: go_defs split: prod.split result.split)

text \<open>Run alone, the steps are the call.\<close>

lemma run_alone_WriteAt:
  assumes u: "h_mu h = Unlocked"
  shows "run_alone 6 X fs (b, off) W_Start (w, h) = WriteAt X fs b off (w, h)"
proof -
  let ?locked = "bnd mu_Lock (\<lambda>_. with_defer mu_Unlock (write_locked X fs b off))"
  have six: "(6 :: nat) = Suc (Suc (Suc (Suc (Suc (Suc 0)))))" by simp
  have wr: "WriteAt X fs b off (w, h) = (if h_cacheValid h then ?locked (w, h)
      else bnd (bnd (try_go (downloadFile X fs)) (\<lambda>_. ret ())) (\<lambda>_. ?locked) (w, h))"
    by (simp add: WriteAt_def bnd_get_h)
  have dl: "downloadFile X fs (w, h) = bnd (on_world (fetchFile X fs (h_ref h))) storeFetched (w, h)"
    by (simp add: downloadFile_split bnd_get_h)
  obtain r l w' where f: "fetchFile X fs (h_ref h) w = (r, l, w')" by (metis surj_pair)
  show ?thesis
  proof (cases "h_cacheValid h")
    case True
    then show ?thesis unfolding six alone_start by (simp add: alone_ready [OF u] wr del: run_alone.simps)
  next
    case False
    show ?thesis
    proof (cases r)
      case (Ok c)
      obtain content t where c: "c = (content, t)" by force
      let ?h = "h\<lparr>h_cache := Some content, h_cacheValid := True, h_fileSize := int (length content),
        h_etag := (case t of None \<Rightarrow> h_etag h | Some t \<Rightarrow> t)\<rparr>"
      note store = storeFetched_unlocked [OF u, of content t w']
      have u': "h_mu ?h = Unlocked" using u by simp
      have "run_alone 6 X fs (b, off) W_Start (w, h) = (case ?locked (w', ?h) of (r, l', s) \<Rightarrow> (r, l @ l', s))"
        unfolding six alone_start
        by (simp add: False alone_fetch f Ok c alone_fetched [OF u store] alone_ready [OF u'] del: run_alone.simps)
      moreover have "downloadFile X fs (w, h) = (Ok (), l, (w', ?h))"
        by (simp add: dl bnd_run(1) [where x = c] on_world_def f Ok) (simp add: c store)
      then have "bnd (try_go (downloadFile X fs)) (\<lambda>_. ret ()) (w, h) = (Ok (), l, (w', ?h))"
        by (simp add: drop_error_run)
      then have "WriteAt X fs b off (w, h) = (case ?locked (w', ?h) of (r, l', s) \<Rightarrow> (r, l @ l', s))"
        by (simp add: wr False bnd_run(1))
      ultimately show ?thesis by simp
    next
      case (Err e)
      then have "downloadFile X fs (w, h) = (Err e, l, (w', h))"
        by (simp add: dl bnd_run(2) [where e = e] on_world_def f)
      then have "bnd (try_go (downloadFile X fs)) (\<lambda>_. ret ()) (w, h) = (Ok (), l, (w', h))"
        by (simp add: drop_error_run)
      then show ?thesis
        unfolding six alone_start
        by (simp add: False alone_fetch f Err alone_ready [OF u] wr bnd_run(1) del: run_alone.simps(2))
    next
      case (Abort a)
      then have "downloadFile X fs (w, h) = (Abort a, l, (w', h))"
        by (simp add: dl bnd_run(3) [where a = a] on_world_def f)
      then have "bnd (try_go (downloadFile X fs)) (\<lambda>_. ret ()) (w, h) = (Abort a, l, (w', h))"
        by (simp add: drop_error_run)
      then show ?thesis
        unfolding six alone_start by (simp add: False alone_fetch f Abort wr bnd_run(3))
    qed
  qed
qed

end
