(* ===== verification/Calls.thy ===== *)
theory Calls
  imports Writers
begin

text \<open>
  Concurrent calls on one open file: reads and truncations cut into steps like the writes of
  theory Writers, and one call of any kind as a sequence of such steps.
\<close>

subsection \<open>Reads\<close>

text \<open>
  Where a call of ReadAt stands. The sections under the read lock change nothing and make no
  call, so each is one step, which waits while a writer holds the lock.
\<close>

datatype read_pc = R_Start | R_Fetch | R_Fetched fetched | R_Ready | R_End "read_res result"

fun read_step ::
    "('w, 'c) env \<Rightarrow> 'c root \<Rightarrow> byte list \<times> int \<Rightarrow> read_pc \<Rightarrow> 'w \<times> handler \<Rightarrow>
     (read_pc \<times> 'c event list \<times> ('w \<times> handler)) option" where
  "read_step X fs (b, off) R_Start (w, h) =
     (if h_mu h = WLocked then None
      else Some (if h_cacheValid h \<and> h_cache h \<noteq> None then R_Ready else R_Fetch, [], (w, h)))"
| "read_step X fs (b, off) R_Fetch (w, h) =
     Some (case fetchFile X fs (h_ref h) w of
         (Ok f, l, w') \<Rightarrow> (R_Fetched f, l, (w', h))
       | (Err err, l, w') \<Rightarrow> (R_End (Ok (0, b, Some err)), l, (w', h))
       | (Abort a, l, w') \<Rightarrow> (R_End (Abort a), l, (w', h)))"
| "read_step X fs (b, off) (R_Fetched f) (w, h) =
     (if h_mu h = Unlocked then (case storeFetched f (w, h) of (_, l, s) \<Rightarrow> Some (R_Ready, l, s)) else None)"
| "read_step X fs (b, off) R_Ready (w, h) =
     (if h_mu h = WLocked then None
      else (case readFromCache b off (w, h) of (r, l, s) \<Rightarrow> Some (R_End r, l, s)))"
| "read_step X fs (b, off) (R_End r) (w, h) = None"

subsection \<open>Truncations\<close>

datatype trunc_pc = T_Start | T_Fetch | T_Fetched fetched | T_Ready | T_Upload | T_End "unit result"

text \<open>Lock, resize: the lock stays taken, unless the resizing panics.\<close>

definition resize_begin ::
    "('w, 'c) env \<Rightarrow> int \<Rightarrow> 'w \<times> handler \<Rightarrow> trunc_pc \<times> 'c event list \<times> ('w \<times> handler)" where
  "resize_begin X sz s = (case bnd mu_Lock (\<lambda>_. resize_cache X sz) s of
      (Ok _, l, s) \<Rightarrow> (T_Upload, l, s)
    | (Err e, l, s) \<Rightarrow> (case mu_Unlock s of (_, l', s') \<Rightarrow> (T_End (Err e), l @ l', s'))
    | (Abort a, l, s) \<Rightarrow> (case mu_Unlock s of (_, l', s') \<Rightarrow> (T_End (Abort a), l @ l', s')))"

text \<open>
  A call that finds the cache invalid gives its lock up and downloads. When the download fails
  the deferred Unlock runs on the mutex as it is then: it is fatal when the mutex is not
  write-locked, and frees the lock of whoever holds it when it is.
\<close>

fun trunc_step ::
    "('w, 'c) env \<Rightarrow> 'c root \<Rightarrow> int \<Rightarrow> trunc_pc \<Rightarrow> 'w \<times> handler \<Rightarrow>
     (trunc_pc \<times> 'c event list \<times> ('w \<times> handler)) option" where
  "trunc_step X fs sz T_Start (w, h) =
     (if h_mu h \<noteq> Unlocked then None
      else if sz < 0 then Some (T_End (Err (Errorf ''negative size not allowed'' [])), [], (w, h))
      else if h_cacheValid h then Some (resize_begin X sz (w, h))
      else Some (T_Fetch, [], (w, h)))"
| "trunc_step X fs sz T_Fetch (w, h) =
     Some (case fetchFile X fs (h_ref h) w of
         (Ok f, l, w') \<Rightarrow> (T_Fetched f, l, (w', h))
       | (Err e, l, w') \<Rightarrow> (case with_defer mu_Unlock (fail e) (w', h) of (r, l', s) \<Rightarrow> (T_End r, l @ l', s))
       | (Abort a, l, w') \<Rightarrow> (case with_defer mu_Unlock (abort a) (w', h) of (r, l', s) \<Rightarrow> (T_End r, l @ l', s)))"
| "trunc_step X fs sz (T_Fetched f) (w, h) =
     (if h_mu h = Unlocked then (case storeFetched f (w, h) of (_, l, s) \<Rightarrow> Some (T_Ready, l, s)) else None)"
| "trunc_step X fs sz T_Ready (w, h) =
     (if h_mu h = Unlocked then Some (resize_begin X sz (w, h)) else None)"
| "trunc_step X fs sz T_Upload (w, h) =
     (case with_defer mu_Unlock (uploadFile X fs) (w, h) of (r, l, s) \<Rightarrow> Some (T_End r, l, s))"
| "trunc_step X fs sz (T_End r) (w, h) = None"

subsection \<open>Calls\<close>

datatype call_pc = CW write_pc | CR read_pc | CT trunc_pc

definition start_pc :: "file_op \<Rightarrow> call_pc" where
  "start_pc op = (case op of OpRead b off \<Rightarrow> CR R_Start | OpWrite b off \<Rightarrow> CW W_Start | OpTruncate sz \<Rightarrow> CT T_Start)"

fun call_step ::
    "('w, 'c) env \<Rightarrow> 'c root \<Rightarrow> file_op \<Rightarrow> call_pc \<Rightarrow> 'w \<times> handler \<Rightarrow>
     (call_pc \<times> 'c event list \<times> ('w \<times> handler)) option" where
  "call_step X fs (OpWrite b off) (CW pc) s = map_option (apfst CW) (write_step X fs (b, off) pc s)"
| "call_step X fs (OpRead b off) (CR pc) s = map_option (apfst CR) (read_step X fs (b, off) pc s)"
| "call_step X fs (OpTruncate sz) (CT pc) s = map_option (apfst CT) (trunc_step X fs sz pc s)"
| "call_step X fs op pc s = None"

text \<open>What a call that has ended answers.\<close>

definition map_result :: "('a \<Rightarrow> 'b) \<Rightarrow> 'a result \<Rightarrow> 'b result" where
  "map_result f r = (case r of Ok x \<Rightarrow> Ok (f x) | Err e \<Rightarrow> Err e | Abort a \<Rightarrow> Abort a)"

definition trunc_out :: "unit result \<Rightarrow> file_out result" where
  "trunc_out r = (case r of
     Ok _ \<Rightarrow> Ok (OutTruncate None) | Err e \<Rightarrow> Ok (OutTruncate (Some e)) | Abort a \<Rightarrow> Abort a)"

fun ended :: "call_pc \<Rightarrow> file_out result option" where
  "ended (CW (W_End r)) = Some (map_result (\<lambda>(n, err). OutWrite n err) r)"
| "ended (CR (R_End r)) = Some (map_result OutRead r)"
| "ended (CT (T_End r)) = Some (trunc_out r)"
| "ended pc = None"

text \<open>A call that runs alone, for at most so many steps.\<close>

fun call_alone ::
    "nat \<Rightarrow> ('w, 'c) env \<Rightarrow> 'c root \<Rightarrow> file_op \<Rightarrow> call_pc \<Rightarrow> ('w, 'c, file_out) hgo" where
  "call_alone 0 X fs op pc s = (Abort Blocked, [], s)"
| "call_alone (Suc n) X fs op pc s = (case ended pc of
      Some r \<Rightarrow> (r, [], s)
    | None \<Rightarrow> (case call_step X fs op pc s of
        None \<Rightarrow> (Abort Blocked, [], s)
      | Some (pc', l, s') \<Rightarrow> (case call_alone n X fs op pc' s' of (r, l', s'') \<Rightarrow> (r, l @ l', s''))))"

lemma map_result_simps [simp]:
  "map_result f (Ok x) = Ok (f x)" "map_result f (Err e) = Err e" "map_result f (Abort a) = Abort a"
  by (simp_all add: map_result_def)

text \<open>A write alone is the write of theory Writers.\<close>

lemma call_alone_write:
  "call_alone n X fs (OpWrite b off) (CW pc) s =
     (case run_alone n X fs (b, off) pc s of (r, l, s') \<Rightarrow> (map_result (\<lambda>(n, err). OutWrite n err) r, l, s'))"
  by (induction n arbitrary: pc s) (auto split: write_pc.split option.split prod.splits simp: map_result_def)

text \<open>One step at the front of a call that runs alone.\<close>

lemma call_alone_step:
  assumes "ended pc = None" "call_step X fs op pc s = Some (pc', l, s')"
  shows "call_alone (Suc n) X fs op pc s = (case call_alone n X fs op pc' s' of (r, l', s'') \<Rightarrow> (r, l @ l', s''))"
  using assms by simp

lemma call_alone_end: "ended pc = Some r \<Longrightarrow> call_alone (Suc n) X fs op pc s = (r, [], s)"
  by simp

lemma bnd_map: "bnd m (\<lambda>x. ret (f x)) s = (case m s of (r, l, s') \<Rightarrow> (map_result f r, l, s'))"
  by (simp add: go_defs split: prod.split result.split)

text \<open>The handler once what was fetched is stored.\<close>

definition put_fetched :: "fetched \<Rightarrow> handler \<Rightarrow> handler" where
  "put_fetched f h = (case f of (content, etag) \<Rightarrow>
     h\<lparr>h_cache := Some content, h_cacheValid := True, h_fileSize := int (length content),
       h_etag := (case etag of None \<Rightarrow> h_etag h | Some t \<Rightarrow> t)\<rparr>)"

lemma put_fetched_simps [simp]:
  "h_mu (put_fetched f h) = h_mu h" "h_cacheValid (put_fetched f h)" "h_cache (put_fetched f h) = Some (fst f)"
  "bytes_of (put_fetched f h) = fst f"
  by (simp_all add: put_fetched_def bytes_of_def split: prod.split)

lemma storeFetched_run: "h_mu h = Unlocked \<Longrightarrow> storeFetched f (w, h) = (Ok (), [], (w, put_fetched f h))"
  by (cases f) (simp add: storeFetched_unlocked put_fetched_def)

lemma downloadFile_run:
  assumes "h_mu h = Unlocked" "fetchFile X fs (h_ref h) w = (r, l, w')"
  shows "downloadFile X fs (w, h) = (case r of
      Ok f \<Rightarrow> (Ok (), l, (w', put_fetched f h))
    | Err e \<Rightarrow> (Err e, l, (w', h)) | Abort a \<Rightarrow> (Abort a, l, (w', h)))"
proof -
  have dl: "downloadFile X fs (w, h) = bnd (on_world (fetchFile X fs (h_ref h))) storeFetched (w, h)"
    by (simp add: downloadFile_split bnd_get_h)
  have ow: "on_world (fetchFile X fs (h_ref h)) (w, h) = (r, l, (w', h))"
    using assms(2) by (simp add: on_world_def)
  show ?thesis
    unfolding dl bnd_def ow by (simp add: storeFetched_run [OF assms(1)] split: result.split)
qed

lemma try_run: "bnd (try_go m) k s = (case m s of
     (Ok x, l, s') \<Rightarrow> (case k (Inr x) s' of (r, l', s'') \<Rightarrow> (r, l @ l', s''))
   | (Err e, l, s') \<Rightarrow> (case k (Inl e) s' of (r, l', s'') \<Rightarrow> (r, l @ l', s''))
   | (Abort a, l, s') \<Rightarrow> (Abort a, l, s'))"
  by (simp add: go_defs split: prod.split result.split)

lemma ReadAt_unlocked:
  assumes "h_mu h = Unlocked"
  shows "ReadAt X fs b off (w, h) =
    (if h_cacheValid h \<and> h_cache h \<noteq> None then readFromCache b off (w, h)
     else bnd (try_go (downloadFile X fs)) (\<lambda>d.
       case d of Inl err \<Rightarrow> ret (0, b, Some err) | Inr _ \<Rightarrow> readFromCache b off) (w, h))"
  using assms
  by (auto simp: ReadAt_def mu_RLock_def mu_RUnlock_def bnd_assoc bnd_get_h bnd_set_h)

lemma read_ready_alone:
  assumes "h_mu h = Unlocked"
  shows "call_alone (Suc (Suc n)) X fs (OpRead b off) (CR R_Ready) (w, h) =
    (case readFromCache b off (w, h) of (r, l, s) \<Rightarrow> (map_result OutRead r, l, s))"
  using assms by (simp split: prod.split)

lemma read_fetch_alone:
  assumes "h_mu h = Unlocked"
  shows "call_alone (Suc (Suc (Suc (Suc n)))) X fs (OpRead b off) (CR R_Fetch) (w, h) =
    (case bnd (try_go (downloadFile X fs)) (\<lambda>d.
       case d of Inl err \<Rightarrow> ret (0, b, Some err) | Inr _ \<Rightarrow> readFromCache b off) (w, h) of
     (r, l, s) \<Rightarrow> (map_result OutRead r, l, s))"
proof -
  obtain r l w' where f: "fetchFile X fs (h_ref h) w = (r, l, w')" by (metis surj_pair)
  show ?thesis
  proof (cases r)
    case (Ok c)
    have u: "h_mu (put_fetched c h) = Unlocked" using assms by simp
    show ?thesis
      using assms f Ok
      by (simp add: try_run downloadFile_run [OF assms f] storeFetched_run read_ready_alone [OF u]
          call_alone_step del: call_alone.simps split: prod.split)
  qed (use f in \<open>simp_all add: try_run downloadFile_run [OF assms f] ret_apply\<close>)
qed

lemma call_alone_read:
  assumes u: "h_mu h = Unlocked"
  shows "call_alone 6 X fs (OpRead b off) (CR R_Start) (w, h) = file_step X fs (OpRead b off) (w, h)"
proof -
  have six: "(6 :: nat) = Suc (Suc (Suc (Suc (Suc (Suc 0)))))" by simp
  have start: "call_step X fs (OpRead b off) (CR R_Start) (w, h) =
      Some (CR (if h_cacheValid h \<and> h_cache h \<noteq> None then R_Ready else R_Fetch), [], (w, h))"
    using u by simp
  have going: "ended (CR R_Start) = None" by simp
  have op: "file_step X fs (OpRead b off) (w, h) = (case ReadAt X fs b off (w, h) of (r, l, s) \<Rightarrow> (map_result OutRead r, l, s))"
    by (simp add: file_step_def bnd_map)
  show ?thesis
    unfolding six op ReadAt_unlocked [OF u] call_alone_step [OF going start]
    by (auto simp: read_ready_alone [OF u] read_fetch_alone [OF u] simp del: call_alone.simps split: prod.split)
qed

text \<open>The same for a truncation: its part under the lock, and the whole.\<close>

definition locked_resize :: "('w, 'c) env \<Rightarrow> 'c root \<Rightarrow> int \<Rightarrow> ('w, 'c, unit) hgo" where
  "locked_resize X fs sz = bnd mu_Lock (\<lambda>_. with_defer mu_Unlock (resize_locked X fs sz))"

lemma resize_cache_shape:
  "wp (resize_cache X sz) (\<lambda>r l (w', h'). w' = w \<and> l = [] \<and> h_mu h' = h_mu h \<and>
     (\<forall>e. r \<noteq> Err e) \<and> r \<noteq> Abort FatalUnlock \<and> r \<noteq> Abort Blocked) (w, h)"
  by (simp add: resize_cache_def wp_rules Let_def make_bytes_def slice_to_def go_copy_def)

lemma bnd_Lock: "h_mu h = Unlocked \<Longrightarrow> bnd mu_Lock f (w, h) = f () (w, h\<lparr>h_mu := WLocked\<rparr>)"
  by (simp add: bnd_def mu_Lock_unlocked split: result.split prod.split)

lemma trunc_begin_alone:
  assumes "h_mu h = Unlocked" "ended pc = None"
    "call_step X fs (OpTruncate sz) pc (w, h) = Some (apfst CT (resize_begin X sz (w, h)))"
  shows "call_alone (Suc (Suc (Suc n))) X fs (OpTruncate sz) pc (w, h) =
    (case locked_resize X fs sz (w, h) of (r, l, s) \<Rightarrow> (trunc_out r, l, s))"
proof -
  let ?h = "h\<lparr>h_mu := WLocked\<rparr>"
  obtain r l s where run: "resize_cache X sz (w, ?h) = (r, l, s)" by (metis surj_pair)
  obtain h' where s: "s = (w, h')" "l = []" "h_mu h' = WLocked" "\<And>e. r \<noteq> Err e"
    "r \<noteq> Abort FatalUnlock" "r \<noteq> Abort Blocked"
    using wpD [OF resize_cache_shape run] by (cases s) auto
  show ?thesis
  proof (cases r)
    case (Ok m)
    have "call_step X fs (OpTruncate sz) pc (w, h) = Some (CT T_Upload, [], (w, h'))"
      using assms(3) run s Ok by (simp add: resize_begin_def bnd_Lock [OF assms(1)])
    from call_alone_step [OF assms(2) this] show ?thesis
      using run s Ok
      by (simp add: locked_resize_def bnd_Lock [OF assms(1)] resize_locked_def with_defer_def bnd_def [of "resize_cache X sz"]
          split: prod.split)
  next
    case (Abort a)
    have "call_step X fs (OpTruncate sz) pc (w, h) = Some (CT (T_End (Abort a)), [], (w, h'\<lparr>h_mu := Unlocked\<rparr>))"
      using assms(3) run s Abort by (simp add: resize_begin_def bnd_Lock [OF assms(1)] mu_Unlock_locked)
    from call_alone_step [OF assms(2) this] show ?thesis
      using run s Abort
      by (simp add: locked_resize_def bnd_Lock [OF assms(1)] resize_locked_def with_defer_def bnd_def [of "resize_cache X sz"]
          mu_Unlock_locked trunc_out_def)
  qed (use s in simp)
qed

lemma Truncate_unlocked:
  assumes "h_mu h = Unlocked"
  shows "Truncate X fs sz (w, h) =
    (if sz < 0 then (Err (Errorf ''negative size not allowed'' []), [], (w, h))
     else if h_cacheValid h then locked_resize X fs sz (w, h)
     else (case fetchFile X fs (h_ref h) w of
         (Ok f, l, w') \<Rightarrow> (case locked_resize X fs sz (w', put_fetched f h) of (r, l', s) \<Rightarrow> (r, l @ l', s))
       | (Err e, l, w') \<Rightarrow> (case with_defer mu_Unlock (fail e) (w', h) of (r, l', s) \<Rightarrow> (r, l @ l', s))
       | (Abort a, l, w') \<Rightarrow> (case with_defer mu_Unlock (abort a) (w', h) of (r, l', s) \<Rightarrow> (r, l @ l', s))))"
proof -
  let ?h = "h\<lparr>h_mu := WLocked\<rparr>"
  let ?refresh = "bnd mu_Unlock (\<lambda>_. bnd (downloadFile X fs) (\<lambda>_. mu_Lock))"
  let ?body = "bnd get_h (\<lambda>h. bnd (if \<not> h_cacheValid h then ?refresh else ret ()) (\<lambda>_. resize_locked X fs sz))"
  obtain r l w' where f: "fetchFile X fs (h_ref h) w = (r, l, w')" by (metis surj_pair)
  have tr: "Truncate X fs sz (w, h) = with_defer mu_Unlock
      (if sz < 0 then fail (Errorf ''negative size not allowed'' []) else ?body) (w, ?h)"
    by (simp add: Truncate_def bnd_Lock [OF assms])
  have un: "mu_Unlock (w, ?h) = (Ok (), [], (w, h))" using assms by (simp add: mu_Unlock_locked)
  have refresh: "?refresh (w, ?h) = (case r of
      Ok f \<Rightarrow> (Ok (), l, (w', (put_fetched f h)\<lparr>h_mu := WLocked\<rparr>))
    | Err e \<Rightarrow> (Err e, l, (w', h)) | Abort a \<Rightarrow> (Abort a, l, (w', h)))"
    using assms by (simp add: bnd_def un downloadFile_run [OF assms f] mu_Lock_unlocked split: result.split)
  show ?thesis
  proof (cases "sz < 0")
    case True
    then show ?thesis by (simp add: tr with_defer_def fail_def un)
  next
    case nonneg: False
    show ?thesis
    proof (cases "h_cacheValid h")
      case True
      then show ?thesis
        using nonneg by (simp add: tr with_defer_def bnd_get_h locked_resize_def bnd_Lock [OF assms])
    next
      case False
      then have "?body (w, ?h) = bnd ?refresh (\<lambda>_. resize_locked X fs sz) (w, ?h)" by (simp add: bnd_get_h)
      also have "\<dots> = (case r of
          Ok f \<Rightarrow> (case resize_locked X fs sz (w', (put_fetched f h)\<lparr>h_mu := WLocked\<rparr>) of (r, l', s) \<Rightarrow> (r, l @ l', s))
        | Err e \<Rightarrow> (Err e, l, (w', h)) | Abort a \<Rightarrow> (Abort a, l, (w', h)))"
        unfolding bnd_def [of ?refresh] refresh by (simp split: result.split)
      finally show ?thesis
        using nonneg False assms
        by (simp add: tr f with_defer_def locked_resize_def bnd_Lock fail_def abort_def split: result.split prod.split)
    qed
  qed
qed

lemma call_alone_truncate:
  assumes u: "h_mu h = Unlocked"
  shows "call_alone 6 X fs (OpTruncate sz) (CT T_Start) (w, h) = file_step X fs (OpTruncate sz) (w, h)"
proof -
  have six: "(6 :: nat) = Suc (Suc (Suc (Suc (Suc (Suc 0)))))" by simp
  have op: "file_step X fs (OpTruncate sz) (w, h) = (case Truncate X fs sz (w, h) of (r, l, s) \<Rightarrow> (trunc_out r, l, s))"
    by (simp add: file_step_def trunc_out_def go_defs split: prod.split result.split)
  show ?thesis
  proof (cases "sz < 0 \<or> h_cacheValid h")
    case True
    then show ?thesis
    proof (cases "sz < 0")
      case neg: True
      have "call_step X fs (OpTruncate sz) (CT T_Start) (w, h) =
          Some (CT (T_End (Err (Errorf ''negative size not allowed'' []))), [], (w, h))"
        using neg u by simp
      from call_alone_step [OF _ this] show ?thesis
        unfolding six op Truncate_unlocked [OF u] using neg by (simp add: trunc_out_def)
    next
      case False
      then show ?thesis
        unfolding six op Truncate_unlocked [OF u] using True u
        by (subst trunc_begin_alone) (simp_all del: call_alone.simps)
    qed
  next
    case False
    obtain r l w' where f: "fetchFile X fs (h_ref h) w = (r, l, w')" by (metis surj_pair)
    show ?thesis
      unfolding six op Truncate_unlocked [OF u] using u False f
      by (cases r) (simp_all add: call_alone_step call_alone_end storeFetched_run trunc_begin_alone del: call_alone.simps split: prod.split)
  qed
qed

lemma call_alone_file_step:
  assumes "h_mu h = Unlocked"
  shows "call_alone 6 X fs op (start_pc op) (w, h) = file_step X fs op (w, h)"
proof (cases op)
  case (OpWrite b off)
  have "call_alone 6 X fs op (start_pc op) (w, h) =
      (case WriteAt X fs b off (w, h) of (r, l, s) \<Rightarrow> (map_result (\<lambda>(n, err). OutWrite n err) r, l, s))"
    by (simp add: OpWrite start_pc_def call_alone_write run_alone_WriteAt [OF assms] del: call_alone.simps run_alone.simps)
  then show ?thesis by (simp add: OpWrite file_step_def bnd_map case_prod_unfold)
qed (use call_alone_read [OF assms] call_alone_truncate [OF assms] in \<open>simp_all add: start_pc_def del: call_alone.simps\<close>)

end
