(* ===== verification/CallsProps.thy ===== *)
theory CallsProps
  imports Calls
begin

text \<open>
  Any number of calls of ReadAt, WriteAt and Truncate on one handler, interleaved step by step,
  with an outside world that may change at any time. On a cached file they are linearizable;
  on one that is not, a failed truncation can free the lock of another call.
\<close>

subsection \<open>The system\<close>

record ('w, 'c) calls =
  Z_shared :: "'w \<times> handler"
  Z_pcs :: "nat \<Rightarrow> call_pc"
  Z_log :: "'c event list"

definition calls_start :: "(nat \<Rightarrow> file_op) \<Rightarrow> 'w \<Rightarrow> handler \<Rightarrow> ('w, 'c) calls" where
  "calls_start ops w h = \<lparr>Z_shared = (w, h), Z_pcs = (\<lambda>i. start_pc (ops i)), Z_log = []\<rparr>"

inductive calls_step ::
    "('w, 'c) env \<Rightarrow> 'c root \<Rightarrow> (nat \<Rightarrow> file_op) \<Rightarrow> ('w, 'c) calls \<Rightarrow> ('w, 'c) calls \<Rightarrow> bool"
  for X :: "('w, 'c) env" and fs :: "'c root" and ops :: "nat \<Rightarrow> file_op" where
  Call: "call_step X fs (ops i) (pcs i) sh = Some (pc', l, sh') \<Longrightarrow>
    calls_step X fs ops \<lparr>Z_shared = sh, Z_pcs = pcs, Z_log = L\<rparr>
      \<lparr>Z_shared = sh', Z_pcs = pcs(i := pc'), Z_log = L @ l\<rparr>"
| World: "calls_step X fs ops \<lparr>Z_shared = (w, h), Z_pcs = pcs, Z_log = L\<rparr>
      \<lparr>Z_shared = (w', h), Z_pcs = pcs, Z_log = L\<rparr>"

text \<open>A schedule names the call that moves next; one that cannot is skipped.\<close>

fun run_calls ::
    "('w, 'c) env \<Rightarrow> 'c root \<Rightarrow> (nat \<Rightarrow> file_op) \<Rightarrow> nat list \<Rightarrow> ('w, 'c) calls \<Rightarrow> ('w, 'c) calls" where
  "run_calls X fs ops [] s = s"
| "run_calls X fs ops (i # is) s = run_calls X fs ops is
     (case call_step X fs (ops i) (Z_pcs s i) (Z_shared s) of
        None \<Rightarrow> s
      | Some (pc', l, sh') \<Rightarrow> s\<lparr>Z_shared := sh', Z_pcs := (Z_pcs s)(i := pc'), Z_log := Z_log s @ l\<rparr>)"

lemma run_calls_reaches: "(calls_step X fs ops)\<^sup>*\<^sup>* s (run_calls X fs ops is s)"
proof (induction "is" arbitrary: s)
  case (Cons i "is")
  obtain sh pcs L where s: "s = \<lparr>Z_shared = sh, Z_pcs = pcs, Z_log = L\<rparr>" by (cases s)
  show ?case
  proof (cases "call_step X fs (ops i) (pcs i) sh")
    case None
    then show ?thesis using Cons by (simp add: s)
  next
    case (Some r)
    obtain pc' l sh' where r: "r = (pc', l, sh')" by (cases r)
    have "calls_step X fs ops s \<lparr>Z_shared = sh', Z_pcs = pcs(i := pc'), Z_log = L @ l\<rparr>"
      unfolding s using Some r by (intro calls_step.Call) simp
    then show ?thesis
      using Cons [of "\<lparr>Z_shared = sh', Z_pcs = pcs(i := pc'), Z_log = L @ l\<rparr>"] Some r
      by (simp add: s converse_rtranclp_into_rtranclp)
  qed
qed simp

subsection \<open>Where a call stands\<close>

text \<open>A call takes effect when it changes the cache, or reads it, or is refused.\<close>

fun has_written :: "write_pc \<Rightarrow> bool" where
  "has_written (W_Upload n) = True"
| "has_written (W_End r) = True"
| "has_written _ = False"

fun holds_lock :: "write_pc \<Rightarrow> bool" where
  "holds_lock (W_Upload n) = True"
| "holds_lock _ = False"

fun took_effect :: "call_pc \<Rightarrow> bool" where
  "took_effect (CW pc) = has_written pc"
| "took_effect (CR (R_End r)) = True"
| "took_effect (CT T_Upload) = True"
| "took_effect (CT (T_End r)) = True"
| "took_effect _ = False"

fun in_section :: "call_pc \<Rightarrow> bool" where
  "in_section (CW pc) = holds_lock pc"
| "in_section (CT T_Upload) = True"
| "in_section _ = False"

text \<open>The places a call on a cached file goes through.\<close>

fun cached_pc :: "file_op \<Rightarrow> call_pc \<Rightarrow> bool" where
  "cached_pc (OpWrite b off) (CW pc) = (case pc of W_Fetch \<Rightarrow> False | W_Fetched f \<Rightarrow> False | W_Upload n \<Rightarrow> n = length b | _ \<Rightarrow> True)"
| "cached_pc (OpRead b off) (CR pc) = (case pc of R_Fetch \<Rightarrow> False | R_Fetched f \<Rightarrow> False | _ \<Rightarrow> True)"
| "cached_pc (OpTruncate sz) (CT pc) = (case pc of T_Start \<Rightarrow> True | T_Upload \<Rightarrow> 0 \<le> sz | T_End r \<Rightarrow> True | _ \<Rightarrow> False)"
| "cached_pc _ _ = False"

text \<open>A call that reported success and changed the file.\<close>

definition change_ok :: "file_out result \<Rightarrow> bool" where
  "change_ok r \<longleftrightarrow> (\<exists>n. r = Ok (OutWrite n None)) \<or> r = Ok (OutTruncate None)"

text \<open>A request of the log that carried these bytes and was answered with 200.\<close>

definition put_ok :: "byte list \<Rightarrow> 'c event list \<Rightarrow> bool" where
  "put_ok c l \<longleftrightarrow> (\<exists>q resp. EvHttp q (Inr resp) \<in> set l \<and> HttpStatusCode resp = 200 \<and>
     HttpMethod q = ''PUT'' \<and> HttpBody q = c)"

lemma put_ok_append: "put_ok c l \<Longrightarrow> put_ok c (l @ l')" "put_ok c l' \<Longrightarrow> put_ok c (l @ l')"
  unfolding put_ok_def by auto

lemma put_okI: "list_all (uploads fs h c) l \<Longrightarrow> acked l \<Longrightarrow> put_ok c l"
  unfolding put_ok_def acked_def using uploads_put by blast

subsection \<open>One step of one call on a cached file\<close>

text \<open>
  Three kinds of steps: one that only looks, one that takes effect, at once or by entering the
  section under the lock, and the upload that ends the section.
\<close>

definition step_looks :: "call_pc \<Rightarrow> handler \<Rightarrow> call_pc \<Rightarrow> handler \<Rightarrow> bool" where
  "step_looks pc h pc' h' \<longleftrightarrow> \<not> took_effect pc \<and> \<not> took_effect pc' \<and> \<not> in_section pc \<and> \<not> in_section pc' \<and>
     ended pc' = None \<and> h' = h"

definition step_acts :: "('w, 'c) env \<Rightarrow> file_op \<Rightarrow> call_pc \<Rightarrow> handler \<Rightarrow> call_pc \<Rightarrow> handler \<Rightarrow> bool" where
  "step_acts X op pc h pc' h' \<longleftrightarrow> h_mu h = Unlocked \<and> \<not> took_effect pc \<and> took_effect pc' \<and> \<not> in_section pc \<and>
     bytes_of h' = abs_op op (bytes_of h) \<and> cache_inv X h' \<and> h_cacheValid h' \<and>
     h_mu h' = (if in_section pc' then WLocked else Unlocked) \<and>
     (\<forall>r. ended pc' = Some r \<longrightarrow> (\<exists>out. r = Ok out \<and> abs_out op (bytes_of h) out) \<and> \<not> change_ok r)"

definition step_ends :: "('w, 'c) env \<Rightarrow> file_op \<Rightarrow> call_pc \<Rightarrow> handler \<Rightarrow> call_pc \<Rightarrow> handler \<Rightarrow> 'c event list \<Rightarrow> bool" where
  "step_ends X op pc h pc' h' l \<longleftrightarrow> took_effect pc \<and> took_effect pc' \<and> in_section pc \<and> \<not> in_section pc' \<and>
     bytes_of h' = bytes_of h \<and> cache_inv X h' \<and> h_cacheValid h' \<and> h_mu h' = Unlocked \<and>
     (\<exists>r. ended pc' = Some r \<and> returns_or_services_fail (\<lambda>out. \<forall>c. abs_out op c out) r \<and>
        (change_ok r \<longrightarrow> put_ok (bytes_of h) l))"

definition step_kinds where
  "step_kinds X op pc h pc' h' l \<longleftrightarrow>
     cached_pc op pc' \<and> (step_looks pc h pc' h' \<or> step_acts X op pc h pc' h' \<or> step_ends X op pc h pc' h' l)"

lemma ready_enters:
  assumes "h_mu h = Unlocked" "cache_inv X h" "runtime_ok X" "op_ok X (OpWrite b off)"
  obtains h' where "write_step X fs (b, off) W_Ready (w, h) = Some (W_Upload (length b), [], (w, h'))"
    "bytes_of h' = put_at (bytes_of h) (nat off) b" "cache_inv X h'" "h_cacheValid h' = h_cacheValid h"
    "h_mu h' = WLocked" "h_ref h' = h_ref h"
proof -
  let ?h = "h\<lparr>h_mu := WLocked\<rparr>"
  obtain r l1 w1 h1 where run: "write_cache X b off (w, ?h) = (r, l1, (w1, h1))" by (metis surj_pair)
  have off: "0 \<le> off" "off + int (length b) \<le> E_max_alloc X" using assms(4) by (simp_all add: op_ok_def)
  have "w1 = w \<and> cache_written X ?h (put_at (bytes_of ?h) (nat off) b) (length b) r l1 h1"
    using wpD [OF wp_write_cache [OF _ assms(3) off] run] assms(2) by simp
  then show thesis
    using assms(1) run by (intro that [of h1]) (simp_all add: bnd_Lock cache_written_def same_file_def)
qed

lemma write_call_step:
  assumes step: "call_step X fs (OpWrite b off) (CW pc) (w, h) = Some (pc', l, (w', h'))"
    and h: "cache_inv X h" "h_cacheValid h" "\<And>n. h_mu h \<noteq> RLocked n" "holds_lock pc \<Longrightarrow> h_mu h = WLocked"
    and ok: "runtime_ok X" "op_ok X (OpWrite b off)" "cached_pc (OpWrite b off) (CW pc)"
  shows "step_kinds X (OpWrite b off) (CW pc) h pc' h' l"
proof (cases pc)
  case W_Start
  then show ?thesis using step h(2) by (auto simp: step_kinds_def step_looks_def)
next
  case W_Ready
  have u: "h_mu h = Unlocked" using step W_Ready by (auto split: if_splits)
  obtain h1 where "write_step X fs (b, off) W_Ready (w, h) = Some (W_Upload (length b), [], (w, h1))"
    "bytes_of h1 = put_at (bytes_of h) (nat off) b" "cache_inv X h1" "h_cacheValid h1 = h_cacheValid h" "h_mu h1 = WLocked"
    by (rule ready_enters [OF u h(1) ok(1,2)])
  then show ?thesis
    using step W_Ready u h(2)
    by (auto simp: step_kinds_def step_acts_def abs_op_def simp del: write_step.simps)
next
  case (W_Upload n)
  have m: "h_mu h = WLocked" using h(4) W_Upload by simp
  obtain r l1 w1 h1 where run: "upload_counted X fs n (w, h) = (r, l1, (w1, h1))" by (metis surj_pair)
  have p: "write_post X fs h (bytes_of h) n r l1 h1"
    using wpD [OF wp_upload_counted run] h(1) by simp
  then have "h_mu h1 = WLocked" "r \<noteq> Abort FatalUnlock" "r \<noteq> Abort Blocked"
    using m by (auto simp: write_post_def stored_def)
  then have "with_defer mu_Unlock (upload_counted X fs n) (w, h) = (r, l1, (w1, h1\<lparr>h_mu := Unlocked\<rparr>))"
    by (simp add: with_defer_def run mu_Unlock_locked split: result.split)
  then have s: "pc' = CW (W_End r)" "h' = h1\<lparr>h_mu := Unlocked\<rparr>" "l1 = l" using step W_Upload by simp_all
  have "returns_or_services_fail (\<lambda>out. \<forall>c. abs_out (OpWrite b off) c out) (map_result (\<lambda>(n, err). OutWrite n err) r)"
    using p W_Upload ok(3) by (cases r) (auto simp: write_post_def abs_out_def)
  moreover have "put_ok (bytes_of h) l" if "change_ok (map_result (\<lambda>(n, err). OutWrite n err) r)"
    using p that s(3) by (cases r) (auto simp: write_post_def stored_def change_ok_def intro: put_okI)
  ultimately show ?thesis
    using s p W_Upload h(2) by (auto simp: step_kinds_def step_ends_def write_post_def stored_def)
qed (use step ok(3) in simp_all)

lemma read_call_step:
  assumes step: "call_step X fs (OpRead b off) (CR pc) (w, h) = Some (pc', l, (w', h'))"
    and h: "cache_inv X h" "h_cacheValid h" "\<And>n. h_mu h \<noteq> RLocked n"
    and ok: "runtime_ok X" "op_ok X (OpRead b off)" "cached_pc (OpRead b off) (CR pc)"
  shows "step_kinds X (OpRead b off) (CR pc) h pc' h' l"
proof (cases pc)
  case R_Start
  have "h_cache h \<noteq> None" using h(1,2) by (simp add: cache_inv_def)
  then show ?thesis using step h(2) R_Start by (auto simp: step_kinds_def step_looks_def split: if_splits)
next
  case R_Ready
  have u: "h_mu h = Unlocked" using step R_Ready h(3) by (cases "h_mu h") auto
  then have inv: "handler_inv X h" using h(1) by (simp add: handler_inv_def)
  have "0 \<le> off" using ok(2) by (simp add: op_ok_def)
  note run = readFromCache_eq [OF inv ok(1) this]
  have "pc' = CR (R_End (Ok (read_spec (bytes_of h) b (nat off))))" "h' = h"
    using step R_Ready u by (auto simp: run)
  then show ?thesis
    using R_Ready u h by (simp add: step_kinds_def step_acts_def abs_op_def abs_out_def change_ok_def)
qed (use step ok(3) in simp_all)

lemma trunc_call_step:
  assumes step: "call_step X fs (OpTruncate sz) (CT pc) (w, h) = Some (pc', l, (w', h'))"
    and h: "cache_inv X h" "h_cacheValid h" "\<And>n. h_mu h \<noteq> RLocked n" "pc = T_Upload \<Longrightarrow> h_mu h = WLocked"
    and ok: "runtime_ok X" "op_ok X (OpTruncate sz)" "cached_pc (OpTruncate sz) (CT pc)"
  shows "step_kinds X (OpTruncate sz) (CT pc) h pc' h' l"
proof (cases pc)
  case T_Start
  have u: "h_mu h = Unlocked" using step T_Start by (auto split: if_splits)
  show ?thesis
  proof (cases "sz < 0")
    case True
    then show ?thesis
      using step T_Start u h by (auto simp: step_kinds_def step_acts_def abs_op_def abs_out_def trunc_out_def change_ok_def)
  next
    case False
    then have sz: "0 \<le> sz" "sz \<le> E_max_alloc X" using ok(2) by (simp_all add: op_ok_def)
    let ?h = "h\<lparr>h_mu := WLocked, h_cache := Some (resize (bytes_of h) (nat sz)), h_fileSize := sz\<rparr>"
    have "resize_begin X sz (w, h) = (T_Upload, [], (w, ?h))"
      by (simp add: resize_begin_def bnd_Lock [OF u] resize_cache_run [OF sz])
    then have "pc' = CT T_Upload" "h' = ?h" using step T_Start u False h(2) by simp_all
    then show ?thesis
      using T_Start u h(2) sz
      by (simp add: step_kinds_def step_acts_def abs_op_def cache_inv_def bytes_of_def [of "_\<lparr>h_fileSize := _\<rparr>"])
  qed
next
  case T_Upload
  have m: "h_mu h = WLocked" using h(4) T_Upload by simp
  obtain r l1 w1 h1 where run: "uploadFile X fs (w, h) = (r, l1, (w1, h1))" by (metis surj_pair)
  have p: "resize_post X fs h (bytes_of h) r l1 h1"
    using wpD [OF wp_commit run] h(1) by simp
  then have "h_mu h1 = WLocked" "r \<noteq> Abort FatalUnlock" "r \<noteq> Abort Blocked"
    using m by (auto simp: resize_post_def stored_def)
  then have "with_defer mu_Unlock (uploadFile X fs) (w, h) = (r, l1, (w1, h1\<lparr>h_mu := Unlocked\<rparr>))"
    by (simp add: with_defer_def run mu_Unlock_locked split: result.split)
  then have s: "pc' = CT (T_End r)" "h' = h1\<lparr>h_mu := Unlocked\<rparr>" "l1 = l" using step T_Upload by simp_all
  have "returns_or_services_fail (\<lambda>out. \<forall>c. abs_out (OpTruncate sz) c out) (trunc_out r)"
    using p T_Upload ok(3) by (cases r) (auto simp: resize_post_def trunc_out_def abs_out_def)
  moreover have "put_ok (bytes_of h) l" if "change_ok (trunc_out r)"
    using p that s(3) by (cases r) (auto simp: resize_post_def stored_def trunc_out_def change_ok_def intro: put_okI)
  ultimately show ?thesis
    using s p T_Upload h(2) by (auto simp: step_kinds_def step_ends_def resize_post_def stored_def)
qed (use step ok(3) in simp_all)

lemma call_step_kinds:
  assumes "call_step X fs op pc (w, h) = Some (pc', l, (w', h'))"
    "cache_inv X h" "h_cacheValid h" "\<And>n. h_mu h \<noteq> RLocked n" "in_section pc \<Longrightarrow> h_mu h = WLocked"
    "runtime_ok X" "op_ok X op" "cached_pc op pc"
  shows "step_kinds X op pc h pc' h' l"
proof (cases op)
  case (OpRead b off)
  then show ?thesis using assms read_call_step [of X fs b off _ w h pc' l w' h'] by (cases pc) simp_all
next
  case (OpWrite b off)
  then show ?thesis using assms write_call_step [of X fs b off _ w h pc' l w' h'] by (cases pc) simp_all
next
  case (OpTruncate sz)
  then show ?thesis using assms trunc_call_step [of X fs sz _ w h pc' l w' h'] by (cases pc) simp_all
qed

subsection \<open>The order of the calls\<close>

definition content :: "(nat \<Rightarrow> file_op) \<Rightarrow> nat list \<Rightarrow> byte list \<Rightarrow> byte list" where
  "content ops ord c = fold (\<lambda>i. abs_op (ops i)) ord c"

lemma content_append [simp]: "content ops (ord @ ord') c = content ops ord' (content ops ord c)"
  by (simp add: content_def)

lemma content_simps [simp]: "content ops [] c = c" "content ops (i # ord) c = content ops ord (abs_op (ops i) c)"
  by (simp_all add: content_def)

text \<open>
  The answer of call \<open>i\<close> is that of its abstract operation at its place in the order; and when
  it reports that a change was made, the data gateway accepted the contents right after it.
\<close>

definition answered :: "(nat \<Rightarrow> file_op) \<Rightarrow> byte list \<Rightarrow> nat list \<Rightarrow> 'c event list \<Rightarrow> nat \<Rightarrow> file_out result \<Rightarrow> bool" where
  "answered ops c ord L i r \<longleftrightarrow> (\<exists>pre post. ord = pre @ i # post \<and>
     returns_or_services_fail (abs_out (ops i) (content ops pre c)) r \<and>
     (change_ok r \<longrightarrow> put_ok (content ops (pre @ [i]) c) L))"

lemma answered_mono:
  assumes "answered ops c ord L i r"
  shows "answered ops c (ord @ ord') (L @ l) i r"
proof -
  obtain pre post where p: "ord = pre @ i # post" "returns_or_services_fail (abs_out (ops i) (content ops pre c)) r"
    "change_ok r \<longrightarrow> put_ok (content ops (pre @ [i]) c) L"
    using assms unfolding answered_def by blast
  then show ?thesis
    unfolding answered_def by (intro exI [of _ pre] exI [of _ "post @ ord'"]) (auto intro: put_ok_append)
qed

definition one_in_section :: "('w, 'c) calls \<Rightarrow> bool" where
  "one_in_section s \<longleftrightarrow> (case h_mu (snd (Z_shared s)) of
      Unlocked \<Rightarrow> \<forall>i. \<not> in_section (Z_pcs s i)
    | WLocked \<Rightarrow> \<exists>i. \<forall>j. in_section (Z_pcs s j) \<longleftrightarrow> j = i
    | RLocked n \<Rightarrow> False)"

text \<open>\<open>ord\<close> is an order of the calls that have taken effect that explains the state \<open>s\<close>.\<close>

definition explains :: "(nat \<Rightarrow> file_op) \<Rightarrow> byte list \<Rightarrow> nat list \<Rightarrow> ('w, 'c) calls \<Rightarrow> bool" where
  "explains ops c ord s \<longleftrightarrow> distinct ord \<and> set ord = {i. took_effect (Z_pcs s i)} \<and>
     bytes_of (snd (Z_shared s)) = content ops ord c \<and>
     (\<forall>i r. ended (Z_pcs s i) = Some r \<longrightarrow> answered ops c ord (Z_log s) i r)"

definition calls_inv ::
    "('w, 'c) env \<Rightarrow> (nat \<Rightarrow> file_op) \<Rightarrow> byte list \<Rightarrow> nat list \<Rightarrow> ('w, 'c) calls \<Rightarrow> bool" where
  "calls_inv X ops c ord s \<longleftrightarrow> explains ops c ord s \<and> one_in_section s \<and>
     (\<forall>i. in_section (Z_pcs s i) \<longrightarrow> (\<exists>pre. ord = pre @ [i])) \<and>
     cache_inv X (snd (Z_shared s)) \<and> h_cacheValid (snd (Z_shared s)) \<and>
     (\<forall>i. cached_pc (ops i) (Z_pcs s i))"

lemma section_held:
  assumes "one_in_section s" "in_section (Z_pcs s i)"
  shows "h_mu (snd (Z_shared s)) = WLocked \<and> (\<forall>j. in_section (Z_pcs s j) \<longleftrightarrow> j = i)"
  using assms by (auto simp: one_in_section_def split: rwmutex.splits)

lemma call_keeps_inv:
  assumes inv: "calls_inv X ops c ord \<lparr>Z_shared = (w, h), Z_pcs = pcs, Z_log = L\<rparr>"
    and step: "call_step X fs (ops i) (pcs i) (w, h) = Some (pc', l, (w', h'))"
    and ok: "runtime_ok X" "\<And>i. op_ok X (ops i)"
  shows "\<exists>ext. calls_inv X ops c (ord @ ext) \<lparr>Z_shared = (w', h'), Z_pcs = pcs(i := pc'), Z_log = L @ l\<rparr>"
proof -
  let ?s = "\<lparr>Z_shared = (w, h), Z_pcs = pcs, Z_log = L\<rparr>"
  have ord: "distinct ord" "set ord = {i. took_effect (pcs i)}" "bytes_of h = content ops ord c"
    "\<And>i r. ended (pcs i) = Some r \<Longrightarrow> answered ops c ord L i r"
    "\<And>i. in_section (pcs i) \<Longrightarrow> \<exists>pre. ord = pre @ [i]"
    and c: "cache_inv X h" "h_cacheValid h" "one_in_section ?s" "\<And>i. cached_pc (ops i) (pcs i)"
    using inv by (simp_all add: calls_inv_def explains_def)
  have not_r: "h_mu h \<noteq> RLocked n" for n using c(3) by (auto simp: one_in_section_def)
  have "in_section (pcs i) \<Longrightarrow> h_mu h = WLocked" using section_held [OF c(3), of i] by simp
  from call_step_kinds [OF step c(1,2) not_r this ok c(4)] have pc': "cached_pc (ops i) pc'"
    and kinds: "step_looks (pcs i) h pc' h' \<or> step_acts X (ops i) (pcs i) h pc' h' \<or> step_ends X (ops i) (pcs i) h pc' h' l"
    by (simp_all add: step_kinds_def)
  from kinds show ?thesis
  proof (elim disjE)
    assume k: "step_looks (pcs i) h pc' h'"
    then have same: "took_effect ((pcs(i := pc')) j) = took_effect (pcs j)" "in_section ((pcs(i := pc')) j) = in_section (pcs j)" for j
      by (simp_all add: step_looks_def)
    have "one_in_section \<lparr>Z_shared = (w', h'), Z_pcs = pcs(i := pc'), Z_log = L @ l\<rparr>"
      using c(3) k unfolding one_in_section_def by (simp add: same step_looks_def del: fun_upd_apply split: rwmutex.split_asm)
    then show ?thesis
      using ord c pc' k answered_mono [of ops c ord L _ _ "[]" l]
      by (intro exI [of _ "[]"]) (auto simp: calls_inv_def explains_def step_looks_def)
  next
    assume k: "step_acts X (ops i) (pcs i) h pc' h'"
    then have free: "\<not> in_section (pcs j)" for j using c(3) by (simp add: step_acts_def one_in_section_def)
    have new: "answered ops c (ord @ [i]) (L @ l) i r" if "ended pc' = Some r" for r
      using k that ord(3) unfolding answered_def
      by (intro exI [of _ ord] exI [of _ "[]"]) (auto simp: step_acts_def)
    have "i \<notin> set ord" using ord(2) k by (simp add: step_acts_def)
    moreover have "one_in_section \<lparr>Z_shared = (w', h'), Z_pcs = pcs(i := pc'), Z_log = L @ l\<rparr>"
      using k free by (auto simp: one_in_section_def step_acts_def)
    moreover have "set (ord @ [i]) = {j. took_effect ((pcs(i := pc')) j)}"
      using ord(2) k by (auto simp: step_acts_def)
    ultimately show ?thesis
      using ord c pc' k free new answered_mono [of ops c ord L _ _ "[i]" l]
      by (intro exI [of _ "[i]"]) (auto simp: calls_inv_def explains_def step_acts_def)
  next
    assume k: "step_ends X (ops i) (pcs i) h pc' h' l"
    then have in_i: "in_section (pcs i)" by (simp add: step_ends_def)
    obtain pre where pre: "ord = pre @ [i]" using ord(5) [OF in_i] by blast
    have only: "in_section (pcs j) \<longleftrightarrow> j = i" for j using section_held [OF c(3), of i] in_i by simp
    have new: "answered ops c ord (L @ l) i r" if "ended pc' = Some r" for r
      using k that ord(3) pre unfolding answered_def
      by (intro exI [of _ pre] exI [of _ "[]"])
        (auto simp: step_ends_def returns_or_services_fail_def intro: put_ok_append split: result.splits)
    have "one_in_section \<lparr>Z_shared = (w', h'), Z_pcs = pcs(i := pc'), Z_log = L @ l\<rparr>"
      using k only by (auto simp: one_in_section_def step_ends_def)
    moreover have "set ord = {j. took_effect ((pcs(i := pc')) j)}"
      using ord(2) k by (auto simp: step_ends_def)
    ultimately show ?thesis
      using ord c pc' k only new answered_mono [of ops c ord L _ _ "[]" l]
      by (intro exI [of _ "[]"]) (auto simp: calls_inv_def explains_def step_ends_def)
  qed
qed

lemma calls_step_inv:
  assumes "calls_step X fs ops s s'" "calls_inv X ops c ord s" "runtime_ok X" "\<And>i. op_ok X (ops i)"
  shows "\<exists>ext. calls_inv X ops c (ord @ ext) s'"
  using assms(1)
proof cases
  case (Call i pcs sh pc' l sh' L)
  then show ?thesis
    using call_keeps_inv [of X ops c ord "fst sh" "snd sh" pcs L fs i pc' l "fst sh'" "snd sh'"] assms(2-)
    by simp
next
  case (World w h pcs L w')
  then show ?thesis using assms(2)
    by (intro exI [of _ "[]"]) (simp add: calls_inv_def explains_def one_in_section_def split: rwmutex.splits)
qed

lemma calls_run_inv:
  assumes "(calls_step X fs ops)\<^sup>*\<^sup>* s s'" "calls_inv X ops c ord s" "runtime_ok X" "\<And>i. op_ok X (ops i)"
  shows "\<exists>ext. calls_inv X ops c (ord @ ext) s'"
  using assms(1)
proof induction
  case base
  then show ?case using assms(2) by (intro exI [of _ "[]"]) simp
next
  case (step s' s'')
  then obtain ext where "calls_inv X ops c (ord @ ext) s'" by blast
  from calls_step_inv [OF step(2) this assms(3,4)] show ?case by (metis append_assoc)
qed

lemma calls_start_inv:
  assumes "cached X c h"
  shows "calls_inv X ops c [] (calls_start ops w h)"
proof -
  have "\<not> took_effect (start_pc op) \<and> \<not> in_section (start_pc op) \<and> ended (start_pc op) = None \<and> cached_pc op (start_pc op)" for op
    by (cases op) (simp_all add: start_pc_def)
  then show ?thesis
    using assms by (simp add: calls_inv_def explains_def calls_start_def one_in_section_def cached_def handler_inv_def)
qed

subsection \<open>Properties\<close>

text \<open>
  C22: the steps are the call. A read, write or truncation that runs without interruption on an
  unlocked handler, step by step, has exactly the result, the calls and the effects of ReadAt,
  WriteAt or Truncate, whether the file has to be downloaded first or not, whatever the offset
  or size, and however the services answer.
\<close>

theorem call_steps_are_the_call:
  assumes "h_mu h = Unlocked"
  shows "call_alone 6 X fs op (start_pc op) (w, h) = file_step X fs op (w, h)"
  by (rule call_alone_file_step [OF assms])

theorem call_steps_are_the_call_witness:
  "call_alone 6 mem_env mem_root (OpTruncate 1) (CT T_Start) (mem0, mem_new ''/a.txt'') =
     file_step mem_env mem_root (OpTruncate 1) (mem0, mem_new ''/a.txt'') \<and>
   fst (file_step mem_env mem_root (OpTruncate 1) (mem0, mem_new ''/a.txt'')) = Ok (OutTruncate None)"
proof (rule conjI)
  have "h_mu (mem_new ''/a.txt'') = Unlocked" by (simp add: mem_new_def newSftpFileHandler_def)
  from call_steps_are_the_call [OF this, of mem_env mem_root "OpTruncate 1" mem0]
  show "call_alone 6 mem_env mem_root (OpTruncate 1) (CT T_Start) (mem0, mem_new ''/a.txt'') =
     file_step mem_env mem_root (OpTruncate 1) (mem0, mem_new ''/a.txt'')" by (simp add: start_pc_def del: call_alone.simps)
qed code_simp

text \<open>
  C6: concurrent calls on a cached file are linearizable, when every call fits it: no read or
  write has a negative offset, and no write ends, and no truncation reaches, beyond the largest
  allocation. However many such reads, writes and
  truncations interleave, in whatever order their steps run and whatever the world does in
  between, at every moment there is one order of the calls that have taken effect such that
  the cache holds what the abstract file holds after them in that order, and every call that
  ended answered what its abstract operation answers at its place (a read exactly the bytes
  of that moment, a write the count of all its bytes, a truncation to a negative size an
  error), or ended in a nil dereference or a failed allocation, never in another panic; a change that reported success was accepted
  by the data gateway with the whole contents of that moment. Later calls come later in the
  order: what explains a state is extended, never reordered, in the states after it. At most
  one call is in the section under the lock.
\<close>

theorem concurrent_calls_linearizable:
  assumes "cached X c h" "runtime_ok X" "\<And>i. op_ok X (ops i)"
    "(calls_step X fs ops)\<^sup>*\<^sup>* (calls_start ops w h) s" "(calls_step X fs ops)\<^sup>*\<^sup>* s s'"
  shows "(\<exists>ord ext. explains ops c ord s \<and> explains ops c (ord @ ext) s') \<and>
    (\<forall>i j. in_section (Z_pcs s i) \<and> in_section (Z_pcs s j) \<longrightarrow> i = j)"
proof -
  obtain ord where ord: "calls_inv X ops c ord s"
    using calls_run_inv [OF assms(4) calls_start_inv [OF assms(1)] assms(2,3)] by auto
  then obtain ext where "calls_inv X ops c (ord @ ext) s'"
    using calls_run_inv [OF assms(5) ord assms(2,3)] by blast
  moreover have "one_in_section s" using ord by (simp add: calls_inv_def)
  ultimately show ?thesis
    using ord section_held [of s] unfolding calls_inv_def by blast
qed

definition mixed_calls :: "nat \<Rightarrow> file_op" where
  "mixed_calls i = (if i = 0 then OpWrite [1] 0 else if i = 1 then OpRead [0, 0] 0
     else if i = 2 then OpTruncate 1 else OpRead [] 0)"

lemma mixed_calls_ok: "op_ok mem_env (mixed_calls i)"
  by (simp add: op_ok_def mixed_calls_def mem_env_def)

theorem concurrent_calls_linearizable_witness:
  "\<exists>s ord. (calls_step mem_env mem_root mixed_calls)\<^sup>*\<^sup>* (calls_start mixed_calls mem0 mem_open) s \<and>
     ended (Z_pcs s 1) = Some (Ok (OutRead (2, [1, 105], Some EOF))) \<and> Z_pcs s 2 = CT T_Upload \<and>
     explains mixed_calls [104, 105] ord s"
proof -
  let ?s = "run_calls mem_env mem_root mixed_calls [0, 1, 0, 1, 0, 1, 2] (calls_start mixed_calls mem0 mem_open)"
  have reach: "(calls_step mem_env mem_root mixed_calls)\<^sup>*\<^sup>* (calls_start mixed_calls mem0 mem_open) ?s"
    by (rule run_calls_reaches)
  obtain ord where "explains mixed_calls [104, 105] ord ?s"
    using concurrent_calls_linearizable [OF mem_open_cached mem_runtime_ok mixed_calls_ok reach rtranclp.rtrancl_refl] by blast
  moreover have "ended (Z_pcs ?s 1) = Some (Ok (OutRead (2, [1, 105], Some EOF)))" "Z_pcs ?s 2 = CT T_Upload"
    by code_simp+
  ultimately show ?thesis using reach by blast
qed

text \<open>
  C39: a failed truncation frees the lock of another call. While the file cannot be downloaded, a
  truncation gives its lock up to download, a write (which ignores the failed download) takes
  it and starts its upload, and the deferred Unlock of the failed truncation then unlocks the
  writer's lock: a second write enters the section under the lock while the first one is
  still in it.
\<close>

theorem failed_truncate_breaks_exclusion:
  assumes "runtime_ok X" "\<And>w. \<exists>e l w'. fetchFile X fs ref w = (Err e, l, w')" "0 \<le> sz"
    "op_ok X (OpWrite b1 off1)" "op_ok X (OpWrite b2 off2)"
    "ops 0 = OpTruncate sz" "ops 1 = OpWrite b1 off1" "ops 2 = OpWrite b2 off2"
  shows "\<exists>s. (calls_step X fs ops)\<^sup>*\<^sup>* (calls_start ops w (newSftpFileHandler ref p fl)) s \<and>
    in_section (Z_pcs s 1) \<and> in_section (Z_pcs s 2)"
proof -
  let ?h = "newSftpFileHandler ref p fl"
  have h: "h_mu ?h = Unlocked" "\<not> h_cacheValid ?h" "h_ref ?h = ref" by (simp_all add: newSftpFileHandler_def)
  have inv: "cache_inv X ?h" using new_handler_inv [OF assms(1)] by (simp add: handler_inv_def)
  obtain e1 l1 w1 where f1: "fetchFile X fs ref w = (Err e1, l1, w1)" using assms(2) by blast
  obtain e2 l2 w2 where f2: "fetchFile X fs ref w1 = (Err e2, l2, w2)" using assms(2) by blast
  obtain e3 l3 w3 where f3: "fetchFile X fs ref w2 = (Err e3, l3, w3)" using assms(2) by blast
  obtain h1 where r1: "write_step X fs (b1, off1) W_Ready (w2, ?h) = Some (W_Upload (length b1), [], (w2, h1))"
    "cache_inv X h1" "h_mu h1 = WLocked" "h_ref h1 = ref"
    using ready_enters [OF h(1) inv assms(1,4), of fs w2] h(3) by metis
  let ?h1 = "h1\<lparr>h_mu := Unlocked\<rparr>"
  obtain h2 where r2: "write_step X fs (b2, off2) W_Ready (w3, ?h1) = Some (W_Upload (length b2), [], (w3, h2))"
    using ready_enters [OF _ _ assms(1,5), of ?h1 fs w3] r1(2) by auto
  define s where "s = run_calls X fs ops [0, 1, 1, 2, 2, 1, 0, 2] (calls_start ops w ?h)"
  have reach: "(calls_step X fs ops)\<^sup>*\<^sup>* (calls_start ops w ?h) s" unfolding s_def by (rule run_calls_reaches)
  have steps:
    "call_step X fs (OpTruncate sz) (CT T_Start) (w, ?h) = Some (CT T_Fetch, [], (w, ?h))"
    "call_step X fs (OpWrite b1 off1) (CW W_Start) (w, ?h) = Some (CW W_Fetch, [], (w, ?h))"
    "call_step X fs (OpWrite b1 off1) (CW W_Fetch) (w, ?h) = Some (CW W_Ready, l1, (w1, ?h))"
    "call_step X fs (OpWrite b2 off2) (CW W_Start) (w1, ?h) = Some (CW W_Fetch, [], (w1, ?h))"
    "call_step X fs (OpWrite b2 off2) (CW W_Fetch) (w1, ?h) = Some (CW W_Ready, l2, (w2, ?h))"
    "call_step X fs (OpWrite b1 off1) (CW W_Ready) (w2, ?h) = Some (CW (W_Upload (length b1)), [], (w2, h1))"
    "call_step X fs (OpWrite b2 off2) (CW W_Ready) (w3, ?h1) = Some (CW (W_Upload (length b2)), [], (w3, h2))"
    using assms(3) h f1 f2 by (simp_all add: r1(1) r2 del: write_step.simps(4))
  have frees: "call_step X fs (OpTruncate sz) (CT T_Fetch) (w2, h1) = Some (CT (T_End (Err e3)), l3, (w3, ?h1))"
    by (simp add: r1(4) f3 with_defer_def fail_def mu_Unlock_locked [OF r1(3)])
  have "Z_pcs s 1 = CW (W_Upload (length b1)) \<and> Z_pcs s 2 = CW (W_Upload (length b2))"
    by (simp add: s_def calls_start_def start_pc_def assms(6,7,8) steps frees del: call_step.simps One_nat_def)
  with reach show ?thesis by (intro exI [of _ s]) simp
qed

definition failing_calls :: "nat \<Rightarrow> file_op" where
  "failing_calls i = (if i = 0 then OpTruncate 1 else OpWrite [1] 0)"

theorem failed_truncate_breaks_exclusion_witness:
  "\<exists>s. (calls_step flaky_env mem_root failing_calls)\<^sup>*\<^sup>* (calls_start failing_calls mem0 (mem_new ''/a.txt'')) s \<and>
    in_section (Z_pcs s 1) \<and> in_section (Z_pcs s 2)"
proof -
  have "\<exists>e l w'. fetchFile flaky_env mem_root \<lparr>RefResourceId = mem_rid, RefPath = ''/a.txt''\<rparr> w = (Err e, l, w')" for w
    by (simp add: fetchFile_def flaky_env_def mem_env_def mem_gateway_def rpc_call_def call_Next_def go_defs)
  moreover have "runtime_ok flaky_env" "op_ok flaky_env (OpWrite [1] 0)"
    by (simp_all add: runtime_ok_def op_ok_def flaky_env_def mem_env_def)
  ultimately show ?thesis
    unfolding mem_new_def
    by (intro failed_truncate_breaks_exclusion [where sz = 1]) (simp_all add: failing_calls_def)
qed

end
