(* ===== verification/WritersProps.thy ===== *)
theory WritersProps
  imports CallsProps
begin

text \<open>
  Calls of WriteAt alone, a special case of theory CallsProps: writes on a cached file are
  linearizable. On a file that is not cached yet, an acknowledged write can be lost.
\<close>

subsection \<open>The system\<close>

record ('w, 'c) writers =
  Y_shared :: "'w \<times> handler"
  Y_pcs :: "nat \<Rightarrow> write_pc"
  Y_log :: "'c event list"

definition writers_start :: "'w \<Rightarrow> handler \<Rightarrow> ('w, 'c) writers" where
  "writers_start w h = \<lparr>Y_shared = (w, h), Y_pcs = (\<lambda>_. W_Start), Y_log = []\<rparr>"

inductive writers_step ::
    "('w, 'c) env \<Rightarrow> 'c root \<Rightarrow> (nat \<Rightarrow> byte list \<times> int) \<Rightarrow> ('w, 'c) writers \<Rightarrow> ('w, 'c) writers \<Rightarrow> bool"
  for X :: "('w, 'c) env" and fs :: "'c root" and reqs :: "nat \<Rightarrow> byte list \<times> int" where
  Writer: "write_step X fs (reqs i) (pcs i) sh = Some (pc', l, sh') \<Longrightarrow>
    writers_step X fs reqs \<lparr>Y_shared = sh, Y_pcs = pcs, Y_log = L\<rparr>
      \<lparr>Y_shared = sh', Y_pcs = pcs(i := pc'), Y_log = L @ l\<rparr>"
| World: "writers_step X fs reqs \<lparr>Y_shared = (w, h), Y_pcs = pcs, Y_log = L\<rparr>
      \<lparr>Y_shared = (w', h), Y_pcs = pcs, Y_log = L\<rparr>"

text \<open>A schedule names the call that moves next; one that cannot is skipped.\<close>

fun run_schedule ::
    "('w, 'c) env \<Rightarrow> 'c root \<Rightarrow> (nat \<Rightarrow> byte list \<times> int) \<Rightarrow> nat list \<Rightarrow> ('w, 'c) writers \<Rightarrow> ('w, 'c) writers" where
  "run_schedule X fs reqs [] s = s"
| "run_schedule X fs reqs (i # is) s = run_schedule X fs reqs is
     (case write_step X fs (reqs i) (Y_pcs s i) (Y_shared s) of
        None \<Rightarrow> s
      | Some (pc', l, sh') \<Rightarrow> s\<lparr>Y_shared := sh', Y_pcs := (Y_pcs s)(i := pc'), Y_log := Y_log s @ l\<rparr>)"

lemma run_schedule_reaches: "(writers_step X fs reqs)\<^sup>*\<^sup>* s (run_schedule X fs reqs is s)"
proof (induction "is" arbitrary: s)
  case (Cons i "is")
  obtain sh pcs L where s: "s = \<lparr>Y_shared = sh, Y_pcs = pcs, Y_log = L\<rparr>" by (cases s)
  show ?case
  proof (cases "write_step X fs (reqs i) (pcs i) sh")
    case None
    then show ?thesis using Cons by (simp add: s)
  next
    case (Some r)
    obtain pc' l sh' where r: "r = (pc', l, sh')" by (cases r)
    have "writers_step X fs reqs s \<lparr>Y_shared = sh', Y_pcs = pcs(i := pc'), Y_log = L @ l\<rparr>"
      unfolding s using Some r by (intro writers_step.Writer) simp
    then show ?thesis
      using Cons [of "\<lparr>Y_shared = sh', Y_pcs = pcs(i := pc'), Y_log = L @ l\<rparr>"] Some r
      by (simp add: s converse_rtranclp_into_rtranclp)
  qed
qed simp

subsection \<open>Writes as calls\<close>

definition apply_write :: "byte list \<times> int \<Rightarrow> byte list \<Rightarrow> byte list" where
  "apply_write req c = put_at c (nat (snd req)) (fst req)"

definition req_ok :: "('w, 'c) env \<Rightarrow> byte list \<times> int \<Rightarrow> bool" where
  "req_ok X req \<longleftrightarrow> 0 \<le> snd req \<and> snd req + int (length (fst req)) \<le> E_max_alloc X"

definition write_op :: "byte list \<times> int \<Rightarrow> file_op" where
  "write_op req = OpWrite (fst req) (snd req)"

definition as_calls :: "('w, 'c) writers \<Rightarrow> ('w, 'c) calls" where
  "as_calls s = \<lparr>Z_shared = Y_shared s, Z_pcs = (\<lambda>i. CW (Y_pcs s i)), Z_log = Y_log s\<rparr>"

lemma write_op_simps [simp]:
  "op_ok X (write_op req) = req_ok X req" "abs_op (write_op req) = apply_write req"
  "call_step X fs (write_op req) (CW pc) sh = map_option (apfst CW) (write_step X fs req pc sh)"
  by (simp_all add: write_op_def op_ok_def req_ok_def abs_op_def apply_write_def fun_eq_iff)

lemma content_writes: "content (\<lambda>i. write_op (reqs i)) ord c = fold (\<lambda>i. apply_write (reqs i)) ord c"
  by (simp add: content_def)

lemma writers_step_call:
  assumes "writers_step X fs reqs s s'"
  shows "calls_step X fs (\<lambda>i. write_op (reqs i)) (as_calls s) (as_calls s')"
  using assms
proof cases
  case (Writer i pcs sh pc' l sh' L)
  have "(\<lambda>j. CW ((pcs(i := pc')) j)) = (\<lambda>j. CW (pcs j))(i := CW pc')" by auto
  then show ?thesis
    using Writer calls_step.Call [of X fs "\<lambda>i. write_op (reqs i)" i "\<lambda>j. CW (pcs j)" sh "CW pc'" l sh' L]
    by (simp add: as_calls_def)
qed (simp add: as_calls_def calls_step.World)

lemma writers_run_calls:
  "(writers_step X fs reqs)\<^sup>*\<^sup>* s s' \<Longrightarrow> (calls_step X fs (\<lambda>i. write_op (reqs i)))\<^sup>*\<^sup>* (as_calls s) (as_calls s')"
  by (induction rule: rtranclp_induct) (auto dest: writers_step_call intro: rtranclp.rtrancl_into_rtrancl)

lemma writers_start_calls: "as_calls (writers_start w h) = calls_start (\<lambda>i. write_op (reqs i)) w h"
  by (simp add: as_calls_def writers_start_def calls_start_def start_pc_def write_op_def)

text \<open>
  A request that the data gateway answered with 200 carried the bytes of call \<open>i\<close> together
  with those of every call before it in the order.
\<close>

definition sent :: "(nat \<Rightarrow> byte list \<times> int) \<Rightarrow> byte list \<Rightarrow> 'c event list \<Rightarrow> nat list \<Rightarrow> nat \<Rightarrow> bool" where
  "sent reqs c L ord i \<longleftrightarrow> (\<exists>pre post. ord = pre @ i # post \<and>
     put_ok (fold (\<lambda>i. apply_write (reqs i)) (pre @ [i]) c) L)"

lemma upload_step:
  assumes "write_step X fs req (W_Upload n) (w, h) = Some (pc', l, (w', h'))" "n = length (fst req)"
    "cache_inv X h" "h_cacheValid h" "h_mu h = WLocked" "runtime_ok X" "req_ok X req"
  shows "\<exists>r. pc' = W_End r \<and> returns_or_services_fail (\<lambda>(m, err). m = n) r \<and> bytes_of h' = bytes_of h \<and>
    h_mu h' = Unlocked \<and> (\<forall>m. r = Ok (m, None) \<longrightarrow> put_ok (bytes_of h) l)"
proof -
  have "call_step X fs (write_op req) (CW (W_Upload n)) (w, h) = Some (CW pc', l, (w', h'))" using assms(1) by simp
  moreover have "op_ok X (write_op req)" using assms(7) by simp
  ultimately have "step_kinds X (write_op req) (CW (W_Upload n)) h (CW pc') h' l"
    using assms(2-6) by (intro call_step_kinds) (simp_all add: write_op_def)
  then have "step_ends X (write_op req) (CW (W_Upload n)) h (CW pc') h' l"
    by (auto simp: step_kinds_def step_looks_def step_acts_def write_op_def)
  then obtain r where r: "bytes_of h' = bytes_of h" "h_mu h' = Unlocked" "ended (CW pc') = Some r"
    "returns_or_services_fail (\<lambda>out. \<forall>c. abs_out (write_op req) c out) r" "change_ok r \<longrightarrow> put_ok (bytes_of h) l"
    by (auto simp: step_ends_def)
  then obtain r' where "pc' = W_End r'" "r = map_result (\<lambda>(n, err). OutWrite n err) r'"
    by (cases pc') simp_all
  then show ?thesis
    using r assms(2) by (cases r') (auto simp: write_op_def abs_out_def change_ok_def)
qed

subsection \<open>The end of a call that has fetched the file\<close>

lemma run_schedule_append: "run_schedule X fs reqs (xs @ ys) s = run_schedule X fs reqs ys (run_schedule X fs reqs xs s)"
  by (induction xs arbitrary: s) simp_all

text \<open>The services accept whatever is uploaded for the reference.\<close>

definition takes_uploads :: "('w, 'c) env \<Rightarrow> 'c root \<Rightarrow> reference \<Rightarrow> bool" where
  "takes_uploads X fs ref \<longleftrightarrow> (\<forall>w h. cache_inv X h \<and> h_ref h = ref \<longrightarrow>
     (\<exists>l w' h'. uploadFile X fs (w, h) = (Ok (), l, (w', h'))))"

lemma upload_accepted:
  assumes "takes_uploads X fs (h_ref h)" "cache_inv X h" "h_mu h = WLocked"
  obtains l w' h' where "write_step X fs (b, off) (W_Upload n) (w, h) = Some (W_End (Ok (n, None)), l, (w', h'))"
    "h_ref h' = h_ref h"
proof -
  obtain l w1 h1 where u: "uploadFile X fs (w, h) = (Ok (), l, (w1, h1))"
    using assms(1,2) unfolding takes_uploads_def by blast
  have "upload_post fs h (Ok ()) l h1" using wpD [OF wp_uploadFile [OF assms(2)] u] by simp
  then obtain e where "h1 = h\<lparr>h_etag := e\<rparr>" unfolding upload_post_def by blast
  then have m: "h_mu h1 = WLocked" "h_ref h1 = h_ref h" using assms(3) by simp_all
  have "upload_counted X fs n (w, h) = (Ok (n, None), l, (w1, h1))"
    by (simp add: upload_counted_def bnd_def try_go_def u ret_apply)
  then have "write_step X fs (b, off) (W_Upload n) (w, h) =
      Some (W_End (Ok (n, None)), l, (w1, h1\<lparr>h_mu := Unlocked\<rparr>))"
    using m(1) by (simp add: with_defer_def mu_Unlock_locked)
  then show thesis using that m(2) by simp
qed

text \<open>It stores what it fetched, over whatever the cache holds, writes and uploads.\<close>

lemma fetched_tail:
  assumes "pcs i = W_Fetched (c, t)" "h_mu h = Unlocked" "int (length c) \<le> E_max_alloc X"
    "runtime_ok X" "req_ok X (reqs i)" "takes_uploads X fs (h_ref h)"
  shows "\<exists>l w' h'. run_schedule X fs reqs [i, i, i] \<lparr>Y_shared = (w, h), Y_pcs = pcs, Y_log = L\<rparr> =
      \<lparr>Y_shared = (w', h'), Y_pcs = pcs(i := W_End (Ok (length (fst (reqs i)), None))), Y_log = L @ l\<rparr> \<and>
    bytes_of h' = apply_write (reqs i) c \<and> h_mu h' = Unlocked \<and> h_ref h' = h_ref h \<and>
    put_ok (apply_write (reqs i) c) l"
proof -
  let ?h1 = "put_fetched (c, t) h"
  have h1: "h_mu ?h1 = Unlocked" "cache_inv X ?h1" "h_ref ?h1 = h_ref h"
    using assms(2,3) by (simp_all add: put_fetched_def cache_inv_def bytes_of_def)
  obtain b off where req: "reqs i = (b, off)" by force
  have s1: "write_step X fs (reqs i) (W_Fetched (c, t)) (w, h) = Some (W_Ready, [], (w, ?h1))"
    using assms(2) by (simp add: req storeFetched_run)
  have ok: "op_ok X (OpWrite b off)" using assms(5) by (simp add: req req_ok_def op_ok_def)
  obtain h2 where s2: "write_step X fs (reqs i) W_Ready (w, ?h1) = Some (W_Upload (length (fst (reqs i))), [], (w, h2))"
    and h2: "bytes_of h2 = apply_write (reqs i) c" "cache_inv X h2" "h_cacheValid h2" "h_mu h2 = WLocked" "h_ref h2 = h_ref h"
    by (rule ready_enters [OF h1(1,2) assms(4) ok, of fs w]) (simp add: h1(3) req apply_write_def del: write_step.simps)
  have acc: "takes_uploads X fs (h_ref h2)" using assms(6) h2(5) by simp
  obtain l3 w3 h3 where s3: "write_step X fs (reqs i) (W_Upload (length (fst (reqs i)))) (w, h2) =
      Some (W_End (Ok (length (fst (reqs i)), None)), l3, (w3, h3))" and ref: "h_ref h3 = h_ref h2"
    unfolding req by (rule upload_accepted [OF acc h2(2,4)])
  have u: "bytes_of h3 = bytes_of h2" "h_mu h3 = Unlocked" "put_ok (bytes_of h2) l3"
    using upload_step [OF s3 refl h2(2,3,4) assms(4,5)] by auto
  have "run_schedule X fs reqs [i, i, i] \<lparr>Y_shared = (w, h), Y_pcs = pcs, Y_log = L\<rparr> =
      \<lparr>Y_shared = (w3, h3), Y_pcs = pcs(i := W_End (Ok (length (fst (reqs i)), None))), Y_log = L @ l3\<rparr>"
    by (simp add: assms(1) s1 s2 s3 del: write_step.simps)
  then show ?thesis
    using u h2(1,5) ref by (intro exI [of _ l3] exI [of _ w3] exI [of _ h3]) auto
qed

subsection \<open>Properties\<close>

text \<open>A write that runs alone is WriteAt; the steps of theory Calls give the same for every call.\<close>

lemma write_steps_are_WriteAt:
  assumes "h_mu h = Unlocked"
  shows "run_alone 6 X fs (b, off) W_Start (w, h) = WriteAt X fs b off (w, h)"
  by (rule run_alone_WriteAt [OF assms])

text \<open>
  Concurrent writes to a cached file are linearizable: at every moment there is one order of the
  calls that have written, with the cache holding exactly the result of these writes in that
  order; at most one call holds the lock; every call that returned counts all its bytes; and
  one that reported no error was sent to the data gateway, and accepted, together with every
  write before it.
\<close>

lemma concurrent_writes_linearizable:
  assumes "(writers_step X fs reqs)\<^sup>*\<^sup>* (writers_start w h) s" "cached X c h" "runtime_ok X"
    "\<And>i. req_ok X (reqs i)"
  shows "(\<exists>ord. distinct ord \<and> set ord = {i. has_written (Y_pcs s i)} \<and>
       bytes_of (snd (Y_shared s)) = fold (\<lambda>i. apply_write (reqs i)) ord c \<and>
       (\<forall>i n. Y_pcs s i = W_End (Ok (n, None)) \<longrightarrow> sent reqs c (Y_log s) ord i)) \<and>
     (\<forall>i j. holds_lock (Y_pcs s i) \<and> holds_lock (Y_pcs s j) \<longrightarrow> i = j) \<and>
     (\<forall>i n err. Y_pcs s i = W_End (Ok (n, err)) \<longrightarrow> n = length (fst (reqs i)))"
proof -
  let ?ops = "\<lambda>i. write_op (reqs i)"
  have ops: "op_ok X (?ops i)" for i using assms(4) by simp
  have "(calls_step X fs ?ops)\<^sup>*\<^sup>* (calls_start ?ops w h) (as_calls s)"
    using writers_run_calls [OF assms(1)] unfolding writers_start_calls [of w h reqs] .
  from calls_run_inv [OF this calls_start_inv [OF assms(2)] assms(3) ops]
  obtain ord where ord: "calls_inv X ?ops c ord (as_calls s)" by auto
  then have ex: "distinct ord" "set ord = {i. has_written (Y_pcs s i)}"
    "bytes_of (snd (Y_shared s)) = fold (\<lambda>i. apply_write (reqs i)) ord c"
    "\<And>i r. ended (CW (Y_pcs s i)) = Some r \<Longrightarrow> answered ?ops c ord (Y_log s) i r"
    by (simp_all add: calls_inv_def explains_def as_calls_def content_writes)
  have "sent reqs c (Y_log s) ord i" if "Y_pcs s i = W_End (Ok (n, None))" for i n
    using ex(4) [of i "Ok (OutWrite n None)"] that
    unfolding answered_def sent_def content_writes by (auto simp: change_ok_def)
  moreover have "n = length (fst (reqs i))" if "Y_pcs s i = W_End (Ok (n, err))" for i n err
    using ex(4) [of i "Ok (OutWrite n err)"] that by (auto simp: answered_def write_op_def abs_out_def)
  moreover have "one_in_section (as_calls s)" using ord by (simp add: calls_inv_def)
  then have "\<forall>i j. holds_lock (Y_pcs s i) \<and> holds_lock (Y_pcs s j) \<longrightarrow> i = j"
    using section_held [of "as_calls s"] by (auto simp: as_calls_def)
  ultimately show ?thesis using ex(1-3) by (intro conjI exI [of _ ord]) blast+
qed

definition two_writes :: "nat \<Rightarrow> byte list \<times> int" where
  "two_writes i = (if i = 0 then ([1], 0) else if i = 1 then ([2], 1) else ([], 0))"

lemma two_writes_ok: "req_ok mem_env (two_writes i)"
  by (simp add: req_ok_def two_writes_def mem_env_def)

text \<open>
  C40: two first writes can lose one of them. Take a file that is not cached yet, whose downloads
  give its contents and whose uploads the services accept, and two writes that fit it. Then the two
  calls may both look at cacheValid, both download, and the second may store its download after the
  first has written and uploaded: both calls report all their bytes written without an error, the
  data gateway answered 200 first to the old contents with the first write, then to the old
  contents with the second write only, and these the cache holds in the end. The first
  write is gone although it was acknowledged.
\<close>

theorem first_writes_can_be_lost:
  assumes "runtime_ok X" "req_ok X (reqs 0)" "req_ok X (reqs 1)" "int (length c) \<le> E_max_alloc X"
    "fetchFile X fs ref w = (Ok (c, t), l1, w1)" "fetchFile X fs ref w1 = (Ok (c, t'), l2, w2)"
    "takes_uploads X fs ref"
  shows "\<exists>s la lb. (writers_step X fs reqs)\<^sup>*\<^sup>* (writers_start w (newSftpFileHandler ref p fl)) s \<and>
     Y_pcs s 0 = W_End (Ok (length (fst (reqs 0)), None)) \<and> Y_pcs s 1 = W_End (Ok (length (fst (reqs 1)), None)) \<and>
     Y_log s = la @ lb \<and> put_ok (apply_write (reqs 0) c) la \<and> put_ok (apply_write (reqs 1) c) lb \<and>
     bytes_of (snd (Y_shared s)) = apply_write (reqs 1) c"
proof -
  let ?h = "newSftpFileHandler ref p fl"
  have h: "\<not> h_cacheValid ?h" "h_mu ?h = Unlocked" "h_ref ?h = ref" by (simp_all add: newSftpFileHandler_def)
  obtain b0 o0 b1 o1 where req: "reqs 0 = (b0, o0)" "reqs 1 = (b1, o1)" by (metis surj_pair)
  let ?pcs = "(\<lambda>_ :: nat. W_Start)(0 := W_Fetched (c, t), 1 := W_Fetched (c, t'))"
  let ?fin = "\<lambda>i. W_End (Ok (length (fst (reqs i)), None))"
  have begin_: "run_schedule X fs reqs [0, 0, 1, 1] (writers_start w ?h) =
      \<lparr>Y_shared = (w2, ?h), Y_pcs = ?pcs, Y_log = l1 @ l2\<rparr>"
    using assms(5,6) h req by (simp add: writers_start_def fun_upd_twist)
  have pc0: "?pcs 0 = W_Fetched (c, t)" by simp
  from fetched_tail [of ?pcs 0 c t ?h X reqs fs w2 "l1 @ l2", OF pc0 h(2) assms(4,1,2)] assms(7) h(3)
  obtain l0 w3 h3 where
    a: "run_schedule X fs reqs [0, 0, 0] \<lparr>Y_shared = (w2, ?h), Y_pcs = ?pcs, Y_log = l1 @ l2\<rparr> =
      \<lparr>Y_shared = (w3, h3), Y_pcs = ?pcs(0 := ?fin 0), Y_log = (l1 @ l2) @ l0\<rparr>"
    "h_mu h3 = Unlocked" "h_ref h3 = ref" "put_ok (apply_write (reqs 0) c) l0"
    by auto
  have pc1: "(?pcs(0 := ?fin 0)) 1 = W_Fetched (c, t')" by simp
  from fetched_tail [of "?pcs(0 := ?fin 0)" 1 c t' h3 X reqs fs w3 "(l1 @ l2) @ l0", OF pc1 a(2) assms(4,1,3)] assms(7) a(3)
  obtain l3 w4 h4 where
    b: "run_schedule X fs reqs [1, 1, 1] \<lparr>Y_shared = (w3, h3), Y_pcs = ?pcs(0 := ?fin 0), Y_log = (l1 @ l2) @ l0\<rparr> =
      \<lparr>Y_shared = (w4, h4), Y_pcs = (?pcs(0 := ?fin 0))(1 := ?fin 1), Y_log = ((l1 @ l2) @ l0) @ l3\<rparr>"
    "bytes_of h4 = apply_write (reqs 1) c" "put_ok (apply_write (reqs 1) c) l3"
    by auto
  define s where "s = run_schedule X fs reqs (([0, 0, 1, 1] @ [0, 0, 0]) @ [1, 1, 1]) (writers_start w ?h)"
  have reach: "(writers_step X fs reqs)\<^sup>*\<^sup>* (writers_start w ?h) s"
    unfolding s_def by (rule run_schedule_reaches)
  have s: "s = \<lparr>Y_shared = (w4, h4), Y_pcs = (?pcs(0 := ?fin 0))(1 := ?fin 1), Y_log = ((l1 @ l2) @ l0) @ l3\<rparr>"
    unfolding s_def run_schedule_append begin_ a(1) b(1) ..
  have "put_ok (apply_write (reqs 0) c) ((l1 @ l2) @ l0)" using a(4) by (rule put_ok_append(2))
  then show ?thesis
    using reach b(2,3) by (intro exI [of _ s] exI [of _ "(l1 @ l2) @ l0"] exI [of _ l3]) (simp add: s)
qed

lemma mem_takes_uploads: "takes_uploads mem_env mem_root \<lparr>RefResourceId = mem_rid, RefPath = ''/a.txt''\<rparr>"
proof -
  have key: "mem_key ''/a.txt'' = ''/a.txt''" by code_simp
  have "wp (uploadFile mem_env mem_root) (\<lambda>r l s. r = Ok ()) (w, h)"
    if "cache_inv mem_env h" "h_ref h = \<lparr>RefResourceId = mem_rid, RefPath = ''/a.txt''\<rparr>" for w h
    using that by (simp add: uploadFile_def wp_rules deref_def NewRequest_def slice_to_def cache_inv_def mem_env_def
        mem_gateway_def mem_upload_def mem_transfer_def mem_http_def st_of_def key split: rpc_splits)
  note up = wpD [OF this]
  show ?thesis
    unfolding takes_uploads_def
  proof (intro allI impI)
    fix w h assume h: "cache_inv mem_env h \<and> h_ref h = \<lparr>RefResourceId = mem_rid, RefPath = ''/a.txt''\<rparr>"
    obtain r l w' h' where run: "uploadFile mem_env mem_root (w, h) = (r, l, (w', h'))" by (metis surj_pair)
    then have "r = Ok ()" using up h by blast
    then show "\<exists>l w' h'. uploadFile mem_env mem_root (w, h) = (Ok (), l, (w', h'))" using run by blast
  qed
qed

theorem first_writes_can_be_lost_witness:
  "\<exists>s. (writers_step mem_env mem_root two_writes)\<^sup>*\<^sup>* (writers_start mem0 (mem_new ''/a.txt'')) s \<and>
     Y_pcs s 0 = W_End (Ok (1, None)) \<and> Y_pcs s 1 = W_End (Ok (1, None)) \<and> bytes_of (snd (Y_shared s)) = [104, 2] \<and>
     apply_write (two_writes 1) (apply_write (two_writes 0) [104, 105]) = [1, 2] \<and>
     apply_write (two_writes 0) (apply_write (two_writes 1) [104, 105]) = [1, 2]"
proof -
  let ?ref = "\<lparr>RefResourceId = mem_rid, RefPath = ''/a.txt''\<rparr>"
  obtain r l w1 where f: "fetchFile mem_env mem_root ?ref mem0 = (r, l, w1)" by (metis surj_pair)
  have "fst (fetchFile mem_env mem_root ?ref mem0) = Ok ([104, 105], Some [])"
    "snd (snd (fetchFile mem_env mem_root ?ref mem0)) = mem0" by code_simp+
  then have f: "fetchFile mem_env mem_root ?ref mem0 = (Ok ([104, 105], Some []), l, mem0)" using f by simp
  have two: "apply_write (two_writes 1) [104, 105] = [104, 2]"
    "apply_write (two_writes 1) (apply_write (two_writes 0) [104, 105]) = [1, 2]"
    "apply_write (two_writes 0) (apply_write (two_writes 1) [104, 105]) = [1, 2]"
    "length (fst (two_writes 0)) = 1" "length (fst (two_writes 1)) = 1" by code_simp+
  have "int (length [104 :: byte, 105]) \<le> E_max_alloc mem_env" by (simp add: mem_env_def)
  note lost = first_writes_can_be_lost [where reqs = two_writes and p = "''/Admin/a.txt''" and fl = 3,
      OF mem_runtime_ok two_writes_ok two_writes_ok this f f mem_takes_uploads]
  show ?thesis unfolding mem_new_def append.simps using lost two by auto
qed

end
