(* ===== verification/Spec2Isabelle.thy ===== *)
theory Spec2Isabelle
  imports CliProps LiveFiles VfsTreeProps WritersProps
begin

text \<open>
  opencloud-sftp: an SFTP server in front of an OpenCloud installation. This development
  models the Go program under src/ (pkg/vfs, pkg/server, pkg/config, pkg/keygen,
  pkg/command) and proves the properties listed in its manifest.

  \<^bold>\<open>The program.\<close> A client connects over SSH. The public-key handler
  (pkg/server/auth/handler.go) impersonates the named user at the CS3 gateway with the
  machine secret, loads the keys the user keeps in the folder .ssh of the personal space
  (keystore.go) and accepts a key that equals one of them; it leaves the user id and token in
  the connection's context. The SFTP subsystem (pkg/server/sftp.go) then serves the handlers
  of a virtual file system (pkg/vfs) whose root directory lists the user's storage spaces: a
  path is the name of a space followed by a path inside it (spacelookup.go), file commands
  become gateway calls (cs3.go, sftp.go), and an open file is a cache of the whole file that
  is downloaded on first use and uploaded on every write (filehandler.go). The command init
  (pkg/command/init.go) writes the configuration and a host key pair (pkg/keygen); the
  configuration has defaults and is validated when it is read (pkg/config). The program
  (main.go, pkg/command/root.go) hands its default configuration to four commands: server
  starts the SSH server on the validated configuration, health asks the debug address, version
  lists the instances the registry knows, and init is the one above.

  \<^bold>\<open>How it is modelled.\<close> Code that talks to the outside is a function in the monad of theory
  Prelude: from a state to an outcome (a value, an error, or an abort for a panic, a fatal
  runtime error or a lock that never comes), a log of the calls made, and a new state. The
  gateway, HTTP, the context, key and SFTP libraries are parameters: a record of type
  \<open>('w, 'c) env\<close> over an arbitrary outside world \<open>'w\<close> and arbitrary contexts \<open>'c\<close>, so every
  property without a hypothesis on them holds whatever they answer. Logging is left out.
  Integers that the program computes with are wrapped to 64 bits where they can overflow
  (\<open>int64\<close>), sizes and times that arrive unsigned are words. A client's paths and flags are
  arbitrary unless a property says otherwise.

  \<^bold>\<open>The theories.\<close>
  \<^item> Prelude, Go_Lib, Externals, Os: errors, the monad and its weakest preconditions; what the
    code uses of packages strings, path, strconv and of slices; the boundary; package os.
  \<^item> SpaceLookup: pkg/vfs/spacelookup. Splitting and finding, with their round trip.
  \<^item> Vfs, SftpHandlers: cs3.go and sftp.go, one definition per method, \<open>root_\<close> prefixed to
    the methods of the struct root whose names would clash.
  \<^item> VfsSafety, VfsContract, SftpContract: the shapes of the handlers' call logs, and the
    contract of an operation on a path as the locales \<open>path_operation\<close> and
    \<open>query_operation\<close>, interpreted for every operation.
  \<^item> FileHandler, FileCache, FileOps, Reader: filehandler.go, the invariant of the cache, the
    meaning of the operations on the bytes, and the contract of io.ReaderAt (locale
    \<open>reader_at\<close>, interpreted for open files and for directory listings).
  \<^item> Writers, Calls, CallsProps, WritersProps: calls of ReadAt, WriteAt and Truncate cut into the
    steps between which others can act (\<open>write_step\<close>, \<open>read_step\<close>, \<open>trunc_step\<close>), their
    interleavings as the inductive step relation \<open>calls_step\<close>, and writes alone as a special case.
  \<^item> Session: a client's session as an inductive step relation over requests and open files.
  \<^item> VfsTree, VfsTreeProps: the abstract file system of spaces and trees, and the refinement.
  \<^item> Auth, AuthContract, Server: keystore.go, handler.go and pkg/server/sftp.go, with the
    contract of a key store as the locale \<open>pub_key_storage\<close>.
  \<^item> Config, Keygen, Command: pkg/config, pkg/keygen and pkg/command/init.go.
  \<^item> Cli, CliProps: main.go, pkg/command and pkg/logging, as functions on the state of the process
    (record \<open>process\<close>) with the command-line library and its helpers as parameters (\<open>libs\<close>),
    and the properties of the commands from the start of the program to its exit code.
  \<^item> LiveFiles: the files of a session that is alive are well formed (preservation), and the next
    request on one is answered or ends the process in a listed way (progress).
  \<^item> Sample: an in-memory gateway, used only by the witnesses.
  \<^item> FileProps, VfsProps, ServerProps, CommandProps: the other properties, with their
    witnesses.

  \<^bold>\<open>What the properties show.\<close> A session is contained: it acts as its own user and only in
  spaces listed for that user. A client is let in only with a key of the user it names, and
  its session runs with that user's id and token. Remove, rmdir, mkdir and rename check what
  they must before they change anything, and implement an abstract file system. An open file
  refines an array of bytes; reading in chunks yields the file; a write uploads the whole new
  contents; concurrent reads, writes and truncations of a cached file are linearizable. The server starts on what init wrote,
  and never serves with a configuration that was not validated. The properties named after a defect
  state, also as theorems, where the code does not do what it means to: a stat that ignores
  the answer's status, a swallowed error, a fatal unlock, offsets that wrap, writes after a
  failed download, concurrent first writes that get lost, a failed truncation that frees another call's lock, a host-key path and an address that are ignored.

  \<^bold>\<open>Bounds.\<close> Slices are at most \<open>E_max_alloc\<close> long, which \<open>runtime_ok\<close> takes to fit 64 bits.
  The loops that read a file or a listing are given as many rounds as blocks fill, plus one;
  the properties show that this is enough.

  \<^bold>\<open>Not modelled.\<close> The command-line library itself, whose documented way to run a command is the
  hypothesis \<open>cli_runs\<close>, and the usage texts of commands and flags; log output and the inside of
  the logger; the context that is cancelled on signals, which the program passes on and never
  looks at; TLS settings and timeouts of the HTTP clients; terminal output of init; the
  protocol engines of SSH and SFTP; and the end-to-end tests, which drive the service from
  outside.
\<close>

end
